(* ===== verification/Prelude.thy ===== *)
theory Prelude
  imports Main "HOL-Library.Char_ord" "HOL-Library.List_Lexorder" "HOL-Library.Word"
begin

text \<open>
  Shared vocabulary of the development: Go errors and the chaining of fallible calls,
  Go's fixed-width integers and truncating division, instants and durations, and a small
  algebra of relational tables (lists of rows with a key column) on which the SQL
  statements of the services are translated.
\<close>

section \<open>Collections\<close>

named_theorems err_simps \<open>chaining of fallible calls\<close>
named_theorems tbl_simps \<open>lookups after updates and insertions of table rows\<close>
named_theorems op_defs \<open>definitions of the operations of a component\<close>

section \<open>Errors\<close>

text \<open>
  A Go \<open>error\<close> value: \<open>NoRows\<close> is \<open>pgx.ErrNoRows\<close>, \<open>CallFailed\<close> any other error of a
  driver, a socket or the random source, \<open>Failed m\<close> is \<open>errors.New m\<close> (or
  \<open>fmt.Errorf\<close> without \<open>%w\<close>) and \<open>Wrapped m e\<close> is \<open>fmt.Errorf "m: %w" e\<close>.
\<close>

datatype go_error = NoRows | CallFailed | Failed string | Wrapped string go_error

text \<open>\<open>errors.Is (e, pgx.ErrNoRows)\<close>: the chain of wrapped errors is searched.\<close>

fun is_no_rows :: "go_error \<Rightarrow> bool" where
  "is_no_rows NoRows = True"
| "is_no_rows (Wrapped m e) = is_no_rows e"
| "is_no_rows _ = False"

definition andthen :: "'e + 'a \<Rightarrow> ('a \<Rightarrow> 'e + 'b) \<Rightarrow> 'e + 'b" where
  "andthen m k = (case m of Inl e \<Rightarrow> Inl e | Inr x \<Rightarrow> k x)"

definition wrap :: "string \<Rightarrow> go_error + 'a \<Rightarrow> go_error + 'a" where
  "wrap msg m = (case m of Inl e \<Rightarrow> Inl (Wrapped msg e) | Inr x \<Rightarrow> Inr x)"

definition is_ok :: "'e + 'a \<Rightarrow> bool" where
  "is_ok m = (case m of Inl _ \<Rightarrow> False | Inr _ \<Rightarrow> True)"

lemma andthen_simps [simp]:
  "andthen (Inl e) k = Inl e"
  "andthen (Inr x) k = k x"
  by (simp_all add: andthen_def)

lemma andthen_Inr [err_simps]: "andthen m k = Inr y \<longleftrightarrow> (\<exists>x. m = Inr x \<and> k x = Inr y)"
  by (cases m) auto

lemma andthen_Inl [err_simps]:
  "andthen m k = Inl e \<longleftrightarrow> m = Inl e \<or> (\<exists>x. m = Inr x \<and> k x = Inl e)"
  by (cases m) auto

lemma andthen_assoc: "andthen (andthen m k) h = andthen m (\<lambda>x. andthen (k x) h)"
  by (cases m) auto

lemma wrap_simps [simp]:
  "wrap msg (Inl e) = Inl (Wrapped msg e)"
  "wrap msg (Inr x) = Inr x"
  by (simp_all add: wrap_def)

lemma wrap_Inr [err_simps]: "wrap msg m = Inr y \<longleftrightarrow> m = Inr y"
  by (cases m) auto

lemma is_ok_simps [simp]: "\<not> is_ok (Inl e)" "is_ok (Inr x)"
  by (simp_all add: is_ok_def)

lemma is_ok_iff: "is_ok m \<longleftrightarrow> (\<exists>x. m = Inr x)"
  by (cases m) auto

text \<open>A loop \<open>for _, x := range xs\<close> whose body updates a state and may return an error.\<close>

fun for_each :: "('a \<Rightarrow> 's \<Rightarrow> 'e + 's) \<Rightarrow> 'a list \<Rightarrow> 's \<Rightarrow> 'e + 's" where
  "for_each f [] s = Inr s"
| "for_each f (x # xs) s = andthen (f x s) (for_each f xs)"

lemma for_each_append:
  "for_each f (xs @ ys) s = andthen (for_each f xs s) (for_each f ys)"
proof (induction xs arbitrary: s)
  case (Cons x xs)
  then show ?case by (cases "f x s") auto
qed simp

lemma for_each_invariant:
  assumes "for_each f xs s = Inr t" and "I s"
    and "\<And>x s t. x \<in> set xs \<Longrightarrow> I s \<Longrightarrow> f x s = Inr t \<Longrightarrow> I t"
  shows "I t"
  using assms by (induction xs arbitrary: s) (auto simp: err_simps)

section \<open>Go integers, instants and durations\<close>

text \<open>An \<open>int64\<close> (and an \<open>int\<close>, which is 64 bits wide on the targets) result wraps around.\<close>

definition wrap64 :: "int \<Rightarrow> int" where
  "wrap64 x = (x + 2 ^ 63) mod 2 ^ 64 - 2 ^ 63"

lemma wrap64_id: "- (2 ^ 63) \<le> x \<Longrightarrow> x < 2 ^ 63 \<Longrightarrow> wrap64 x = x"
  by (simp add: wrap64_def)

lemma wrap64_bounds: "- (2 ^ 63) \<le> wrap64 x" "wrap64 x < 2 ^ 63"
  by (simp_all add: wrap64_def)

text \<open>Go's integer division and remainder truncate towards zero.\<close>

definition go_div :: "int \<Rightarrow> int \<Rightarrow> int" where
  "go_div a b = sgn a * sgn b * (\<bar>a\<bar> div \<bar>b\<bar>)"

definition go_mod :: "int \<Rightarrow> int \<Rightarrow> int" where
  "go_mod a b = a - b * go_div a b"

lemma go_mod_nonneg: "0 \<le> a \<Longrightarrow> 0 < b \<Longrightarrow> go_mod a b = a mod b"
  by (cases "a = 0") (auto simp: go_mod_def go_div_def minus_mult_div_eq_mod)

lemma go_mod_neg: "a < 0 \<Longrightarrow> 0 < b \<Longrightarrow> go_mod a b = - ((- a) mod b)"
proof -
  assume "a < 0" "0 < b"
  then have "go_mod a b = - ((- a) - b * ((- a) div b))"
    by (simp add: go_mod_def go_div_def)
  then show ?thesis by (simp add: minus_mult_div_eq_mod)
qed

lemma go_mod_abs_less: "0 < b \<Longrightarrow> \<bar>go_mod a b\<bar> < b"
  by (cases "0 \<le> a") (auto simp: go_mod_nonneg go_mod_neg)

text \<open>
  \<open>time.Time\<close> is a number of nanoseconds since the epoch and \<open>time.Duration\<close> a number of
  nanoseconds. The zero \<open>time.Time\<close> (\<open>IsZero\<close>) is \<open>zero_time\<close>, 1 January of the year 1.
\<close>

type_synonym time = int
type_synonym duration = int

definition second :: duration where "second = 1000000000"
definition millisecond :: duration where "millisecond = 1000000"

definition zero_time :: time where "zero_time = - 62135596800 * second"

text \<open>\<open>int (d.Seconds ())\<close>: the whole seconds of a duration, truncated towards zero.\<close>

definition whole_seconds :: "duration \<Rightarrow> int" where
  "whole_seconds d = go_div d second"

lemma whole_seconds_nonneg: "0 \<le> d \<Longrightarrow> 0 \<le> whole_seconds d"
  by (cases "d = 0") (auto simp: whole_seconds_def go_div_def second_def zero_le_mult_iff)

section \<open>Tables\<close>

text \<open>
  A table is the list of its rows in insertion order; \<open>key\<close> selects the primary key (or a
  unique) column of a row.
\<close>

definition row_find :: "('r \<Rightarrow> 'k) \<Rightarrow> 'k \<Rightarrow> 'r list \<Rightarrow> 'r option" where
  "row_find key k rows = find (\<lambda>r. key r = k) rows"

definition row_update :: "('r \<Rightarrow> 'k) \<Rightarrow> 'k \<Rightarrow> ('r \<Rightarrow> 'r) \<Rightarrow> 'r list \<Rightarrow> 'r list" where
  "row_update key k f rows = map (\<lambda>r. if key r = k then f r else r) rows"

definition row_insert :: "('r \<Rightarrow> 'k) \<Rightarrow> 'r \<Rightarrow> 'r list \<Rightarrow> go_error + 'r list" where
  "row_insert key r rows =
     (if row_find key (key r) rows = None then Inr (rows @ [r]) else Inl CallFailed)"

lemma row_find_simps [simp]:
  "row_find key k [] = None"
  "row_find key k (r # rows) = (if key r = k then Some r else row_find key k rows)"
  by (simp_all add: row_find_def)

lemma row_find_append [simp]:
  "row_find key k (xs @ ys) = (case row_find key k xs of None \<Rightarrow> row_find key k ys | Some r \<Rightarrow> Some r)"
  by (induction xs) auto

lemma row_find_SomeD: "row_find key k rows = Some r \<Longrightarrow> r \<in> set rows \<and> key r = k"
  by (induction rows) (auto split: if_splits)

lemma row_find_None_iff: "row_find key k rows = None \<longleftrightarrow> k \<notin> key ` set rows"
  by (induction rows) auto

lemma row_find_in_set:
  "distinct (map key rows) \<Longrightarrow> r \<in> set rows \<Longrightarrow> row_find key (key r) rows = Some r"
  by (induction rows) (auto simp: rev_image_eqI)

lemma key_unique:
  "distinct (map key rows) \<Longrightarrow> a \<in> set rows \<Longrightarrow> b \<in> set rows \<Longrightarrow> key a = key b \<Longrightarrow> a = b"
  by (auto simp: distinct_map dest: inj_onD)

lemma row_find_Some_iff:
  "distinct (map key rows) \<Longrightarrow> row_find key k rows = Some r \<longleftrightarrow> r \<in> set rows \<and> key r = k"
  using row_find_SomeD row_find_in_set by metis

lemma row_update_simps [simp]:
  "row_update key k f [] = []"
  "row_update key k f (r # rows) = (if key r = k then f r else r) # row_update key k f rows"
  "row_update key k f (xs @ ys) = row_update key k f xs @ row_update key k f ys"
  by (simp_all add: row_update_def)

lemma row_find_update [tbl_simps]:
  assumes "\<And>r. key (f r) = key r"
  shows "row_find key j (row_update key k f rows) =
    (if j = k then map_option f (row_find key k rows) else row_find key j rows)"
  using assms by (induction rows) auto

lemma map_row_update [tbl_simps]:
  assumes "\<And>r. g (f r) = g r"
  shows "map g (row_update key k f rows) = map g rows"
  using assms by (induction rows) auto

lemma set_row_update:
  "set (row_update key k f rows) =
     {r \<in> set rows. key r \<noteq> k} \<union> f ` {r \<in> set rows. key r = k}"
  by (induction rows) auto

lemma row_update_absent [simp]: "k \<notin> key ` set rows \<Longrightarrow> row_update key k f rows = rows"
  by (induction rows) auto

lemma length_row_update [simp]: "length (row_update key k f rows) = length rows"
  by (induction rows) auto

lemma row_insert_Inr [err_simps]:
  "row_insert key r rows = Inr rows' \<longleftrightarrow> row_find key (key r) rows = None \<and> rows' = rows @ [r]"
  by (auto simp: row_insert_def)

lemma row_insert_distinct:
  "row_insert key r rows = Inr rows' \<Longrightarrow> distinct (map key rows) \<Longrightarrow> distinct (map key rows')"
  by (auto simp: err_simps row_find_None_iff)

text \<open>
  Sums over a table after one row, found by its unique key, has been updated: the way the
  quantities held by reservations and products change.
\<close>

lemma sum_row_update:
  fixes h :: "'r \<Rightarrow> int"
  assumes "distinct (map key rows)" and "row_find key k rows = Some r"
  shows "(\<Sum>x\<leftarrow>row_update key k f rows. h x) = (\<Sum>x\<leftarrow>rows. h x) - h r + h (f r)"
  using assms
proof (induction rows)
  case Nil
  then show ?case by simp
next
  case (Cons x rows)
  then show ?case by (cases "key x = k") auto
qed

lemma sum_rows_zero:
  fixes h :: "'r \<Rightarrow> int"
  shows "(\<And>x. x \<in> set rows \<Longrightarrow> h x = 0) \<Longrightarrow> (\<Sum>x\<leftarrow>rows. h x) = 0"
  by (induction rows) auto

lemma sum_rows_cong:
  fixes h g :: "'r \<Rightarrow> int"
  shows "(\<And>x. x \<in> set rows \<Longrightarrow> h x = g x) \<Longrightarrow> (\<Sum>x\<leftarrow>rows. h x) = (\<Sum>x\<leftarrow>rows. g x)"
  by (induction rows) auto

section \<open>Strings\<close>

text \<open>\<open>strings.Split\<close> at one character: there is one piece more than there are separators.\<close>

fun split_on :: "char \<Rightarrow> string \<Rightarrow> string list" where
  "split_on sep [] = [[]]"
| "split_on sep (c # cs) =
     (if c = sep then [] # split_on sep cs
      else case split_on sep cs of p # ps \<Rightarrow> (c # p) # ps | [] \<Rightarrow> [[c]])"

lemma split_on_not_Nil [simp]: "split_on sep s \<noteq> []"
  by (induction s) (auto split: list.splits)

lemma split_on_pieces: "p \<in> set (split_on sep s) \<Longrightarrow> sep \<notin> set p"
  by (induction s arbitrary: p) (auto split: list.splits if_splits)

lemma split_on_single: "sep \<notin> set s \<Longrightarrow> split_on sep s = [s]"
  by (induction s) auto

lemma split_on_append: "sep \<notin> set p \<Longrightarrow> split_on sep (p @ sep # s) = p # split_on sep s"
  by (induction p) auto

end
