(* ===== verification/Ids.thy ===== *)
theory Ids
  imports Prelude
begin

text \<open>
  UUIDs as pkg/platform/id/id.go makes and recognises them, and the text form of a
  PostgreSQL \<open>uuid\<close> column. \<open>format_uuid\<close> renders the 16 random bytes after the version and
  variant bits are stamped; \<open>IsUUID\<close> is the regular expression \<open>uuidPattern\<close>, read as a list
  of character classes; \<open>uuid_key\<close> is the value a text argument denotes when it is bound to a
  \<open>uuid\<close> parameter: the hexadecimal digits are read without regard to case and the column is
  rendered in lower case (\<open>id::text\<close>).
\<close>

unbundle bit_operations_syntax

type_synonym byte = "8 word"

definition hex_digit :: "nat \<Rightarrow> char" where
  "hex_digit n = ''0123456789abcdef'' ! n"

definition hex_byte :: "byte \<Rightarrow> string" where
  "hex_byte b = [hex_digit (unat b div 16), hex_digit (unat b mod 16)]"

definition hex_of :: "byte list \<Rightarrow> string" where
  "hex_of bs = concat (map hex_byte bs)"

text \<open>\<open>NewUUID\<close> after a successful \<open>rand.Read\<close>: \<open>value i\<close> is byte \<open>i\<close> of the 16 it filled.\<close>

definition stamp :: "(nat \<Rightarrow> byte) \<Rightarrow> nat \<Rightarrow> byte" where
  "stamp value = value(6 := (value 6 AND 0x0f) OR 0x40, 8 := (value 8 AND 0x3f) OR 0x80)"

definition format_uuid :: "(nat \<Rightarrow> byte) \<Rightarrow> string" where
  "format_uuid value =
     (let v = stamp value in
      hex_of [v 0, v 1, v 2, v 3] @ ''-'' @ hex_of [v 4, v 5] @ ''-'' @
      hex_of [v 6, v 7] @ ''-'' @ hex_of [v 8, v 9] @ ''-'' @
      hex_of [v 10, v 11, v 12, v 13, v 14, v 15])"

definition is_hex :: "char \<Rightarrow> bool" where
  "is_hex c \<longleftrightarrow> c \<in> set ''0123456789abcdefABCDEF''"

definition is_dash :: "char \<Rightarrow> bool" where
  "is_dash c \<longleftrightarrow> c = CHR ''-''"

definition uuid_pattern :: "(char \<Rightarrow> bool) list" where
  "uuid_pattern =
     replicate 8 is_hex @ [is_dash] @ replicate 4 is_hex @ [is_dash] @
     [\<lambda>c. c \<in> set ''12345678''] @ replicate 3 is_hex @ [is_dash] @
     [\<lambda>c. c \<in> set ''89abAB''] @ replicate 3 is_hex @ [is_dash] @ replicate 12 is_hex"

definition IsUUID :: "string \<Rightarrow> bool" where
  "IsUUID value \<longleftrightarrow> list_all2 (\<lambda>p c. p c) uuid_pattern value"

section \<open>Values of uuid columns\<close>

definition key_pattern :: "(char \<Rightarrow> bool) list" where
  "key_pattern =
     replicate 8 is_hex @ [is_dash] @ replicate 4 is_hex @ [is_dash] @ replicate 4 is_hex @
     [is_dash] @ replicate 4 is_hex @ [is_dash] @ replicate 12 is_hex"

text \<open>In ASCII a capital letter and its small letter differ in bit 5.\<close>

fun set_bit5 :: "char \<Rightarrow> char" where
  "set_bit5 (Char b0 b1 b2 b3 b4 b5 b6 b7) = Char b0 b1 b2 b3 b4 True b6 b7"

definition ascii_lower :: "char \<Rightarrow> char" where
  "ascii_lower c = (if c \<in> set ''ABCDEFGHIJKLMNOPQRSTUVWXYZ'' then set_bit5 c else c)"

definition uuid_key :: "string \<Rightarrow> string option" where
  "uuid_key s =
     (if list_all2 (\<lambda>p c. p c) key_pattern s then Some (map ascii_lower s) else None)"

definition as_uuid :: "string \<Rightarrow> go_error + string" where
  "as_uuid s = (case uuid_key s of None \<Rightarrow> Inl CallFailed | Some k \<Rightarrow> Inr k)"

section \<open>Lemmas\<close>

lemma hex_digits: "n < 16 \<Longrightarrow> hex_digit n \<in> set ''0123456789abcdef''"
  unfolding hex_digit_def by (rule nth_mem) simp

lemma is_hex_digit: "n < 16 \<Longrightarrow> is_hex (hex_digit n)"
  using hex_digits[of n] by (auto simp: is_hex_def)

lemma ascii_lower_digit: "n < 16 \<Longrightarrow> ascii_lower (hex_digit n) = hex_digit n"
  using hex_digits[of n] by (auto simp: ascii_lower_def)

lemma is_hex_lower: "is_hex c \<Longrightarrow> is_hex (ascii_lower c)"
proof (cases "c \<in> set ''ABCDEF''")
  case True
  then show ?thesis by (auto simp: is_hex_def ascii_lower_def)
next
  case False
  assume "is_hex c"
  with False have "c \<in> set ''0123456789abcdef''" by (simp add: is_hex_def)
  then show ?thesis by (auto simp: is_hex_def ascii_lower_def)
qed

lemma is_dash_lower: "is_dash c \<Longrightarrow> is_dash (ascii_lower c)"
  by (auto simp: is_dash_def ascii_lower_def)

lemma ascii_lower_dash [simp]: "ascii_lower (CHR ''-'') = CHR ''-''"
  by (simp add: ascii_lower_def)

lemma ascii_lower_idem [simp]: "ascii_lower (ascii_lower c) = ascii_lower c"
  by (cases c) (simp add: ascii_lower_def)

lemma byte_less: "unat (b :: byte) < 256"
  using unsigned_less[of b] by simp

lemma nibbles: "unat (b :: byte) div 16 < 16" "unat b mod 16 < 16"
  using byte_less[of b] by auto

lemma high_nibble: "unat (b :: byte) div 16 = unat (drop_bit 4 b)"
  by (simp add: drop_bit_eq_div unat_div)

lemma version_nibble: "unat (((b :: byte) AND 0x0f) OR 0x40) div 16 = 4"
proof -
  have "drop_bit 4 ((b AND 0x0f) OR 0x40) = (4 :: byte)"
    by (simp add: drop_bit_and drop_bit_or)
  then show ?thesis by (simp add: high_nibble)
qed

lemma variant_nibble:
  "unat (((b :: byte) AND 0x3f) OR 0x80) div 16 \<in> {8, 9, 10, 11}"
proof -
  have "drop_bit 4 ((b AND 0x3f) OR 0x80) = (drop_bit 4 b AND 3) OR (8 :: byte)"
    by (simp add: drop_bit_and drop_bit_or)
  moreover have "drop_bit 4 b AND 3 \<in> {0, 1, 2, 3 :: byte}"
  proof -
    have "drop_bit 4 b AND 3 \<le> (3 :: byte)" by (rule word_and_le1)
    then have "unat (drop_bit 4 b AND 3) \<le> 3" by (simp add: word_le_nat_alt)
    then have "unat (drop_bit 4 b AND 3) \<in> {0, 1, 2, 3}" by auto
    then show ?thesis by (auto simp: word_unat_eq_iff)
  qed
  ultimately show ?thesis by (auto simp: high_nibble)
qed

text \<open>The two patterns written out, character class by character class.\<close>

lemma uuid_pattern_list:
  "uuid_pattern =
     [is_hex, is_hex, is_hex, is_hex, is_hex, is_hex, is_hex, is_hex, is_dash,
      is_hex, is_hex, is_hex, is_hex, is_dash,
      \<lambda>c. c \<in> set ''12345678'', is_hex, is_hex, is_hex, is_dash,
      \<lambda>c. c \<in> set ''89abAB'', is_hex, is_hex, is_hex, is_dash,
      is_hex, is_hex, is_hex, is_hex, is_hex, is_hex, is_hex, is_hex, is_hex, is_hex, is_hex, is_hex]"
  by (simp add: uuid_pattern_def numeral_eq_Suc)

lemma key_pattern_list:
  "key_pattern =
     [is_hex, is_hex, is_hex, is_hex, is_hex, is_hex, is_hex, is_hex, is_dash,
      is_hex, is_hex, is_hex, is_hex, is_dash, is_hex, is_hex, is_hex, is_hex, is_dash,
      is_hex, is_hex, is_hex, is_hex, is_dash,
      is_hex, is_hex, is_hex, is_hex, is_hex, is_hex, is_hex, is_hex, is_hex, is_hex, is_hex, is_hex]"
  by (simp add: key_pattern_def numeral_eq_Suc)

lemma dash_is_dash [simp]: "is_dash (CHR ''-'')"
  by (simp add: is_dash_def)

lemma format_uuid_key: "uuid_key (format_uuid v) = Some (format_uuid v)"
proof -
  have "uuid_key (hex_of [b0, b1, b2, b3] @ ''-'' @ hex_of [b4, b5] @ ''-'' @ hex_of [b6, b7] @
      ''-'' @ hex_of [b8, b9] @ ''-'' @ hex_of [b10, b11, b12, b13, b14, b15]) =
    Some (hex_of [b0, b1, b2, b3] @ ''-'' @ hex_of [b4, b5] @ ''-'' @ hex_of [b6, b7] @
      ''-'' @ hex_of [b8, b9] @ ''-'' @ hex_of [b10, b11, b12, b13, b14, b15])"
    for b0 b1 b2 b3 b4 b5 b6 b7 b8 b9 b10 b11 b12 b13 b14 b15
    by (simp add: uuid_key_def hex_of_def hex_byte_def key_pattern_list is_hex_digit nibbles
        ascii_lower_digit)
  then show ?thesis by (simp only: format_uuid_def Let_def)
qed

lemma as_uuid_format [simp]: "as_uuid (format_uuid v) = Inr (format_uuid v)"
  by (simp add: as_uuid_def format_uuid_key)

lemma as_uuid_Inr [err_simps]: "as_uuid s = Inr k \<longleftrightarrow> uuid_key s = Some k"
  by (auto simp: as_uuid_def split: option.splits)

lemma key_pattern_lower:
  assumes "list_all2 (\<lambda>p c. p c) key_pattern s"
  shows "list_all2 (\<lambda>p c. p c) key_pattern (map ascii_lower s)"
proof -
  have "\<forall>p \<in> set key_pattern. \<forall>c. p c \<longrightarrow> p (ascii_lower c)"
    by (auto simp: key_pattern_def is_hex_lower is_dash_lower)
  then have "(key_pattern ! i) (ascii_lower c)"
    if "i < length key_pattern" "(key_pattern ! i) c" for i c
    using that nth_mem by blast
  with assms show ?thesis
    by (simp add: list_all2_conv_all_nth)
qed

lemma uuid_key_idem: "uuid_key s = Some k \<Longrightarrow> uuid_key k = Some k"
  by (auto simp: uuid_key_def key_pattern_lower comp_def split: if_splits)

lemma IsUUID_has_key: "IsUUID s \<Longrightarrow> \<exists>k. uuid_key s = Some k"
proof -
  assume "IsUUID s"
  moreover have "list_all2 (\<lambda>p q. \<forall>c. p c \<longrightarrow> q c) uuid_pattern key_pattern"
    by (auto simp: uuid_pattern_list key_pattern_list is_hex_def)
  ultimately have "list_all2 (\<lambda>p c. p c) key_pattern s"
    by (auto simp: IsUUID_def list_all2_conv_all_nth)
  then show ?thesis by (simp add: uuid_key_def)
qed

section \<open>Properties\<close>

text \<open>
  A generated UUID is recognised: whatever 16 bytes the random source fills, the text that
  \<open>NewUUID\<close> returns matches \<open>IsUUID\<close>, is 36 characters long and has version digit 4.
\<close>

lemma NewUUID_is_UUID:
  "IsUUID (format_uuid v) \<and> length (format_uuid v) = 36 \<and> format_uuid v ! 14 = CHR ''4''"
proof -
  have ver: "hex_digit (unat ((v 6 AND 0x0f) OR 0x40) div 16) = CHR ''4''"
    by (simp only: version_nibble) (simp add: hex_digit_def)
  have var: "hex_digit (unat ((v 8 AND 0x3f) OR 0x80) div 16) \<in> set ''89abAB''"
    using variant_nibble[of "v 8"] by (auto simp: hex_digit_def)
  have "IsUUID u \<and> length u = 36 \<and> u ! 14 = CHR ''4''"
    if "hex_digit (unat b6 div 16) = CHR ''4''" "hex_digit (unat b8 div 16) \<in> set ''89abAB''"
      "u = hex_of [b0, b1, b2, b3] @ ''-'' @ hex_of [b4, b5] @ ''-'' @ hex_of [b6, b7] @
        ''-'' @ hex_of [b8, b9] @ ''-'' @ hex_of [b10, b11, b12, b13, b14, b15]"
    for u b0 b1 b2 b3 b4 b5 b6 b7 b8 b9 b10 b11 b12 b13 b14 b15
    using that
    by (simp add: IsUUID_def hex_of_def hex_byte_def uuid_pattern_list is_hex_digit nibbles
        nth_Cons_numeral)
  from this[OF _ _ refl, of "stamp v 6" "stamp v 8"] ver var show ?thesis
    by (simp add: format_uuid_def Let_def stamp_def)
qed

end
