(* ===== verification/Sql.thy ===== *)
theory Sql
  imports Ids
begin

text \<open>
  What the services use of their surroundings, and the reading of the SQL statements they
  send. An \<open>env\<close> fixes the outcome of everything one operation does not decide itself: which
  driver, socket or encoder calls fail, how a \<open>COMMIT\<close> ends, the clock, and the bytes of the
  random source. Every call is named by a label, so an arbitrary \<open>env\<close> is an arbitrary
  pattern of failures, and every error return of the source is a branch of the model.

  PostgreSQL tables are lists of rows (Prelude); a statement that names a row by a \<open>uuid\<close>
  parameter casts the parameter first (\<open>as_uuid\<close>), fails on a violated \<open>CHECK\<close> or key
  constraint of db/postgres/migrations, and leaves its effect in the transaction. A
  transaction is atomic (\<open>with_tx\<close>): the deferred \<open>Rollback\<close> discards the effects of a body
  that returns an error or does not commit. \<open>CommitLost\<close> is the case where the server
  commits and the client only sees an error.
\<close>

datatype commit_outcome = CommitOk | CommitAborted | CommitLost

record env =
  fails :: "string \<Rightarrow> bool"
  commit_of :: commit_outcome
  clock :: "string \<Rightarrow> time"
  rand :: "string \<Rightarrow> nat \<Rightarrow> byte"

definition quiet_env :: env where
  "quiet_env =
     \<lparr>fails = (\<lambda>_. False), commit_of = CommitOk, clock = (\<lambda>_. 0), rand = (\<lambda>_ _. 0)\<rparr>"

text \<open>A call that returns nothing but an error.\<close>

definition io :: "env \<Rightarrow> string \<Rightarrow> go_error + unit" where
  "io e lbl = (if fails e lbl then Inl CallFailed else Inr ())"

lemma io_Inr [err_simps]: "io e lbl = Inr u \<longleftrightarrow> \<not> fails e lbl"
  by (simp add: io_def)

lemma io_quiet [simp]: "\<not> fails e lbl \<Longrightarrow> io e lbl = Inr ()"
  by (simp add: io_def)

text \<open>\<open>id.NewUUID\<close> (pkg/platform/id/id.go).\<close>

definition NewUUID :: "env \<Rightarrow> string \<Rightarrow> go_error + string" where
  "NewUUID e lbl =
     andthen (wrap ''generate UUID'' (io e (''rand '' @ lbl))) (\<lambda>_. Inr (format_uuid (rand e lbl)))"

lemma NewUUID_Inr [err_simps]:
  "NewUUID e lbl = Inr u \<longleftrightarrow> \<not> fails e (''rand '' @ lbl) \<and> u = format_uuid (rand e lbl)"
  by (auto simp: NewUUID_def err_simps)

section \<open>Transactions\<close>

text \<open>
  What a transaction body hands back when it returns no error: \<open>return tx.Commit(ctx)\<close> (or a
  commit followed by more code), or a return that leaves the deferred rollback to run.
\<close>

datatype 'a verdict = Commit 'a | Abandon 'a

definition with_tx ::
  "env \<Rightarrow> (go_error \<Rightarrow> go_error) \<Rightarrow> (go_error \<Rightarrow> go_error) \<Rightarrow>
   ('s \<Rightarrow> go_error + 'a verdict \<times> 's) \<Rightarrow> 's \<Rightarrow> (go_error + 'a verdict) \<times> 's" where
  "with_tx e begin_err commit_err body s =
     (if fails e ''begin'' then (Inl (begin_err CallFailed), s)
      else case body s of
        Inl err \<Rightarrow> (Inl err, s)
      | Inr (Abandon a, _) \<Rightarrow> (Inr (Abandon a), s)
      | Inr (Commit a, s') \<Rightarrow>
          (case commit_of e of
             CommitOk \<Rightarrow> (Inr (Commit a), s')
           | CommitAborted \<Rightarrow> (Inl (commit_err CallFailed), s)
           | CommitLost \<Rightarrow> (Inl (commit_err CallFailed), s')))"

text \<open>The state after a transaction is the state before it, or the one a committing body left.\<close>

lemma with_tx_cases:
  assumes "with_tx e b c body s = (r, s')"
  obtains (unchanged) "s' = s" | (committed) a where "body s = Inr (Commit a, s')"
  using assms
  by (auto simp: with_tx_def split: if_splits sum.splits verdict.splits commit_outcome.splits)

lemma with_tx_Commit [err_simps]:
  "with_tx e b c body s = (Inr (Commit a), s') \<longleftrightarrow>
     \<not> fails e ''begin'' \<and> commit_of e = CommitOk \<and> body s = Inr (Commit a, s')"
  by (auto simp: with_tx_def split: if_splits sum.splits verdict.splits commit_outcome.splits)

lemma with_tx_Abandon [err_simps]:
  "with_tx e b c body s = (Inr (Abandon a), s') \<longleftrightarrow>
     \<not> fails e ''begin'' \<and> s' = s \<and> (\<exists>t. body s = Inr (Abandon a, t))"
  by (auto simp: with_tx_def split: if_splits sum.splits verdict.splits commit_outcome.splits)

lemma with_tx_invariant:
  assumes "with_tx e b c body s = (r, s')" and "I s"
    and "\<And>a t. body s = Inr (Commit a, t) \<Longrightarrow> I t"
  shows "I s'"
  using assms by (auto elim!: with_tx_cases)

lemma with_tx_error:
  assumes "with_tx e b c body s = (Inl err, s')" and "commit_of e \<noteq> CommitLost"
  shows "s' = s"
  using assms
  by (auto simp: with_tx_def split: if_splits sum.splits verdict.splits commit_outcome.splits)

section \<open>Statements\<close>

text \<open>A \<open>timestamptz\<close> column keeps microseconds; a Go time is cut to them when it is sent.\<close>

definition pg_time :: "time \<Rightarrow> time" where
  "pg_time t = t - t mod 1000"

lemma pg_time_idem [simp]: "pg_time (pg_time t) = pg_time t"
  by (simp add: pg_time_def mod_simps minus_mod_eq_mult_div)

text \<open>\<open>integer\<close> columns and parameters hold 32-bit values; anything else is an error.\<close>

definition int4 :: "int \<Rightarrow> go_error + int" where
  "int4 x = (if - (2 ^ 31) \<le> x \<and> x < 2 ^ 31 then Inr x else Inl CallFailed)"

lemma int4_Inr [err_simps]: "int4 x = Inr y \<longleftrightarrow> y = x \<and> - (2 ^ 31) \<le> x \<and> x < 2 ^ 31"
  by (auto simp: int4_def)

text \<open>\<open>QueryRow ... WHERE k = $1\<close> followed by \<open>Scan\<close>.\<close>

definition query_row ::
  "env \<Rightarrow> string \<Rightarrow> ('r \<Rightarrow> string) \<Rightarrow> string \<Rightarrow> 'r list \<Rightarrow> go_error + 'r" where
  "query_row e lbl key arg rows =
     andthen (io e lbl) (\<lambda>_.
     andthen (as_uuid arg) (\<lambda>k.
       (case row_find key k rows of None \<Rightarrow> Inl NoRows | Some r \<Rightarrow> Inr r)))"

lemma query_row_Inr [err_simps]:
  "query_row e lbl key arg rows = Inr r \<longleftrightarrow>
     \<not> fails e lbl \<and> (\<exists>k. uuid_key arg = Some k \<and> row_find key k rows = Some r)"
  by (auto simp: query_row_def err_simps split: option.splits)

lemma query_row_NoRows:
  "query_row e lbl key arg rows = Inl NoRows \<longleftrightarrow>
     \<not> fails e lbl \<and> (\<exists>k. uuid_key arg = Some k \<and> row_find key k rows = None)"
  by (auto simp: query_row_def io_def as_uuid_def err_simps split: option.splits if_splits)

text \<open>
  \<open>Exec UPDATE ... SET ... WHERE k = $1\<close>: \<open>check\<close> is the conjunction of the \<open>CHECK\<close>
  constraints on the columns that are set.
\<close>

definition exec_update ::
  "env \<Rightarrow> string \<Rightarrow> ('r \<Rightarrow> string) \<Rightarrow> string \<Rightarrow> ('r \<Rightarrow> bool) \<Rightarrow> ('r \<Rightarrow> 'r) \<Rightarrow> 'r list \<Rightarrow>
   go_error + 'r list" where
  "exec_update e lbl key arg check f rows =
     andthen (io e lbl) (\<lambda>_.
     andthen (as_uuid arg) (\<lambda>k.
       if list_all (\<lambda>r. key r = k \<longrightarrow> check (f r)) rows then Inr (row_update key k f rows)
       else Inl CallFailed))"

lemma exec_update_Inr [err_simps]:
  "exec_update e lbl key arg check f rows = Inr rows' \<longleftrightarrow>
     \<not> fails e lbl \<and> (\<exists>k. uuid_key arg = Some k \<and> rows' = row_update key k f rows \<and>
       (\<forall>r \<in> set rows. key r = k \<longrightarrow> check (f r)))"
  by (auto simp: exec_update_def err_simps list_all_iff split: if_splits)

text \<open>\<open>Exec INSERT\<close>: fails on a duplicate key or a violated \<open>CHECK\<close>.\<close>

definition exec_insert ::
  "env \<Rightarrow> string \<Rightarrow> ('r \<Rightarrow> 'k) \<Rightarrow> ('r \<Rightarrow> bool) \<Rightarrow> 'r \<Rightarrow> 'r list \<Rightarrow> go_error + 'r list" where
  "exec_insert e lbl key check r rows =
     andthen (io e lbl) (\<lambda>_. if check r then row_insert key r rows else Inl CallFailed)"

lemma exec_insert_Inr [err_simps]:
  "exec_insert e lbl key check r rows = Inr rows' \<longleftrightarrow>
     \<not> fails e lbl \<and> check r \<and> row_find key (key r) rows = None \<and> rows' = rows @ [r]"
  by (auto simp: exec_insert_def err_simps)

text \<open>
  \<open>INSERT INTO processed_events (event_id) VALUES ($1) ON CONFLICT DO NOTHING\<close>: the table of
  event ids a consumer has handled, and whether a row was inserted (\<open>RowsAffected\<close>).
\<close>

definition mark_processed :: "env \<Rightarrow> string \<Rightarrow> string list \<Rightarrow> go_error + bool \<times> string list" where
  "mark_processed e eventID seen =
     andthen (io e ''mark processed'') (\<lambda>_.
     andthen (as_uuid eventID) (\<lambda>k.
       if k \<in> set seen then Inr (False, seen) else Inr (True, seen @ [k])))"

lemma mark_processed_Inr [err_simps]:
  "mark_processed e eventID seen = Inr (b, seen') \<longleftrightarrow>
     \<not> fails e ''mark processed'' \<and> (\<exists>k. uuid_key eventID = Some k \<and>
       (if k \<in> set seen then \<not> b \<and> seen' = seen else b \<and> seen' = seen @ [k]))"
  by (auto simp: mark_processed_def err_simps split: if_splits)

end
