(* ===== verification/Events.thy ===== *)
theory Events
  imports Sql Complex_Main
begin

text \<open>
  JSON values as the services exchange them, \<open>encoding/json\<close> decoding into struct fields, and
  the event envelope of pkg/platform/events/envelope.go. A Kafka record or \<open>jsonb\<close> value is a
  \<open>json option\<close>, \<open>None\<close> for bytes that are not JSON. Timestamps, which Go marshals as RFC 3339
  strings, have a constructor of their own (\<open>JTime\<close>), and \<open>float64\<close> values are real numbers.
\<close>

datatype json =
    JNull
  | JBool bool
  | JInt int
  | JFloat real
  | JStr string
  | JTime time
  | JArr "json list"
  | JObj "(string \<times> json) list"

type_synonym fields = "(string \<times> json) list"

text \<open>A decoder of one JSON value into a Go type; \<open>None\<close> is an \<open>UnmarshalTypeError\<close>.\<close>

fun to_string :: "json \<Rightarrow> string option" where
  "to_string (JStr s) = Some s"
| "to_string _ = None"

fun to_int :: "json \<Rightarrow> int option" where
  "to_int (JInt i) = (if - (2 ^ 63) \<le> i \<and> i < 2 ^ 63 then Some i else None)"
| "to_int _ = None"

fun to_float :: "json \<Rightarrow> real option" where
  "to_float (JFloat r) = Some r"
| "to_float (JInt i) = Some (of_int i)"
| "to_float _ = None"

fun to_time :: "json \<Rightarrow> time option" where
  "to_time (JTime t) = Some t"
| "to_time _ = None"

text \<open>
  Decoding one field of a struct: keys match without regard to case, \<open>null\<close> leaves the field
  as it is, later occurrences overwrite earlier ones, and a missing key leaves the zero value.
  (For a pointer or slice field \<open>null\<close> is the zero value; the difference only shows in objects
  that repeat a key.)
\<close>

definition same_key :: "string \<Rightarrow> string \<Rightarrow> bool" where
  "same_key a b \<longleftrightarrow> map ascii_lower a = map ascii_lower b"

fun field :: "(json \<Rightarrow> 'a option) \<Rightarrow> string \<Rightarrow> 'a \<Rightarrow> fields \<Rightarrow> go_error + 'a" where
  "field conv name z [] = Inr z"
| "field conv name z ((k, v) # kvs) =
     (if same_key k name then
        (if v = JNull then field conv name z kvs
         else case conv v of
           None \<Rightarrow> Inl (Failed ''json: cannot unmarshal'')
         | Some x \<Rightarrow> field conv name x kvs)
      else field conv name z kvs)"

text \<open>A \<open>json.RawMessage\<close> field keeps whatever value is there, \<open>null\<close> included.\<close>

fun raw_field :: "string \<Rightarrow> json option \<Rightarrow> fields \<Rightarrow> json option" where
  "raw_field name z [] = z"
| "raw_field name z ((k, v) # kvs) =
     raw_field name (if same_key k name then Some v else z) kvs"

text \<open>\<open>json.Unmarshal\<close> of some bytes into a struct: the fields found, or an error.\<close>

fun struct_fields :: "json option \<Rightarrow> go_error + fields" where
  "struct_fields None = Inl (Failed ''json: syntax error'')"
| "struct_fields (Some JNull) = Inr []"
| "struct_fields (Some (JObj kvs)) = Inr kvs"
| "struct_fields (Some _) = Inl (Failed ''json: cannot unmarshal'')"

section \<open>Envelopes\<close>

text \<open>What an operation's \<open>context.Context\<close> carries: the correlation id and a valid span.\<close>

record ctx =
  ctx_correlation :: string
  ctx_span :: "(string \<times> string) option"

record envelope =
  EventID :: string
  EventType :: string
  EventVersion :: int
  OccurredAt :: time
  Producer :: string
  CorrelationID :: string
  TraceID :: string
  SpanID :: string
  AggregateID :: string
  Payload :: "json option"

definition New :: "env \<Rightarrow> ctx \<Rightarrow> string \<Rightarrow> string \<Rightarrow> string \<Rightarrow> json \<Rightarrow> go_error + envelope" where
  "New e c eventType producer aggregateID payload =
     andthen (NewUUID e eventType) (\<lambda>eventID.
     andthen (wrap ''marshal event payload'' (io e (''marshal '' @ eventType))) (\<lambda>_.
       Inr \<lparr>EventID = eventID, EventType = eventType, EventVersion = 1,
            OccurredAt = clock e eventType, Producer = producer, CorrelationID = ctx_correlation c,
            TraceID = (case ctx_span c of None \<Rightarrow> [] | Some (t, s) \<Rightarrow> t),
            SpanID = (case ctx_span c of None \<Rightarrow> [] | Some (t, s) \<Rightarrow> s),
            AggregateID = aggregateID, Payload = Some payload\<rparr>))"

definition omit_empty :: "string \<Rightarrow> string \<Rightarrow> fields" where
  "omit_empty name s = (if s = [] then [] else [(name, JStr s)])"

definition Marshal :: "envelope \<Rightarrow> json" where
  "Marshal v = JObj
     ([(''event_id'', JStr (EventID v)), (''event_type'', JStr (EventType v)),
       (''event_version'', JInt (EventVersion v)), (''occurred_at'', JTime (OccurredAt v)),
       (''producer'', JStr (Producer v))] @
      omit_empty ''correlation_id'' (CorrelationID v) @ omit_empty ''trace_id'' (TraceID v) @
      omit_empty ''span_id'' (SpanID v) @
      [(''aggregate_id'', JStr (AggregateID v)),
       (''payload'', case Payload v of None \<Rightarrow> JNull | Some p \<Rightarrow> p)])"

definition Unmarshal :: "json option \<Rightarrow> go_error + envelope" where
  "Unmarshal bytes =
     andthen (struct_fields bytes) (\<lambda>kvs.
     andthen (field to_string ''event_id'' [] kvs) (\<lambda>eid.
     andthen (field to_string ''event_type'' [] kvs) (\<lambda>typ.
     andthen (field to_int ''event_version'' 0 kvs) (\<lambda>ver.
     andthen (field to_time ''occurred_at'' zero_time kvs) (\<lambda>occ.
     andthen (field to_string ''producer'' [] kvs) (\<lambda>prd.
     andthen (field to_string ''correlation_id'' [] kvs) (\<lambda>cor.
     andthen (field to_string ''trace_id'' [] kvs) (\<lambda>tr.
     andthen (field to_string ''span_id'' [] kvs) (\<lambda>sp.
     andthen (field to_string ''aggregate_id'' [] kvs) (\<lambda>agg.
       Inr \<lparr>EventID = eid, EventType = typ, EventVersion = ver, OccurredAt = occ,
            Producer = prd, CorrelationID = cor, TraceID = tr, SpanID = sp,
            AggregateID = agg, Payload = raw_field ''payload'' None kvs\<rparr>))))))))))"

text \<open>\<open>httpx.WithCorrelationID\<close> followed by \<open>telemetry.StartConsumerSpan\<close>: a consumer works
  in the context of the envelope; the tracer hands out the span (\<open>None\<close> when tracing is off).\<close>

definition consumer_ctx :: "(string \<times> string) option \<Rightarrow> envelope \<Rightarrow> ctx" where
  "consumer_ctx tracer v = \<lparr>ctx_correlation = CorrelationID v, ctx_span = tracer\<rparr>"

section \<open>Lemmas\<close>

lemma field_append:
  "field conv name z (xs @ ys) = andthen (field conv name z xs) (\<lambda>x. field conv name x ys)"
  by (induction conv name z xs rule: field.induct) (auto split: option.splits)

lemma raw_field_append:
  "raw_field name z (xs @ ys) = raw_field name (raw_field name z xs) ys"
  by (induction xs arbitrary: z) auto

lemma same_key_refl [simp]: "same_key a a"
  by (simp add: same_key_def)

text \<open>The values of the Go types \<open>int\<close> and \<open>int64\<close>, which JSON numbers carry exactly.\<close>

definition int64 :: "int \<Rightarrow> bool" where
  "int64 x \<longleftrightarrow> - (2 ^ 63) \<le> x \<and> x < 2 ^ 63"

lemma to_int_int64 [simp]: "int64 x \<Longrightarrow> to_int (JInt x) = Some x"
  by (simp add: int64_def)

lemma int64_wrap [simp]: "int64 (wrap64 x)"
  using wrap64_bounds by (simp add: int64_def)

text \<open>Between lower-case names the comparison of keys is equality.\<close>

definition plain_key :: "string \<Rightarrow> bool" where
  "plain_key name \<longleftrightarrow> map ascii_lower name = name"

lemma same_key_plain: "plain_key a \<Longrightarrow> plain_key b \<Longrightarrow> same_key a b \<longleftrightarrow> a = b"
  by (simp add: same_key_def plain_key_def)

lemma field_other:
  "\<forall>k \<in> fst ` set kvs. \<not> same_key k name \<Longrightarrow> field conv name z kvs = Inr z"
  by (induction kvs) auto

lemma field_omit_empty [simp]:
  "field to_string name z (omit_empty k s) = (if same_key k name \<and> s \<noteq> [] then Inr s else Inr z)"
  by (simp add: omit_empty_def)

lemma field_omit_other [simp]:
  "\<not> same_key k name \<Longrightarrow> field conv name z (omit_empty k s) = Inr z"
  by (simp add: omit_empty_def)

lemma raw_field_omit_empty [simp]:
  "\<not> same_key k name \<Longrightarrow> raw_field name z (omit_empty k s) = z"
  by (simp add: omit_empty_def)

lemma New_Inr [err_simps]:
  "New e c typ prd agg payload = Inr v \<longleftrightarrow>
     \<not> fails e (''rand '' @ typ) \<and> \<not> fails e (''marshal '' @ typ) \<and>
     v = \<lparr>EventID = format_uuid (rand e typ), EventType = typ, EventVersion = 1,
          OccurredAt = clock e typ, Producer = prd, CorrelationID = ctx_correlation c,
          TraceID = (case ctx_span c of None \<Rightarrow> [] | Some (t, s) \<Rightarrow> t),
          SpanID = (case ctx_span c of None \<Rightarrow> [] | Some (t, s) \<Rightarrow> s),
          AggregateID = agg, Payload = Some payload\<rparr>"
  by (auto simp: New_def err_simps)

section \<open>Properties\<close>

text \<open>
  Envelope round trip: decoding the JSON of an envelope whose version is an \<open>int64\<close> and whose
  payload is present gives the envelope back.
\<close>

lemma envelope_roundtrip:
  assumes "- (2 ^ 63) \<le> EventVersion v" and "EventVersion v < 2 ^ 63"
  assumes "Payload v = Some p"
  shows "Unmarshal (Some (Marshal v)) = Inr v"
  using assms
  by (simp add: Unmarshal_def Marshal_def field_append raw_field_append same_key_def ascii_lower_def)

end
