(* ===== verification/Outbox.thy ===== *)
theory Outbox
  imports Events
begin

text \<open>
  The transactional outbox of pkg/platform/outbox/outbox.go: \<open>Insert\<close> records an event in the
  transaction that changes the domain state; \<open>publishBatch\<close> is one round of the relay, which
  sends the oldest unpublished rows to Kafka and marks them. Kafka is outside the source: the
  answer of \<open>ProduceSync\<close> to each record is a parameter (\<open>broker\<close>), and what the brokers hold
  is the log of appended records.
\<close>

definition validSchema :: "string \<Rightarrow> bool" where
  "validSchema s =
     (case s of [] \<Rightarrow> False
      | c # cs \<Rightarrow> c \<in> set ''abcdefghijklmnopqrstuvwxyz'' \<and>
          list_all (\<lambda>d. d \<in> set ''abcdefghijklmnopqrstuvwxyz0123456789_'') cs)"

record outbox_row =
  ob_event_id :: string
  ob_topic :: string
  ob_event_key :: string
  ob_event_type :: string
  ob_aggregate_id :: string
  ob_correlation_id :: string
  ob_trace_id :: string
  ob_envelope :: json
  ob_occurred_at :: time
  ob_attempts :: int
  ob_published_at :: "time option"
  ob_last_error :: "string option"

definition Insert ::
  "env \<Rightarrow> string \<Rightarrow> string \<Rightarrow> string \<Rightarrow> envelope \<Rightarrow> outbox_row list \<Rightarrow> go_error + outbox_row list" where
  "Insert e schema topic key v rows =
     (if \<not> validSchema schema then Inl (Failed ''invalid outbox schema'')
      else
        andthen (wrap ''marshal event envelope'' (io e (''marshal envelope '' @ EventType v))) (\<lambda>_.
        wrap ''insert outbox event''
          (andthen (as_uuid (EventID v)) (\<lambda>eid.
           andthen (as_uuid (AggregateID v)) (\<lambda>agg.
             exec_insert e (''insert outbox '' @ EventType v) ob_event_id (\<lambda>_. True)
               \<lparr>ob_event_id = eid, ob_topic = topic, ob_event_key = key,
                ob_event_type = EventType v, ob_aggregate_id = agg,
                ob_correlation_id = CorrelationID v, ob_trace_id = TraceID v,
                ob_envelope = Marshal v, ob_occurred_at = pg_time (OccurredAt v), ob_attempts = 0,
                ob_published_at = None, ob_last_error = None\<rparr> rows)))))"

text \<open>The row \<open>Insert\<close> appends, and the way every service emits an event of its own.\<close>

definition outbox_entry :: "string \<Rightarrow> string \<Rightarrow> string \<Rightarrow> envelope \<Rightarrow> outbox_row" where
  "outbox_entry topic key agg v =
     \<lparr>ob_event_id = EventID v, ob_topic = topic, ob_event_key = key,
      ob_event_type = EventType v, ob_aggregate_id = agg,
      ob_correlation_id = CorrelationID v, ob_trace_id = TraceID v,
      ob_envelope = Marshal v, ob_occurred_at = pg_time (OccurredAt v), ob_attempts = 0,
      ob_published_at = None, ob_last_error = None\<rparr>"

lemma Insert_New_Inr:
  assumes "New e c typ prd agg payload = Inr v"
  shows "Insert e schema topic key v rows = Inr rows' \<longleftrightarrow>
     validSchema schema \<and> \<not> fails e (''marshal envelope '' @ typ) \<and>
     \<not> fails e (''insert outbox '' @ typ) \<and> row_find ob_event_id (EventID v) rows = None \<and>
     (\<exists>k. uuid_key agg = Some k \<and> rows' = rows @ [outbox_entry topic key k v])"
  using assms by (auto simp: Insert_def outbox_entry_def err_simps format_uuid_key)

lemma Insert_Inr:
  "Insert e schema topic key v rows = Inr rows' \<Longrightarrow>
     \<exists>row. rows' = rows @ [row] \<and> ob_event_type row = EventType v \<and> ob_topic row = topic \<and>
       ob_event_key row = key \<and> ob_envelope row = Marshal v \<and> ob_published_at row = None \<and>
       ob_event_id row \<notin> ob_event_id ` set rows"
  by (auto simp: Insert_def err_simps row_find_None_iff split: if_splits)

text \<open>What a row announces on a topic: an event of a type about an aggregate, with its payload.\<close>

definition announces :: "string \<Rightarrow> outbox_row \<Rightarrow> string \<Rightarrow> string \<Rightarrow> json \<Rightarrow> bool" where
  "announces topic r ty k p \<longleftrightarrow> ob_topic r = topic \<and> ob_event_type r = ty \<and> ob_aggregate_id r = k \<and>
     (\<exists>v. Unmarshal (Some (ob_envelope r)) = Inr v \<and> EventType v = ty \<and> uuid_key (AggregateID v) = Some k \<and>
       Payload v = Some p)"

lemma announcesD: "announces topic r ty k p \<Longrightarrow> ob_event_type r = ty \<and> ob_aggregate_id r = k"
  by (simp add: announces_def)

lemma Insert_New_announces:
  assumes "New e c ty prd agg p = Inr v" and "Insert e schema topic key v rows = Inr rows'"
  shows "\<exists>k ev. uuid_key agg = Some k \<and> rows' = rows @ [ev] \<and> announces topic ev ty k p"
proof -
  have v: "EventType v = ty" "AggregateID v = agg" "Payload v = Some p" "EventVersion v = 1"
    using assms(1) by (auto simp: New_Inr)
  then have "Unmarshal (Some (Marshal v)) = Inr v" by (intro envelope_roundtrip) simp_all
  then show ?thesis
    using assms(2) v unfolding Insert_New_Inr[OF assms(1)]
    by (auto simp: outbox_entry_def announces_def intro!: exI[of _ v])
qed

section \<open>The relay\<close>

type_synonym headers = "(string \<times> string) list"

record kafka_record =
  kr_topic :: string
  kr_key :: string
  kr_value :: "json option"
  kr_headers :: headers

text \<open>
  \<open>ProduceSync\<close> appends the record and reports success, reports an error and appends nothing,
  or reports an error (a timeout, say) although the brokers appended the record.
\<close>

datatype produce_outcome = Produced | ProduceFailed | ProduceLost

text \<open>The bound on stored error texts; Go strings are byte sequences, cut at a byte.\<close>

definition truncate :: "string \<Rightarrow> nat \<Rightarrow> string" where
  "truncate value limit = (if length value \<le> limit then value else take limit value)"

definition batchSize :: nat where "batchSize = 50"

definition record_of :: "outbox_row \<Rightarrow> kafka_record" where
  "record_of item =
     (let h1 = [(''event_id'', ob_event_id item), (''event_type'', ob_event_type item),
                (''correlation_id'', ob_correlation_id item)];
          h2 = (if ob_trace_id item \<noteq> [] then [(''trace_id'', ob_trace_id item)] else []);
          h3 = (case Unmarshal (Some (ob_envelope item)) of
                  Inl _ \<Rightarrow> []
                | Inr v \<Rightarrow>
                    if length (TraceID v) = 32 \<and> length (SpanID v) = 16
                    then [(''span_id'', SpanID v),
                          (''traceparent'', ''00-'' @ TraceID v @ ''-'' @ SpanID v @ ''-01'')]
                    else [])
      in \<lparr>kr_topic = ob_topic item, kr_key = ob_event_key item,
          kr_value = Some (ob_envelope item), kr_headers = h1 @ h2 @ h3\<rparr>)"

text \<open>
  How the loop over a batch ends: every record sent and marked; a record was refused, so its
  attempt is counted and what was marked before it is committed; or a statement failed.
\<close>

datatype relay_end = Done | Refused go_error | Broken go_error

fun publish_records ::
  "env \<Rightarrow> (outbox_row \<Rightarrow> produce_outcome) \<Rightarrow> (outbox_row \<Rightarrow> string) \<Rightarrow> outbox_row list \<Rightarrow>
   outbox_row list \<Rightarrow> kafka_record list \<Rightarrow> relay_end \<times> outbox_row list \<times> kafka_record list" where
  "publish_records e broker err [] rows sent = (Done, rows, sent)"
| "publish_records e broker err (item # items) rows sent =
     (if broker item = Produced then
        (if fails e (''mark published '' @ ob_event_id item)
         then (Broken CallFailed, rows, sent @ [record_of item])
         else publish_records e broker err items
           (row_update ob_event_id (ob_event_id item)
              (\<lambda>r. r\<lparr>ob_published_at := Some (clock e ''published_at''),
                     ob_attempts := ob_attempts r + 1, ob_last_error := None\<rparr>) rows)
           (sent @ [record_of item]))
      else
        (let sent' = (if broker item = ProduceLost then sent @ [record_of item] else sent) in
         if fails e (''count attempt '' @ ob_event_id item)
         then (Broken (Wrapped ''publish error; commit attempt error'' CallFailed), rows, sent')
         else (Refused CallFailed,
           row_update ob_event_id (ob_event_id item)
             (\<lambda>r. r\<lparr>ob_attempts := ob_attempts r + 1,
                    ob_last_error := Some (truncate (err item) 1000)\<rparr>) rows,
           sent')))"

text \<open>
  The batch: unpublished rows that no other relay has locked (\<open>SKIP LOCKED\<close>), oldest first,
  at most \<open>batchSize\<close>.
\<close>

definition pending :: "(string \<Rightarrow> bool) \<Rightarrow> outbox_row list \<Rightarrow> outbox_row list" where
  "pending locked rows =
     take batchSize (sort_key ob_occurred_at
       (filter (\<lambda>r. ob_published_at r = None \<and> \<not> locked (ob_event_id r)) rows))"

definition publishBatch ::
  "env \<Rightarrow> (outbox_row \<Rightarrow> produce_outcome) \<Rightarrow> (outbox_row \<Rightarrow> string) \<Rightarrow> (string \<Rightarrow> bool) \<Rightarrow>
   outbox_row list \<Rightarrow> kafka_record list \<Rightarrow>
   (go_error + unit) \<times> outbox_row list \<times> kafka_record list" where
  "publishBatch e broker err locked rows sent =
     (if fails e ''begin'' \<or> fails e ''select pending'' then (Inl CallFailed, rows, sent)
      else case publish_records e broker err (pending locked rows) rows sent of
        (Broken x, _, sent') \<Rightarrow> (Inl x, rows, sent')
      | (Refused x, rows', sent') \<Rightarrow>
          (case commit_of e of
             CommitOk \<Rightarrow> (Inl x, rows', sent')
           | CommitAborted \<Rightarrow>
               (Inl (Wrapped ''publish error; commit attempt error'' CallFailed), rows, sent')
           | CommitLost \<Rightarrow>
               (Inl (Wrapped ''publish error; commit attempt error'' CallFailed), rows', sent'))
      | (Done, rows', sent') \<Rightarrow>
          (case commit_of e of
             CommitOk \<Rightarrow> (Inr (), rows', sent')
           | CommitAborted \<Rightarrow> (Inl CallFailed, rows, sent')
           | CommitLost \<Rightarrow> (Inl CallFailed, rows', sent')))"

section \<open>Lemmas\<close>

lemma record_of_update [simp]:
  "record_of (ob_published_at_update p r) = record_of r"
  "record_of (ob_attempts_update a r) = record_of r"
  "record_of (ob_last_error_update l r) = record_of r"
  by (simp_all add: record_of_def)

text \<open>Rows with one event id agree on everything the relay sends.\<close>

definition same_records :: "outbox_row list \<Rightarrow> outbox_row list \<Rightarrow> bool" where
  "same_records items rows \<longleftrightarrow>
     (\<forall>i \<in> set items. \<forall>r \<in> set rows. ob_event_id r = ob_event_id i \<longrightarrow> record_of r = record_of i)"

lemma same_records_subset:
  assumes "distinct (map ob_event_id rows)" and "set items \<subseteq> set rows"
  shows "same_records items rows"
proof -
  have "r = i" if "i \<in> set items" "r \<in> set rows" "ob_event_id r = ob_event_id i" for i r
    using key_unique[OF assms(1) that(2) _ that(3)] that(1) assms(2) by auto
  then show ?thesis by (auto simp: same_records_def)
qed

lemma same_records_update:
  assumes "same_records items rows"
    and "\<And>r. record_of (f r) = record_of r" "\<And>r. ob_event_id (f r) = ob_event_id r"
  shows "same_records items (row_update ob_event_id k f rows)"
  using assms by (auto simp: same_records_def set_row_update)

definition sent_if_published :: "outbox_row list \<Rightarrow> kafka_record list \<Rightarrow> bool" where
  "sent_if_published rows sent \<longleftrightarrow>
     (\<forall>r \<in> set rows. ob_published_at r \<noteq> None \<longrightarrow> record_of r \<in> set sent)"

lemma publish_records_safe:
  assumes "publish_records e broker err items rows sent = (x, rows', sent')"
    and "same_records items rows" and "sent_if_published rows sent"
  shows "sent_if_published rows' sent' \<and> set sent \<subseteq> set sent' \<and>
    map ob_event_id rows' = map ob_event_id rows"
  using assms
proof (induction e broker err items rows sent rule: publish_records.induct)
  case (1 e broker err rows sent)
  then show ?case by simp
next
  case (2 e broker err item items rows sent)
  let ?mark = "\<lambda>r. r\<lparr>ob_published_at := Some (clock e ''published_at''),
                     ob_attempts := ob_attempts r + 1, ob_last_error := None\<rparr>"
  let ?rows = "row_update ob_event_id (ob_event_id item) ?mark rows"
  show ?case
  proof (cases "broker item = Produced \<and> \<not> fails e (''mark published '' @ ob_event_id item)")
    case True
    have "same_records items ?rows"
      using "2.prems"(2) by (intro same_records_update) (auto simp: same_records_def)
    moreover have "sent_if_published ?rows (sent @ [record_of item])"
      using "2.prems"(2,3)
      by (auto simp: sent_if_published_def same_records_def set_row_update)
    moreover have "map ob_event_id ?rows = map ob_event_id rows"
      by (simp add: map_row_update)
    ultimately show ?thesis
      using "2.IH" "2.prems"(1) True by auto
  next
    case False
    then show ?thesis
      using "2.prems"
      by (auto simp: sent_if_published_def set_row_update map_row_update Let_def split: if_splits)
  qed
qed

lemma publish_records_prefix:
  assumes "publish_records e broker err items rows sent = (x, rows', sent')"
  shows "\<exists>n. sent' = sent @ map record_of (take n items)"
  using assms
proof (induction e broker err items rows sent rule: publish_records.induct)
  case (1 e broker err rows sent)
  then show ?case by simp
next
  case (2 e broker err item items rows sent)
  show ?case
  proof (cases "broker item = Produced \<and> \<not> fails e (''mark published '' @ ob_event_id item)")
    case True
    then obtain n where "sent' = (sent @ [record_of item]) @ map record_of (take n items)"
      using "2.IH" "2.prems" by auto
    then show ?thesis by (intro exI[of _ "Suc n"]) simp
  next
    case False
    then have "sent' = sent \<or> sent' = sent @ [record_of item]"
      using "2.prems" by (auto simp: Let_def split: if_splits)
    then show ?thesis
      by (auto intro: exI[of _ 0] exI[of _ "Suc 0"])
  qed
qed

lemma pending_subset: "set (pending locked rows) \<subseteq> set rows"
  using set_take_subset by (fastforce simp: pending_def)

lemma publishBatch_safe:
  assumes "publishBatch e broker err locked rows sent = (res, rows', sent')"
    and "distinct (map ob_event_id rows)" and "sent_if_published rows sent"
  shows "sent_if_published rows' sent' \<and> map ob_event_id rows' = map ob_event_id rows"
proof -
  obtain x rows1 sent1 where
    pub: "publish_records e broker err (pending locked rows) rows sent = (x, rows1, sent1)"
    by (cases "publish_records e broker err (pending locked rows) rows sent") auto
  have "sent_if_published rows1 sent1" "set sent \<subseteq> set sent1"
    "map ob_event_id rows1 = map ob_event_id rows"
    using publish_records_safe[OF pub same_records_subset[OF assms(2) pending_subset] assms(3)]
    by auto
  moreover have "sent_if_published rows sent1"
    using assms(3) \<open>set sent \<subseteq> set sent1\<close> by (auto simp: sent_if_published_def)
  ultimately show ?thesis
    using assms(1,3) pub
    by (auto simp: publishBatch_def split: if_splits relay_end.splits commit_outcome.splits)
qed

text \<open>A round in which nothing fails marks exactly the batch.\<close>

definition published_now :: "env \<Rightarrow> outbox_row \<Rightarrow> outbox_row" where
  "published_now e r =
     r\<lparr>ob_published_at := Some (clock e ''published_at''), ob_attempts := ob_attempts r + 1,
       ob_last_error := None\<rparr>"

lemma publish_records_all:
  assumes "\<And>l. \<not> fails e l" and "\<And>i. broker i = Produced" and "distinct (map ob_event_id items)"
  shows "publish_records e broker err items rows sent =
    (Done,
     map (\<lambda>r. if ob_event_id r \<in> ob_event_id ` set items then published_now e r else r) rows,
     sent @ map record_of items)"
  using assms(3)
proof (induction items arbitrary: rows sent)
  case Nil
  then show ?case by simp
next
  case (Cons i items)
  then show ?case
    by (auto simp: assms(1,2) row_update_def published_now_def comp_def)
qed

definition unpublished :: "outbox_row list \<Rightarrow> outbox_row list" where
  "unpublished rows = filter (\<lambda>r. ob_published_at r = None) rows"

lemma pending_unlocked:
  "pending (\<lambda>_. False) rows = take batchSize (sort_key ob_occurred_at (unpublished rows))"
  by (simp add: pending_def unpublished_def)

text \<open>Taking the first \<open>n\<close> of a list without repetitions leaves the others, also in the order of a sort.\<close>

lemma filter_not_in_take: "distinct xs \<Longrightarrow> filter (\<lambda>x. x \<notin> set (take n xs)) xs = drop n xs"
proof (induction xs arbitrary: n)
  case (Cons x xs)
  show ?case
  proof (cases n)
    case (Suc m)
    have "filter (\<lambda>y. y \<noteq> x \<and> y \<notin> set (take m xs)) xs = filter (\<lambda>y. y \<notin> set (take m xs)) xs"
      using Cons.prems by (intro filter_cong) auto
    then show ?thesis using Cons Suc by simp
  qed simp
qed simp

lemma sort_key_without_first:
  "distinct xs \<Longrightarrow> sort_key f (filter (\<lambda>x. x \<notin> set (take n (sort_key f xs))) xs) = drop n (sort_key f xs)"
  using filter_not_in_take[of "sort_key f xs" n] by (simp add: filter_sort)

text \<open>What rounds without failures do to a row: nothing, or they mark it, if it was waiting.\<close>

definition relayed :: "outbox_row \<Rightarrow> outbox_row \<Rightarrow> bool" where
  "relayed r r' \<longleftrightarrow> r' = r \<or> ob_published_at r = None \<and> (\<exists>e. r' = published_now e r)"

lemma relayed_trans: "list_all2 relayed xs ys \<Longrightarrow> list_all2 relayed ys zs \<Longrightarrow> list_all2 relayed xs zs"
  by (rule list_all2_trans) (auto simp: relayed_def published_now_def)

lemma relayed_ids: "list_all2 relayed rows rows' \<Longrightarrow> map ob_event_id rows' = map ob_event_id rows"
  by (induction rule: list_all2_induct) (auto simp: relayed_def published_now_def)

lemma unpublished_marked:
  "\<forall>r \<in> set rows. ob_event_id r \<in> ids \<longleftrightarrow> r \<in> batch \<Longrightarrow>
     unpublished (map (\<lambda>r. if ob_event_id r \<in> ids then published_now e r else r) rows) =
       filter (\<lambda>r. r \<notin> batch) (unpublished rows)"
  by (induction rows) (auto simp: unpublished_def published_now_def)

lemma publishBatch_healthy:
  assumes "\<And>l. \<not> fails e l" and "commit_of e = CommitOk" and "distinct (map ob_event_id rows)"
  shows "\<exists>rows'. publishBatch e (\<lambda>_. Produced) err (\<lambda>_. False) rows sent =
      (Inr (), rows', sent @ map record_of (take batchSize (sort_key ob_occurred_at (unpublished rows)))) \<and>
    list_all2 relayed rows rows' \<and>
    sort_key ob_occurred_at (unpublished rows') = drop batchSize (sort_key ob_occurred_at (unpublished rows))"
proof -
  let ?batch = "pending (\<lambda>_. False) rows"
  let ?rows' = "map (\<lambda>r. if ob_event_id r \<in> ob_event_id ` set ?batch then published_now e r else r) rows"
  have "distinct rows" using assms(3) by (auto simp: distinct_map)
  then have u: "distinct (unpublished rows)" by (simp add: unpublished_def)
  then have d: "distinct ?batch" by (simp add: pending_unlocked distinct_take)
  have sub: "set ?batch \<subseteq> set (unpublished rows)"
    using set_take_subset by (fastforce simp: pending_unlocked)
  have "inj_on ob_event_id (set ?batch)"
    using assms(3) pending_subset by (auto simp: inj_on_def dest: key_unique subsetD)
  with d have "distinct (map ob_event_id ?batch)" by (simp add: distinct_map)
  then have run: "publishBatch e (\<lambda>_. Produced) err (\<lambda>_. False) rows sent =
      (Inr (), ?rows', sent @ map record_of ?batch)"
    using assms(1,2) by (simp add: publishBatch_def publish_records_all)
  have member: "ob_event_id r \<in> ob_event_id ` set ?batch \<longleftrightarrow> r \<in> set ?batch" if "r \<in> set rows" for r
    using that assms(3) pending_subset by (auto dest: key_unique subsetD)
  have "list_all2 relayed rows ?rows'"
    using member sub by (auto simp: list_all2_conv_all_nth relayed_def unpublished_def)
  moreover have "unpublished ?rows' = filter (\<lambda>r. r \<notin> set ?batch) (unpublished rows)"
    using member by (intro unpublished_marked) blast
  ultimately show ?thesis using run sort_key_without_first[OF u] by (auto simp: pending_unlocked)
qed

section \<open>Histories of an outbox\<close>

text \<open>
  The outboxes and logs that arise when services insert events and relays run rounds, with any
  failures, broker answers and locks in between.
\<close>

inductive relay_reach :: "outbox_row list \<Rightarrow> kafka_record list \<Rightarrow> bool" where
  empty: "relay_reach [] []"
| emit: "relay_reach rows sent \<Longrightarrow> Insert e schema topic key v rows = Inr rows' \<Longrightarrow>
    relay_reach rows' sent"
| round: "relay_reach rows sent \<Longrightarrow>
    publishBatch e broker err locked rows sent = (res, rows', sent') \<Longrightarrow>
    relay_reach rows' sent'"

lemma relay_reach_invariant:
  "relay_reach rows sent \<Longrightarrow> distinct (map ob_event_id rows) \<and> sent_if_published rows sent"
proof (induction rule: relay_reach.induct)
  case empty
  then show ?case by (simp add: sent_if_published_def)
next
  case (emit rows sent e schema topic key v rows')
  then show ?case
    using Insert_Inr[OF emit.hyps(2)] by (fastforce simp: sent_if_published_def)
next
  case (round rows sent e broker err locked res rows' sent')
  then show ?case
    using publishBatch_safe by metis
qed

section \<open>Properties\<close>

text \<open>
  C13 At-least-once publication: however inserts, relay rounds, refused or lost publications,
  failing statements and failing commits interleave, a row that is marked published has had its
  record appended to the Kafka log.
\<close>

theorem published_rows_were_sent:
  assumes "relay_reach rows sent" and "r \<in> set rows" and "ob_published_at r \<noteq> None"
  shows "record_of r \<in> set sent"
  using relay_reach_invariant[OF assms(1)] assms(2,3) by (simp add: sent_if_published_def)

definition sample_envelope :: envelope where
  "sample_envelope =
     \<lparr>EventID = format_uuid (\<lambda>_. 1), EventType = ''order.created'', EventVersion = 1,
      OccurredAt = 5, Producer = ''order-service'', CorrelationID = [], TraceID = [], SpanID = [],
      AggregateID = format_uuid (\<lambda>_. 2), Payload = Some (JObj [])\<rparr>"

theorem published_rows_were_sent_witness:
  "record_of (published_now quiet_env (outbox_entry ''t'' ''k'' (format_uuid (\<lambda>_. 2)) sample_envelope))
     \<in> set [record_of (outbox_entry ''t'' ''k'' (format_uuid (\<lambda>_. 2)) sample_envelope)]"
proof -
  let ?row = "outbox_entry ''t'' ''k'' (format_uuid (\<lambda>_. 2)) sample_envelope"
  have "Insert quiet_env ''orders'' ''t'' ''k'' sample_envelope [] = Inr [?row]"
    by (simp add: Insert_def validSchema_def sample_envelope_def outbox_entry_def exec_insert_def
        quiet_env_def row_insert_def)
  then have "relay_reach [?row] []"
    by (rule relay_reach.emit[OF relay_reach.empty])
  moreover have "publishBatch quiet_env (\<lambda>_. Produced) (\<lambda>_. []) (\<lambda>_. False) [?row] [] =
      (Inr (), [published_now quiet_env ?row], [record_of ?row])"
    by (simp add: publishBatch_def pending_def batchSize_def quiet_env_def published_now_def
        outbox_entry_def)
  ultimately have "relay_reach [published_now quiet_env ?row] [record_of ?row]"
    by (rule relay_reach.round)
  then show ?thesis
    by (rule published_rows_were_sent) (simp_all add: published_now_def)
qed

text \<open>
  C14 Publication order: a round appends, in this order, the records of an initial part of the
  batch, and the batch is sorted by the time the events occurred.
\<close>

theorem relay_publishes_in_order:
  "\<exists>n. snd (snd (publishBatch e broker err locked rows sent)) =
     sent @ map record_of (take n (pending locked rows)) \<and>
   sorted (map ob_occurred_at (pending locked rows))"
proof -
  have "sorted (map ob_occurred_at (pending locked rows))"
    by (simp add: pending_def sorted_wrt_take flip: take_map)
  moreover obtain x rows1 sent1 where
    pub: "publish_records e broker err (pending locked rows) rows sent = (x, rows1, sent1)"
    by (cases "publish_records e broker err (pending locked rows) rows sent") auto
  moreover from publish_records_prefix[OF pub] obtain n where
    "sent1 = sent @ map record_of (take n (pending locked rows))" by auto
  ultimately show ?thesis
    by (auto simp: publishBatch_def intro: exI[of _ 0]
        split: relay_end.splits commit_outcome.splits)
qed

text \<open>Rounds of one relay in a row, each in its environment, with a broker that answers.\<close>

fun relay_rounds ::
  "(outbox_row \<Rightarrow> string) \<Rightarrow> env list \<Rightarrow> outbox_row list \<Rightarrow> kafka_record list \<Rightarrow>
   (go_error + unit) list \<times> outbox_row list \<times> kafka_record list" where
  "relay_rounds err [] rows sent = ([], rows, sent)"
| "relay_rounds err (e # es) rows sent =
     (case publishBatch e (\<lambda>_. Produced) err (\<lambda>_. False) rows sent of
        (r, rows1, sent1) \<Rightarrow>
          (case relay_rounds err es rows1 sent1 of (rs, rows', sent') \<Rightarrow> (r # rs, rows', sent')))"

text \<open>
  C15 The outbox drains: when the database and the brokers answer and no other relay holds rows of an
  outbox (where no two share an event id, its primary key), every round succeeds, and rounds that have room for all waiting events, 50 each, append the record
  of every waiting event to the log, exactly once and in the order the events occurred, and append
  nothing else; every row is kept, a waiting one marked published with its attempt counted, the
  others as they were.
\<close>

theorem relay_drains_outbox:
  assumes "\<forall>e \<in> set es. (\<forall>l. \<not> fails e l) \<and> commit_of e = CommitOk"
    and "distinct (map ob_event_id rows)" and "length (unpublished rows) \<le> 50 * length es"
  shows "\<exists>rows'. relay_rounds err es rows sent = (replicate (length es) (Inr ()), rows',
      sent @ map record_of (sort_key ob_occurred_at (unpublished rows))) \<and>
    list_all2 (\<lambda>r r'. if ob_published_at r = None then \<exists>e. r' = published_now e r else r' = r) rows rows'"
proof -
  have "\<exists>rows'. relay_rounds err es rows sent = (replicate (length es) (Inr ()), rows',
        sent @ map record_of (sort_key ob_occurred_at (unpublished rows))) \<and>
      list_all2 relayed rows rows' \<and> unpublished rows' = []"
    using assms
  proof (induction es arbitrary: rows sent)
    case Nil
    then show ?case by (auto simp: relayed_def list_all2_same)
  next
    case (Cons e es)
    let ?q = "sort_key ob_occurred_at (unpublished rows)"
    obtain rows1 where r: "publishBatch e (\<lambda>_. Produced) err (\<lambda>_. False) rows sent =
          (Inr (), rows1, sent @ map record_of (take batchSize ?q))"
        "list_all2 relayed rows rows1" "sort_key ob_occurred_at (unpublished rows1) = drop batchSize ?q"
      using publishBatch_healthy[of e rows err sent] Cons.prems by auto
    have "length (unpublished rows1) = length ?q - batchSize" using r(3) by (metis length_drop length_sort)
    then have "length (unpublished rows1) \<le> 50 * length es" using Cons.prems(3) by (simp add: batchSize_def)
    then obtain rows' where "relay_rounds err es rows1 (sent @ map record_of (take batchSize ?q)) =
          (replicate (length es) (Inr ()), rows', (sent @ map record_of (take batchSize ?q)) @ map record_of (drop batchSize ?q))"
        "list_all2 relayed rows1 rows'" "unpublished rows' = []"
      using Cons.IH[of rows1 "sent @ map record_of (take batchSize ?q)"] Cons.prems relayed_ids[OF r(2)] r(3) by auto
    moreover have "map record_of (take batchSize ?q) @ map record_of (drop batchSize ?q) = map record_of ?q"
      by (metis append_take_drop_id map_append)
    ultimately show ?case using r relayed_trans by auto
  qed
  then obtain rows' where r: "relay_rounds err es rows sent = (replicate (length es) (Inr ()), rows',
      sent @ map record_of (sort_key ob_occurred_at (unpublished rows)))"
      "list_all2 relayed rows rows'" "unpublished rows' = []"
    by blast
  have "relayed x y \<Longrightarrow> y \<in> set rows' \<Longrightarrow>
      if ob_published_at x = None then \<exists>e. y = published_now e x else y = x" for x y
    using r(3) by (auto simp: relayed_def unpublished_def filter_empty_conv)
  then show ?thesis using r(1,2) by (auto simp: list_all2_conv_all_nth)
qed

theorem relay_drains_outbox_witness:
  "\<exists>rows'. relay_rounds (\<lambda>_. []) [quiet_env] [outbox_entry ''t'' ''k'' (format_uuid (\<lambda>_. 2)) sample_envelope] [] =
     ([Inr ()], rows', [record_of (outbox_entry ''t'' ''k'' (format_uuid (\<lambda>_. 2)) sample_envelope)]) \<and>
   length rows' = 1 \<and> ob_published_at (rows' ! 0) \<noteq> None"
proof -
  let ?row = "outbox_entry ''t'' ''k'' (format_uuid (\<lambda>_. 2)) sample_envelope"
  have u: "unpublished [?row] = [?row]" by (simp add: unpublished_def outbox_entry_def)
  have "\<exists>rows'. relay_rounds (\<lambda>_. []) [quiet_env] [?row] [] = (replicate (length [quiet_env]) (Inr ()), rows',
        [] @ map record_of (sort_key ob_occurred_at (unpublished [?row]))) \<and>
      list_all2 (\<lambda>r r'. if ob_published_at r = None then \<exists>e. r' = published_now e r else r' = r) [?row] rows'"
    by (rule relay_drains_outbox) (simp_all add: quiet_env_def u)
  then show ?thesis unfolding u
    by (auto simp: list_all2_Cons1 published_now_def outbox_entry_def)
qed

end
