(* ===== verification/Httpx.thy ===== *)
theory Httpx
  imports Events
begin

text \<open>
  The HTTP helpers of pkg/platform/httpx/httpx.go: API errors and their JSON, the strict
  decoding of request bodies, and the correlation id a request is served under. A body is its
  size and the sequence of JSON values it holds, each with the number of bytes up to its end
  (\<open>None\<close> where the text stops being JSON).
\<close>

record api_error =
  ae_status :: int
  ae_code :: string
  ae_message :: string
  ae_details :: "json option"

definition Error :: "int \<Rightarrow> string \<Rightarrow> string \<Rightarrow> json option \<Rightarrow> api_error" where
  "Error status code message details =
     \<lparr>ae_status = status, ae_code = code, ae_message = message, ae_details = details\<rparr>"

definition internalError :: api_error where
  "internalError = Error 500 ''internal_error'' ''internal server error'' None"

record http_body =
  bd_size :: int
  bd_values :: "(json option \<times> int) list"

text \<open>A reply: its status, its JSON body (\<open>None\<close> for none) and the headers a handler sets.\<close>

record reply =
  rp_status :: int
  rp_body :: "json option"
  rp_headers :: "(string \<times> string) list"

definition WriteJSON :: "int \<Rightarrow> json \<Rightarrow> reply" where
  "WriteJSON status value = \<lparr>rp_status = status, rp_body = Some value, rp_headers = []\<rparr>"

definition WriteError :: "string \<Rightarrow> api_error option \<Rightarrow> reply" where
  "WriteError correlationID apiErr =
     (let a = (case apiErr of None \<Rightarrow> internalError | Some a \<Rightarrow> a) in
      WriteJSON (ae_status a)
        (JObj [(''error'', JObj
          ([(''code'', JStr (ae_code a)), (''message'', JStr (ae_message a)),
            (''correlation_id'', JStr correlationID)] @
           (case ae_details a of None \<Rightarrow> [] | Some d \<Rightarrow> [(''details'', d)])))]))"

text \<open>
  \<open>DisallowUnknownFields\<close>: every key of the object must name a field of the struct.
\<close>

definition known_fields :: "string list \<Rightarrow> fields \<Rightarrow> bool" where
  "known_fields names kvs \<longleftrightarrow> list_all (\<lambda>(k, _). list_ex (\<lambda>n. same_key k n) names) kvs"

definition strict_fields :: "string list \<Rightarrow> json \<Rightarrow> go_error + fields" where
  "strict_fields names v =
     andthen (struct_fields (Some v)) (\<lambda>kvs.
       if known_fields names kvs then Inr kvs else Inl (Failed ''json: unknown field''))"

text \<open>
  \<open>DecodeJSON\<close>: \<open>dec\<close> decodes one JSON value into the destination type. At most \<open>1 << 20\<close> bytes
  of the body are read.
\<close>

definition DecodeJSON :: "(json \<Rightarrow> go_error + 'a) \<Rightarrow> http_body \<Rightarrow> api_error + 'a" where
  "DecodeJSON dec body =
     (case bd_values body of
        (Some v, n) # rest \<Rightarrow>
          (if n > 2 ^ 20
           then Inl (Error 400 ''invalid_json'' ''request body is not valid JSON'' None)
           else case dec v of
             Inl _ \<Rightarrow> Inl (Error 400 ''invalid_json'' ''request body is not valid JSON'' None)
           | Inr x \<Rightarrow>
               if rest \<noteq> [] \<or> bd_size body > 2 ^ 20
               then Inl (Error 400 ''invalid_json'' ''request body must contain one JSON value'' None)
               else Inr x)
      | _ \<Rightarrow> Inl (Error 400 ''invalid_json'' ''request body is not valid JSON'' None))"

text \<open>Decoding an array field: a \<open>null\<close> element is the zero value of the element type.\<close>

fun to_list :: "(json \<Rightarrow> 'a option) \<Rightarrow> 'a \<Rightarrow> json list \<Rightarrow> 'a list option" where
  "to_list conv z [] = Some []"
| "to_list conv z (v # vs) =
     (case (if v = JNull then Some z else conv v) of
        None \<Rightarrow> None
      | Some x \<Rightarrow> map_option (\<lambda>xs. x # xs) (to_list conv z vs))"

fun to_array :: "(json \<Rightarrow> 'a option) \<Rightarrow> 'a \<Rightarrow> json \<Rightarrow> 'a list option" where
  "to_array conv z (JArr vs) = to_list conv z vs"
| "to_array conv z _ = None"

definition ok :: "go_error + 'a \<Rightarrow> 'a option" where
  "ok m = (case m of Inl _ \<Rightarrow> None | Inr x \<Rightarrow> Some x)"

lemma ok_simps [simp]: "ok (Inl e) = None" "ok (Inr x) = Some x"
  by (simp_all add: ok_def)

lemma to_list_map:
  "(\<And>x. x \<in> set xs \<Longrightarrow> enc x \<noteq> JNull \<and> conv (enc x) = Some x) \<Longrightarrow> to_list conv z (map enc xs) = Some xs"
  by (induction xs) auto

section \<open>Correlation ids\<close>

definition safe_first :: "char \<Rightarrow> bool" where
  "safe_first c \<longleftrightarrow>
     c \<in> set ''ABCDEFGHIJKLMNOPQRSTUVWXYZabcdefghijklmnopqrstuvwxyz0123456789''"

definition safe_next :: "char \<Rightarrow> bool" where
  "safe_next c \<longleftrightarrow> safe_first c \<or> c \<in> set ''._:-''"

text \<open>
  The regular expression of \<open>validCorrelationID\<close> and of the order handler's
  \<open>validIdempotencyKey\<close>: a letter or digit, then at most 127 safe characters.
\<close>

definition safe_token :: "string \<Rightarrow> bool" where
  "safe_token s =
     (case s of [] \<Rightarrow> False | c # cs \<Rightarrow> safe_first c \<and> length cs \<le> 127 \<and> list_all safe_next cs)"

text \<open>
  \<open>randomID\<close>: 32 hexadecimal digits of 16 random bytes, or, when the random source fails, the
  hexadecimal text of the time (\<open>tm\<close>).
\<close>

definition randomID :: "env \<Rightarrow> string \<Rightarrow> string" where
  "randomID e tm =
     (if fails e ''rand correlation'' then concat (map (\<lambda>c. hex_byte (of_char c)) tm)
      else hex_of (map (rand e ''correlation'') [0..<16]))"

text \<open>The middleware \<open>correlation\<close>: the id a request carries on, which is also the response's.\<close>

definition correlation_id :: "env \<Rightarrow> string \<Rightarrow> string \<Rightarrow> string" where
  "correlation_id e tm header = (if safe_token header then header else randomID e tm)"

lemma hex_digit_safe: "n < 16 \<Longrightarrow> safe_first (hex_digit n)"
  using hex_digits[of n] by (auto simp: safe_first_def)

lemma hex_of_chars: "\<forall>c \<in> set (hex_of bs). safe_first c"
  by (induction bs) (auto simp: hex_of_def hex_byte_def hex_digit_safe nibbles)

lemma length_hex_of [simp]: "length (hex_of bs) = 2 * length bs"
  by (induction bs) (auto simp: hex_of_def hex_byte_def)

lemma safe_token_hex:
  assumes "bs \<noteq> []" and "length bs \<le> 64"
  shows "safe_token (hex_of bs)"
proof -
  have "hex_of bs \<noteq> []" using assms by (cases bs) (auto simp: hex_of_def hex_byte_def)
  then obtain c cs where h: "hex_of bs = c # cs" by (cases "hex_of bs") auto
  have "length cs \<le> 127" using length_hex_of[of bs] assms h by simp
  then show ?thesis using hex_of_chars[of bs] h
    by (auto simp: safe_token_def safe_next_def list_all_iff)
qed

text \<open>
  Whatever header a client sends, and whether or not the random source works, a request is
  served under a correlation id that matches the safe pattern, so that it can be stored, logged
  and sent on in headers.
\<close>

lemma correlation_id_safe:
  assumes "tm \<noteq> []" and "length tm \<le> 64"
  shows "safe_token (correlation_id e tm header)"
proof -
  have "safe_token (hex_of (map of_char tm))" using assms by (intro safe_token_hex) auto
  moreover have "safe_token (hex_of (map (rand e ''correlation'') [0..<16]))"
    by (intro safe_token_hex) auto
  ultimately show ?thesis
    by (simp add: correlation_id_def randomID_def hex_of_def comp_def)
qed

end
