(* ===== verification/Catalog.thy ===== *)
theory Catalog
  imports Outbox Httpx
begin

text \<open>
  The catalog service (services/catalog-service/internal/catalog): products and their stock,
  reservations of stock for a checkout attempt, their release, the product cache in Redis and
  the HTTP handlers. The state is the schema \<open>catalog\<close> of db/postgres/migrations/000002_catalog
  and 000005 together with the two kinds of Redis keys the store writes. Columns no statement
  of the service reads (\<open>created_at\<close>, \<open>updated_at\<close>) are left out.
\<close>

section \<open>Data\<close>

record product =
  pr_id :: string
  pr_sku :: string
  pr_name :: string
  pr_description :: string
  pr_price :: int
  pr_currency :: string
  pr_available :: int
  pr_active :: bool

record item =
  it_product :: string
  it_quantity :: int

record reserve_request =
  rq_attempt :: string
  rq_items :: "item list"
  rq_ttl :: int

record reserved_item =
  rv_product :: string
  rv_name :: string
  rv_quantity :: int
  rv_price :: int
  rv_currency :: string

record shortage =
  sh_product :: string
  sh_requested :: int
  sh_available :: int

record reservation_response =
  rr_id :: string
  rr_status :: string
  rr_items :: "reserved_item list"
  rr_shortages :: "shortage list"
  rr_total :: int
  rr_currency :: string
  rr_expires :: "time option"

record reservation =
  rs_id :: string
  rs_attempt :: string
  rs_status :: string
  rs_response :: json
  rs_expires :: "time option"

record reservation_row =
  rt_reservation :: string
  rt_product :: string
  rt_quantity :: int

text \<open>The Redis keys: the cached product list, and per reservation its attempt and time to live.\<close>

record catalog =
  ct_products :: "product list"
  ct_reservations :: "reservation list"
  ct_rows :: "reservation_row list"
  ct_outbox :: "outbox_row list"
  ct_cache :: "json option option"
  ct_expiry :: "string \<rightharpoonup> string \<times> duration"

section \<open>JSON of the data\<close>

definition json_product :: "product \<Rightarrow> json" where
  "json_product p = JObj
     [(''id'', JStr (pr_id p)), (''sku'', JStr (pr_sku p)), (''name'', JStr (pr_name p)),
      (''description'', JStr (pr_description p)), (''price_minor'', JInt (pr_price p)),
      (''currency'', JStr (pr_currency p)), (''available_quantity'', JInt (pr_available p))]"

definition json_item :: "item \<Rightarrow> json" where
  "json_item i = JObj [(''product_id'', JStr (it_product i)), (''quantity'', JInt (it_quantity i))]"

definition json_reserved :: "reserved_item \<Rightarrow> json" where
  "json_reserved i = JObj
     [(''product_id'', JStr (rv_product i)), (''product_name'', JStr (rv_name i)),
      (''quantity'', JInt (rv_quantity i)), (''unit_price_minor'', JInt (rv_price i)),
      (''currency'', JStr (rv_currency i))]"

definition json_shortage :: "shortage \<Rightarrow> json" where
  "json_shortage x = JObj
     [(''product_id'', JStr (sh_product x)), (''requested'', JInt (sh_requested x)),
      (''available'', JInt (sh_available x))]"

text \<open>The fields marked \<open>omitempty\<close> are left out when they are empty.\<close>

definition omit_nil :: "string \<Rightarrow> json list \<Rightarrow> fields" where
  "omit_nil name vs = (if vs = [] then [] else [(name, JArr vs)])"

definition json_response :: "reservation_response \<Rightarrow> json" where
  "json_response r = JObj
     ([(''reservation_id'', JStr (rr_id r)), (''status'', JStr (rr_status r))] @
      omit_nil ''items'' (map json_reserved (rr_items r)) @
      omit_nil ''shortages'' (map json_shortage (rr_shortages r)) @
      (if rr_total r = 0 then [] else [(''total_amount_minor'', JInt (rr_total r))]) @
      omit_empty ''currency'' (rr_currency r) @
      (case rr_expires r of None \<Rightarrow> [] | Some t \<Rightarrow> [(''expires_at'', JTime t)]))"

definition decode_product :: "json \<Rightarrow> go_error + product" where
  "decode_product v =
     andthen (struct_fields (Some v)) (\<lambda>kvs.
     andthen (field to_string ''id'' [] kvs) (\<lambda>i.
     andthen (field to_string ''sku'' [] kvs) (\<lambda>sku.
     andthen (field to_string ''name'' [] kvs) (\<lambda>name.
     andthen (field to_string ''description'' [] kvs) (\<lambda>desc.
     andthen (field to_int ''price_minor'' 0 kvs) (\<lambda>price.
     andthen (field to_string ''currency'' [] kvs) (\<lambda>cur.
     andthen (field to_int ''available_quantity'' 0 kvs) (\<lambda>av.
       Inr \<lparr>pr_id = i, pr_sku = sku, pr_name = name, pr_description = desc, pr_price = price,
            pr_currency = cur, pr_available = av, pr_active = True\<rparr>))))))))"

definition decode_reserved :: "json \<Rightarrow> go_error + reserved_item" where
  "decode_reserved v =
     andthen (struct_fields (Some v)) (\<lambda>kvs.
     andthen (field to_string ''product_id'' [] kvs) (\<lambda>p.
     andthen (field to_string ''product_name'' [] kvs) (\<lambda>name.
     andthen (field to_int ''quantity'' 0 kvs) (\<lambda>q.
     andthen (field to_int ''unit_price_minor'' 0 kvs) (\<lambda>price.
     andthen (field to_string ''currency'' [] kvs) (\<lambda>cur.
       Inr \<lparr>rv_product = p, rv_name = name, rv_quantity = q, rv_price = price,
            rv_currency = cur\<rparr>))))))"

definition decode_shortage :: "json \<Rightarrow> go_error + shortage" where
  "decode_shortage v =
     andthen (struct_fields (Some v)) (\<lambda>kvs.
     andthen (field to_string ''product_id'' [] kvs) (\<lambda>p.
     andthen (field to_int ''requested'' 0 kvs) (\<lambda>q.
     andthen (field to_int ''available'' 0 kvs) (\<lambda>av.
       Inr \<lparr>sh_product = p, sh_requested = q, sh_available = av\<rparr>))))"

definition zero_product :: product where
  "zero_product = \<lparr>pr_id = [], pr_sku = [], pr_name = [], pr_description = [], pr_price = 0,
     pr_currency = [], pr_available = 0, pr_active = True\<rparr>"

definition zero_reserved :: reserved_item where
  "zero_reserved = \<lparr>rv_product = [], rv_name = [], rv_quantity = 0, rv_price = 0, rv_currency = []\<rparr>"

definition zero_shortage :: shortage where
  "zero_shortage = \<lparr>sh_product = [], sh_requested = 0, sh_available = 0\<rparr>"

definition decode_response :: "json \<Rightarrow> go_error + reservation_response" where
  "decode_response v =
     andthen (struct_fields (Some v)) (\<lambda>kvs.
     andthen (field to_string ''reservation_id'' [] kvs) (\<lambda>i.
     andthen (field to_string ''status'' [] kvs) (\<lambda>st.
     andthen (field (to_array (ok \<circ> decode_reserved) zero_reserved) ''items'' [] kvs) (\<lambda>items.
     andthen (field (to_array (ok \<circ> decode_shortage) zero_shortage) ''shortages'' [] kvs) (\<lambda>shs.
     andthen (field to_int ''total_amount_minor'' 0 kvs) (\<lambda>total.
     andthen (field to_string ''currency'' [] kvs) (\<lambda>cur.
     andthen (field (map_option Some \<circ> to_time) ''expires_at'' None kvs) (\<lambda>ex.
       Inr \<lparr>rr_id = i, rr_status = st, rr_items = items, rr_shortages = shs, rr_total = total,
            rr_currency = cur, rr_expires = ex\<rparr>))))))))"

text \<open>The request body of the reservation handler, decoded strictly.\<close>

definition decode_item :: "json \<Rightarrow> go_error + item" where
  "decode_item v =
     andthen (strict_fields [''product_id'', ''quantity''] v) (\<lambda>kvs.
     andthen (field to_string ''product_id'' [] kvs) (\<lambda>p.
     andthen (field to_int ''quantity'' 0 kvs) (\<lambda>q.
       Inr \<lparr>it_product = p, it_quantity = q\<rparr>)))"

definition decode_request :: "json \<Rightarrow> go_error + reserve_request" where
  "decode_request v =
     andthen (strict_fields [''checkout_attempt_id'', ''items'', ''ttl_seconds''] v) (\<lambda>kvs.
     andthen (field to_string ''checkout_attempt_id'' [] kvs) (\<lambda>a.
     andthen (field (to_array (ok \<circ> decode_item) \<lparr>it_product = [], it_quantity = 0\<rparr>) ''items'' [] kvs)
       (\<lambda>items.
     andthen (field to_int ''ttl_seconds'' 0 kvs) (\<lambda>ttl.
       Inr \<lparr>rq_attempt = a, rq_items = items, rq_ttl = ttl\<rparr>))))"

section \<open>Store\<close>

text \<open>
  \<open>ListProducts\<close>: the cached list when Redis has one that decodes, otherwise the active products
  in the order of the database's collation (\<open>collate\<close> gives its sort keys), which are cached.
\<close>

definition decode_products :: "json option \<Rightarrow> product list option" where
  "decode_products bytes =
     (case bytes of
        None \<Rightarrow> None
      | Some v \<Rightarrow> if v = JNull then Some [] else to_array (ok \<circ> decode_product) zero_product v)"

definition listed :: "(string \<Rightarrow> string) \<Rightarrow> product list \<Rightarrow> product list" where
  "listed collate ps = sort_key (\<lambda>p. collate (pr_name p)) (filter pr_active ps)"

definition ListProducts ::
  "(string \<Rightarrow> string) \<Rightarrow> env \<Rightarrow> catalog \<Rightarrow> (go_error + product list) \<times> catalog" where
  "ListProducts collate e s =
     (case (if fails e ''redis get products'' then None
            else Option.bind (ct_cache s) decode_products) of
        Some products \<Rightarrow> (Inr products, s)
      | None \<Rightarrow>
          if fails e ''query products'' then (Inl (Wrapped ''query products'' CallFailed), s)
          else if fails e ''scan product'' then (Inl (Wrapped ''scan product'' CallFailed), s)
          else if fails e ''iterate products'' then (Inl (Wrapped ''iterate products'' CallFailed), s)
          else
            (let products = listed collate (ct_products s) in
             (Inr products,
              if fails e ''marshal products'' \<or> fails e ''redis set products'' then s
              else s\<lparr>ct_cache := Some (Some (JArr (map json_product products)))\<rparr>)))"

text \<open>
  The first loop of \<open>Reserve\<close>: every product is locked and read; what is missing is a shortage,
  the rest is reserved and priced. The amounts are \<open>int64\<close>.
\<close>

record basket =
  bk_reserved :: "reserved_item list"
  bk_shortages :: "shortage list"
  bk_total :: int
  bk_currency :: string

definition lock_item :: "env \<Rightarrow> product list \<Rightarrow> item \<Rightarrow> basket \<Rightarrow> go_error + basket" where
  "lock_item e products i b =
     (case query_row e (''lock product '' @ it_product i) pr_id (it_product i)
             (filter pr_active products) of
        Inl err \<Rightarrow>
          if is_no_rows err
          then Inr (b\<lparr>bk_shortages := bk_shortages b @
                 [\<lparr>sh_product = it_product i, sh_requested = it_quantity i, sh_available = 0\<rparr>]\<rparr>)
          else Inl (Wrapped (''lock product '' @ it_product i) err)
      | Inr p \<Rightarrow>
          if pr_available p < it_quantity i
          then Inr (b\<lparr>bk_shortages := bk_shortages b @
                 [\<lparr>sh_product = it_product i, sh_requested = it_quantity i,
                   sh_available = pr_available p\<rparr>]\<rparr>)
          else if bk_currency b \<noteq> [] \<and> bk_currency b \<noteq> pr_currency p
          then Inl (Failed ''mixed currencies are not supported'')
          else Inr (b\<lparr>bk_reserved := bk_reserved b @
                   [\<lparr>rv_product = pr_id p, rv_name = pr_name p, rv_quantity = it_quantity i,
                     rv_price = pr_price p, rv_currency = pr_currency p\<rparr>],
                 bk_total := wrap64 (bk_total b + wrap64 (pr_price p * it_quantity i)),
                 bk_currency := pr_currency p\<rparr>))"

definition decrement :: "env \<Rightarrow> reserved_item \<Rightarrow> product list \<Rightarrow> go_error + product list" where
  "decrement e i products =
     wrap ''decrement inventory''
       (andthen (int4 (rv_quantity i)) (\<lambda>q.
        exec_update e (''decrement '' @ rv_product i) pr_id (rv_product i)
          (\<lambda>p. 0 \<le> pr_available p \<and> pr_available p < 2 ^ 31)
          (\<lambda>p. p\<lparr>pr_available := pr_available p - q\<rparr>) products))"

text \<open>A row of the reservation, under its primary key, foreign keys and \<open>CHECK (quantity > 0)\<close>.\<close>

definition insert_item ::
  "env \<Rightarrow> string \<Rightarrow> product list \<Rightarrow> reserved_item \<Rightarrow> reservation_row list \<Rightarrow>
   go_error + reservation_row list" where
  "insert_item e rid products i rows =
     wrap ''insert reservation item''
       (andthen (int4 (rv_quantity i)) (\<lambda>q.
        andthen (as_uuid (rv_product i)) (\<lambda>p.
        exec_insert e (''insert item '' @ rv_product i) (\<lambda>r. (rt_reservation r, rt_product r))
          (\<lambda>r. 0 < rt_quantity r \<and> row_find pr_id (rt_product r) products \<noteq> None)
          \<lparr>rt_reservation = rid, rt_product = p, rt_quantity = q\<rparr> rows)))"

definition insert_reservation ::
  "env \<Rightarrow> reservation_response \<Rightarrow> string \<Rightarrow> reservation list \<Rightarrow> go_error + reservation list" where
  "insert_reservation e response attempt rs =
     wrap ''insert reservation''
       (andthen (as_uuid attempt) (\<lambda>a.
        exec_insert e ''insert reservation'' rs_id
          (\<lambda>r. rs_status r \<in> {''active'', ''failed'', ''released'', ''consumed''} \<and>
               row_find rs_attempt (rs_attempt r) rs = None)
          \<lparr>rs_id = rr_id response, rs_attempt = a, rs_status = rr_status response,
           rs_response = json_response response,
           rs_expires = map_option pg_time (rr_expires response)\<rparr> rs))"

definition failed_payload :: "env \<Rightarrow> reserve_request \<Rightarrow> reservation_response \<Rightarrow> json" where
  "failed_payload e request response = JObj
     [(''checkout_attempt_id'', JStr (rq_attempt request)),
      (''reservation_id'', JStr (rr_id response)),
      (''shortages'', JArr (map json_shortage (rr_shortages response))),
      (''failed_at'', JTime (clock e ''failed at''))]"

definition reserved_payload :: "reserve_request \<Rightarrow> reservation_response \<Rightarrow> json" where
  "reserved_payload request response = JObj
     [(''reservation_id'', JStr (rr_id response)),
      (''checkout_attempt_id'', JStr (rq_attempt request)),
      (''items'', JArr (map json_item (rq_items request))),
      (''expires_at'', case rr_expires response of None \<Rightarrow> JNull | Some t \<Rightarrow> JTime t)]"

text \<open>What the response says, once every product of the (sorted) request has been looked at.\<close>

definition response_of :: "env \<Rightarrow> reserve_request \<Rightarrow> string \<Rightarrow> basket \<Rightarrow> reservation_response" where
  "response_of e request rid b =
     (if bk_shortages b = []
      then \<lparr>rr_id = rid, rr_status = ''active'', rr_items = bk_reserved b, rr_shortages = [],
            rr_total = bk_total b, rr_currency = bk_currency b,
            rr_expires = Some (clock e ''reserve'' + wrap64 (rq_ttl request * second))\<rparr>
      else \<lparr>rr_id = rid, rr_status = ''failed'', rr_items = [], rr_shortages = bk_shortages b,
            rr_total = 0, rr_currency = [], rr_expires = None\<rparr>)"

text \<open>The statements that record a new reservation, from the decrements to the outbox.\<close>

definition record_reservation ::
  "env \<Rightarrow> ctx \<Rightarrow> reserve_request \<Rightarrow> reservation_response \<Rightarrow> catalog \<Rightarrow> go_error + catalog" where
  "record_reservation e c request response s =
     andthen (for_each (decrement e) (rr_items response) (ct_products s)) (\<lambda>products.
     andthen (wrap ''encode reservation'' (io e ''marshal reservation'')) (\<lambda>_.
     andthen (insert_reservation e response (rq_attempt request) (ct_reservations s)) (\<lambda>rs.
     andthen (for_each (insert_item e (rr_id response) products) (rr_items response) (ct_rows s)) (\<lambda>rows.
     andthen (if rr_status response = ''active''
              then New e c ''inventory.reserved'' ''catalog-service'' (rr_id response)
                     (reserved_payload request response)
              else New e c ''inventory.reservation_failed'' ''catalog-service'' (rr_id response)
                     (failed_payload e request response)) (\<lambda>envelope.
     andthen (Insert e ''catalog'' ''freshflow.inventory.events.v1'' (rr_id response) envelope
                (ct_outbox s)) (\<lambda>ob.
       Inr (s\<lparr>ct_products := products, ct_reservations := rs, ct_rows := rows, ct_outbox := ob\<rparr>)))))))"

definition reserve_tx ::
  "env \<Rightarrow> ctx \<Rightarrow> reserve_request \<Rightarrow> catalog \<Rightarrow> go_error + reservation_response verdict \<times> catalog" where
  "reserve_tx e c request s =
     andthen (wrap ''lock checkout attempt'' (io e ''advisory lock'')) (\<lambda>_.
     (case query_row e ''find reservation'' rs_attempt (rq_attempt request) (ct_reservations s) of
        Inr existing \<Rightarrow>
          andthen (wrap ''decode existing reservation'' (decode_response (rs_response existing)))
            (\<lambda>response. Inr (Abandon response, s))
      | Inl err \<Rightarrow>
          if \<not> is_no_rows err then Inl (Wrapped ''find existing reservation'' err)
          else
            andthen (for_each (lock_item e (ct_products s)) (sort_key it_product (rq_items request))
                      \<lparr>bk_reserved = [], bk_shortages = [], bk_total = 0, bk_currency = []\<rparr>) (\<lambda>b.
            andthen (NewUUID e ''reservation'') (\<lambda>rid.
            (let response = response_of e request rid b in
             andthen (record_reservation e c request response s) (\<lambda>s'.
               Inr (Commit response, s')))))))"

definition forget_products :: "env \<Rightarrow> catalog \<Rightarrow> catalog" where
  "forget_products e s = (if fails e ''redis del products'' then s else s\<lparr>ct_cache := None\<rparr>)"

definition expiry_key :: "string \<Rightarrow> string" where
  "expiry_key rid = ''local:reservation:expiry:'' @ rid"

definition Reserve ::
  "env \<Rightarrow> ctx \<Rightarrow> reserve_request \<Rightarrow> catalog \<Rightarrow> (go_error + reservation_response) \<times> catalog" where
  "Reserve e c request s =
     (case with_tx e (Wrapped ''begin reserve transaction'') (Wrapped ''commit reservation'')
             (reserve_tx e c request) s of
        (Inl err, s') \<Rightarrow> (Inl err, s')
      | (Inr (Abandon response), s') \<Rightarrow> (Inr response, s')
      | (Inr (Commit response), s') \<Rightarrow>
          (Inr response,
           (case rr_expires response of
              None \<Rightarrow> forget_products e s'
            | Some t \<Rightarrow>
                if fails e ''redis set expiry'' then forget_products e s'
                else forget_products e s'
                  \<lparr>ct_expiry := (ct_expiry s')(expiry_key (rr_id response) \<mapsto>
                     (rq_attempt request, t - clock e ''until''))\<rparr>)))"

text \<open>
  \<open>Release\<close>: an active reservation gives its quantities back; any other one is left alone. The
  update joins the reservation's rows with the products; a product has at most one such row.
\<close>

definition given_back :: "reservation_row list \<Rightarrow> string \<Rightarrow> product \<Rightarrow> product" where
  "given_back rows rid p =
     (case row_find (\<lambda>r. (rt_reservation r, rt_product r)) (rid, pr_id p) rows of
        None \<Rightarrow> p
      | Some r \<Rightarrow> p\<lparr>pr_available := pr_available p + rt_quantity r\<rparr>)"

definition release_tx :: "env \<Rightarrow> string \<Rightarrow> catalog \<Rightarrow> go_error + bool verdict \<times> catalog" where
  "release_tx e reservationID s =
     andthen (query_row e ''find reservation'' rs_id reservationID (ct_reservations s)) (\<lambda>r.
     if rs_status r \<noteq> ''active'' then Inr (Commit False, s)
     else
       andthen (wrap ''restore inventory'' (andthen (io e ''restore inventory'') (\<lambda>_.
          if list_all (\<lambda>p. pr_available (given_back (ct_rows s) (rs_id r) p) < 2 ^ 31) (ct_products s)
          then Inr (map (given_back (ct_rows s) (rs_id r)) (ct_products s))
          else Inl CallFailed))) (\<lambda>products.
       andthen (wrap ''mark reservation released''
          (exec_update e ''mark released'' rs_id reservationID (\<lambda>_. True)
             (\<lambda>r. r\<lparr>rs_status := ''released''\<rparr>) (ct_reservations s))) (\<lambda>rs.
         Inr (Commit True, s\<lparr>ct_products := products, ct_reservations := rs\<rparr>))))"

text \<open>
  The commit of a release that changed nothing returns the driver's error bare; the other one
  wraps it.
\<close>

definition release_commit_error :: "env \<Rightarrow> string \<Rightarrow> catalog \<Rightarrow> go_error \<Rightarrow> go_error" where
  "release_commit_error e reservationID s err =
     (case release_tx e reservationID s of
        Inr (Commit False, _) \<Rightarrow> err
      | _ \<Rightarrow> Wrapped ''commit release'' err)"

definition Release :: "env \<Rightarrow> string \<Rightarrow> catalog \<Rightarrow> (go_error + unit) \<times> catalog" where
  "Release e reservationID s =
     (case with_tx e (Wrapped ''begin release transaction'') (release_commit_error e reservationID s)
             (release_tx e reservationID) s of
        (Inl err, s') \<Rightarrow> (Inl err, s')
      | (Inr (Commit True), s') \<Rightarrow>
          (Inr (), if fails e ''redis del products'' then s'
                   else s'\<lparr>ct_cache := None,
                          ct_expiry := (ct_expiry s')(expiry_key reservationID := None)\<rparr>)
      | (Inr _, s') \<Rightarrow> (Inr (), s'))"

section \<open>Handlers\<close>

fun check_items :: "item list \<Rightarrow> string list \<Rightarrow> api_error option" where
  "check_items [] seen = None"
| "check_items (i # items) seen =
     (if \<not> IsUUID (it_product i) \<or> it_quantity i < 1 \<or> it_quantity i > 99
      then Some (Error 400 ''invalid_items''
        ''each item requires a UUID product_id and quantity between 1 and 99'' None)
      else if it_product i \<in> set seen
      then Some (Error 400 ''duplicate_product''
        ''items must not contain duplicate product_id values'' None)
      else check_items items (it_product i # seen))"

definition validateReserve :: "reserve_request \<Rightarrow> api_error option" where
  "validateReserve request =
     (if \<not> IsUUID (rq_attempt request)
      then Some (Error 400 ''invalid_checkout_attempt_id'' ''checkout_attempt_id must be a UUID'' None)
      else if rq_items request = [] \<or> length (rq_items request) > 100
      then Some (Error 400 ''invalid_items'' ''items must contain between 1 and 100 products'' None)
      else if rq_ttl request < 60 \<or> rq_ttl request > 1800
      then Some (Error 400 ''invalid_reservation_ttl'' ''ttl_seconds must be between 60 and 1800'' None)
      else check_items (rq_items request) [])"

definition listProducts ::
  "(string \<Rightarrow> string) \<Rightarrow> env \<Rightarrow> ctx \<Rightarrow> catalog \<Rightarrow> reply \<times> catalog" where
  "listProducts collate e c s =
     (case ListProducts collate e s of
        (Inl _, s') \<Rightarrow> (WriteError (ctx_correlation c) None, s')
      | (Inr products, s') \<Rightarrow>
          (WriteJSON 200 (JObj [(''products'', JArr (map json_product products))]), s'))"

definition reserve :: "env \<Rightarrow> ctx \<Rightarrow> http_body \<Rightarrow> catalog \<Rightarrow> reply \<times> catalog" where
  "reserve e c body s =
     (case DecodeJSON decode_request body of
        Inl a \<Rightarrow> (WriteError (ctx_correlation c) (Some a), s)
      | Inr request \<Rightarrow>
          (case validateReserve request of
             Some a \<Rightarrow> (WriteError (ctx_correlation c) (Some a), s)
           | None \<Rightarrow>
               (case Reserve e c request s of
                  (Inl _, s') \<Rightarrow> (WriteError (ctx_correlation c) None, s')
                | (Inr response, s') \<Rightarrow>
                    (if rr_status response = ''failed''
                     then WriteError (ctx_correlation c)
                       (Some (Error 409 ''inventory_insufficient''
                          ''not enough stock for one or more items''
                          (Some (JObj [(''reservation_id'', JStr (rr_id response)),
                            (''shortages'', JArr (map json_shortage (rr_shortages response)))]))))
                     else WriteJSON 201 (json_response response), s'))))"

definition release :: "env \<Rightarrow> ctx \<Rightarrow> string \<Rightarrow> catalog \<Rightarrow> reply \<times> catalog" where
  "release e c reservationID s =
     (if \<not> IsUUID reservationID
      then (WriteError (ctx_correlation c)
        (Some (Error 400 ''invalid_reservation_id'' ''reservation_id must be a UUID'' None)), s)
      else case Release e reservationID s of
        (Inl err, s') \<Rightarrow>
          (if is_no_rows err
           then WriteError (ctx_correlation c)
             (Some (Error 404 ''reservation_not_found'' ''reservation was not found'' None))
           else WriteError (ctx_correlation c) None, s')
      | (Inr _, s') \<Rightarrow> (\<lparr>rp_status = 204, rp_body = None, rp_headers = []\<rparr>, s'))"

end
