(* ===== verification/Stock.thy ===== *)
theory Stock
  imports Catalog
begin

text \<open>
  Correctness of the catalog service: its invariant, the conservation of stock, the idempotence
  of a reservation under its checkout attempt, atomicity, and what a successful reservation and
  a release do to the stock.
\<close>

section \<open>Stock, holds and the invariant\<close>

text \<open>The stock of product \<open>k\<close> on the shelf, and what active reservations hold of it.\<close>

definition stock :: "product list \<Rightarrow> string \<Rightarrow> int" where
  "stock ps k = (\<Sum>p\<leftarrow>ps. if pr_id p = k then pr_available p else 0)"

definition active_ids :: "reservation list \<Rightarrow> string set" where
  "active_ids rs = {rs_id r | r. r \<in> set rs \<and> rs_status r = ''active''}"

definition held_rows :: "string set \<Rightarrow> reservation_row list \<Rightarrow> string \<Rightarrow> int" where
  "held_rows A rows k =
     (\<Sum>r\<leftarrow>rows. if rt_product r = k \<and> rt_reservation r \<in> A then rt_quantity r else 0)"

definition held :: "catalog \<Rightarrow> string \<Rightarrow> int" where
  "held s k = held_rows (active_ids (ct_reservations s)) (ct_rows s) k"

abbreviation row_key :: "reservation_row \<Rightarrow> string \<times> string" where
  "row_key r \<equiv> (rt_reservation r, rt_product r)"

definition products_ok :: "product list \<Rightarrow> bool" where
  "products_ok ps \<longleftrightarrow> distinct (map pr_id ps) \<and>
     (\<forall>p \<in> set ps. uuid_key (pr_id p) = Some (pr_id p) \<and> 0 \<le> pr_available p \<and>
        pr_available p < 2 ^ 31 \<and> 0 \<le> pr_price p \<and> pr_price p < 2 ^ 63)"

text \<open>A stored response decodes to one that names its reservation.\<close>

definition reservation_ok :: "reservation \<Rightarrow> bool" where
  "reservation_ok r \<longleftrightarrow> uuid_key (rs_id r) = Some (rs_id r) \<and>
     (\<exists>resp. decode_response (rs_response r) = Inr resp \<and> rr_id resp = rs_id r)"

definition reservations_ok :: "reservation list \<Rightarrow> bool" where
  "reservations_ok rs \<longleftrightarrow> distinct (map rs_id rs) \<and> distinct (map rs_attempt rs) \<and>
     (\<forall>r \<in> set rs. reservation_ok r)"

text \<open>The primary key and the foreign keys of the table of reserved quantities.\<close>

definition rows_ok :: "string set \<Rightarrow> string set \<Rightarrow> reservation_row list \<Rightarrow> bool" where
  "rows_ok rids pids rows \<longleftrightarrow> distinct (map row_key rows) \<and>
     (\<forall>r \<in> set rows. rt_reservation r \<in> rids \<and> rt_product r \<in> pids \<and> 0 < rt_quantity r)"

definition catalog_ok :: "catalog \<Rightarrow> bool" where
  "catalog_ok s \<longleftrightarrow> products_ok (ct_products s) \<and> reservations_ok (ct_reservations s) \<and>
     rows_ok (rs_id ` set (ct_reservations s)) (pr_id ` set (ct_products s)) (ct_rows s)"

section \<open>Sums over tables\<close>

lemma stock_simps [simp]:
  "stock [] k = 0"
  "stock (p # ps) k = (if pr_id p = k then pr_available p else 0) + stock ps k"
  by (simp_all add: stock_def)

lemma held_rows_simps [simp]:
  "held_rows A [] k = 0"
  "held_rows A (r # rows) k =
     (if rt_product r = k \<and> rt_reservation r \<in> A then rt_quantity r else 0) + held_rows A rows k"
  "held_rows A (xs @ ys) k = held_rows A xs k + held_rows A ys k"
  by (simp_all add: held_rows_def)

lemma stock_update:
  assumes "distinct (map pr_id ps)" and "j \<in> pr_id ` set ps"
  shows "stock (row_update pr_id j (\<lambda>p. p\<lparr>pr_available := pr_available p - q\<rparr>) ps) k =
    stock ps k - (if j = k then q else 0)"
  using assms by (induction ps) auto

lemma held_rows_cong:
  assumes "\<And>r. r \<in> set rows \<Longrightarrow> rt_reservation r \<in> A \<longleftrightarrow> rt_reservation r \<in> B"
  shows "held_rows A rows k = held_rows B rows k"
  using assms by (induction rows) auto

text \<open>Under the primary key, one reservation holds at most one row of a product.\<close>

lemma held_rows_single:
  assumes "distinct (map row_key rows)"
  shows "held_rows {rid} rows k =
    (case row_find row_key (rid, k) rows of None \<Rightarrow> 0 | Some r \<Rightarrow> rt_quantity r)"
  using assms
proof (induction rows)
  case (Cons r rows)
  have "row_find row_key (rid, k) rows = None" if "row_key r = (rid, k)"
    using Cons.prems that by (auto simp: row_find_None_iff)
  then show ?case using Cons by auto
qed simp

lemma held_rows_remove:
  assumes "rid \<in> A"
  shows "held_rows A rows k = held_rows (A - {rid}) rows k + held_rows {rid} rows k"
  using assms by (induction rows) auto

lemma stock_given_back:
  assumes "distinct (map pr_id ps)"
  shows "stock (map (given_back rows rid) ps) k = stock ps k +
    (if k \<in> pr_id ` set ps
     then (case row_find row_key (rid, k) rows of None \<Rightarrow> 0 | Some r \<Rightarrow> rt_quantity r) else 0)"
  using assms
proof (induction ps)
  case (Cons p ps)
  have [simp]: "pr_id (given_back rows rid p) = pr_id p"
    by (simp add: given_back_def split: option.splits)
  have "stock (map (given_back rows rid) ps) k = stock ps k" if "pr_id p = k"
    using Cons that by auto
  then show ?case using Cons by (auto simp: given_back_def split: option.splits)
qed simp

section \<open>The steps of a reservation\<close>

text \<open>What one item of a request turns into when its product has enough stock.\<close>

definition reserves :: "product list \<Rightarrow> item \<Rightarrow> reserved_item \<Rightarrow> bool" where
  "reserves ps i v \<longleftrightarrow>
     (\<exists>p \<in> set ps. uuid_key (it_product i) = Some (pr_id p) \<and> pr_active p \<and>
        it_quantity i \<le> pr_available p \<and>
        v = \<lparr>rv_product = pr_id p, rv_name = pr_name p, rv_quantity = it_quantity i,
             rv_price = pr_price p, rv_currency = pr_currency p\<rparr>)"

lemma lock_item_reserves:
  assumes "lock_item e ps i b = Inr b'"
  shows "(bk_shortages b' = bk_shortages b \<and>
      (\<exists>v. reserves ps i v \<and> bk_reserved b' = bk_reserved b @ [v] \<and>
         bk_total b' = wrap64 (bk_total b + wrap64 (rv_price v * rv_quantity v)))) \<or>
    bk_shortages b' \<noteq> []"
proof (cases "query_row e (''lock product '' @ it_product i) pr_id (it_product i) (filter pr_active ps)")
  case (Inl err)
  then show ?thesis using assms by (auto simp: lock_item_def split: if_splits)
next
  case (Inr p)
  then obtain k where "uuid_key (it_product i) = Some k" "row_find pr_id k (filter pr_active ps) = Some p"
    by (auto simp: err_simps)
  then have "p \<in> set ps" "pr_active p" "uuid_key (it_product i) = Some (pr_id p)"
    using row_find_SomeD by fastforce+
  then have "reserves ps i \<lparr>rv_product = pr_id p, rv_name = pr_name p, rv_quantity = it_quantity i,
      rv_price = pr_price p, rv_currency = pr_currency p\<rparr>" if "\<not> pr_available p < it_quantity i"
    using that by (auto simp: reserves_def intro!: bexI[of _ p])
  then show ?thesis using assms Inr by (auto simp: lock_item_def split: if_splits)
qed

lemma shortages_kept:
  "lock_item e ps i b = Inr b' \<Longrightarrow> bk_shortages b \<noteq> [] \<Longrightarrow> bk_shortages b' \<noteq> []"
  by (auto simp: lock_item_def split: sum.splits if_splits)

lemma shortages_kept_all:
  "for_each (lock_item e ps) items b = Inr b' \<Longrightarrow> bk_shortages b \<noteq> [] \<Longrightarrow> bk_shortages b' \<noteq> []"
  by (erule for_each_invariant [where I = "\<lambda>b. bk_shortages b \<noteq> []"]) (auto dest: shortages_kept)

lemma lock_items_reserves:
  assumes "for_each (lock_item e ps) items b = Inr b'" and "bk_shortages b' = []"
  shows "\<exists>vs. bk_reserved b' = bk_reserved b @ vs \<and> list_all2 (reserves ps) items vs"
  using assms
proof (induction items arbitrary: b)
  case (Cons i items)
  then obtain b1 where b1: "lock_item e ps i b = Inr b1" "for_each (lock_item e ps) items b1 = Inr b'"
    by (auto simp: err_simps)
  then have "bk_shortages b1 = []" using Cons.prems(2) shortages_kept_all by metis
  then obtain v where "reserves ps i v" "bk_reserved b1 = bk_reserved b @ [v]"
    using lock_item_reserves[OF b1(1)] by auto
  then show ?case using Cons.IH[OF b1(2) Cons.prems(2)] by (auto simp: list_all2_Cons1)
qed simp

definition taken :: "reserved_item list \<Rightarrow> string \<Rightarrow> int" where
  "taken vs k = (\<Sum>v\<leftarrow>vs. if rv_product v = k then rv_quantity v else 0)"

lemma taken_simps [simp]:
  "taken [] k = 0"
  "taken (v # vs) k = (if rv_product v = k then rv_quantity v else 0) + taken vs k"
  by (simp_all add: taken_def)

text \<open>Two product tables that differ in the quantities only.\<close>

definition products_like :: "product list \<Rightarrow> product list \<Rightarrow> bool" where
  "products_like ps' ps \<longleftrightarrow> map (pr_available_update (\<lambda>_. 0)) ps' = map (pr_available_update (\<lambda>_. 0)) ps"

lemma products_like_map:
  assumes "products_like ps' ps" and "\<And>p. g (p\<lparr>pr_available := 0\<rparr>) = g p"
  shows "map g ps' = map g ps"
proof -
  have "map g ps' = map g (map (pr_available_update (\<lambda>_. 0)) ps')" by (simp add: comp_def assms(2))
  also have "\<dots> = map g ps" using assms by (simp add: products_like_def comp_def)
  finally show ?thesis .
qed

lemma products_like_refl [simp]: "products_like ps ps"
  by (simp add: products_like_def)

lemma products_like_trans: "products_like a b \<Longrightarrow> products_like b c \<Longrightarrow> products_like a c"
  by (simp add: products_like_def)

lemma products_like_ids: "products_like ps' ps \<Longrightarrow> map pr_id ps' = map pr_id ps"
  by (rule products_like_map) auto

lemma products_like_ok:
  assumes "products_like ps' ps" and "products_ok ps"
    and "\<And>p. p \<in> set ps' \<Longrightarrow> 0 \<le> pr_available p \<and> pr_available p < 2 ^ 31"
  shows "products_ok ps'"
proof -
  have "map (\<lambda>p. (pr_id p, pr_price p)) ps' = map (\<lambda>p. (pr_id p, pr_price p)) ps"
    using assms(1) by (rule products_like_map) auto
  then have "(\<lambda>p. (pr_id p, pr_price p)) ` set ps' = (\<lambda>p. (pr_id p, pr_price p)) ` set ps"
    by (metis set_map)
  then have "\<exists>q \<in> set ps. pr_id q = pr_id p \<and> pr_price q = pr_price p" if "p \<in> set ps'" for p
    using that by (metis (mono_tags, lifting) image_iff prod.inject)
  then show ?thesis using assms(2,3) products_like_ids[OF assms(1)] unfolding products_ok_def by metis
qed

lemma decrement_step:
  assumes "decrement e v ps = Inr ps'" and "products_ok ps"
    and "rv_product v \<in> pr_id ` set ps"
  shows "products_ok ps' \<and> products_like ps' ps \<and>
    (\<forall>k. stock ps' k = stock ps k - (if rv_product v = k then rv_quantity v else 0))"
proof -
  have key: "uuid_key (rv_product v) = Some (rv_product v)"
    using assms(2,3) by (auto simp: products_ok_def)
  let ?f = "\<lambda>p. p\<lparr>pr_available := pr_available p - rv_quantity v\<rparr>"
  have ps': "ps' = row_update pr_id (rv_product v) ?f ps"
    and chk: "\<forall>p \<in> set ps. pr_id p = rv_product v \<longrightarrow> 0 \<le> pr_available (?f p) \<and> pr_available (?f p) < 2 ^ 31"
    using assms(1) key by (auto simp: decrement_def err_simps)
  have like: "products_like ps' ps" unfolding ps' products_like_def by (induction ps) auto
  moreover have "products_ok ps'"
    using chk assms(2) unfolding ps'
    by (intro products_like_ok[OF like[unfolded ps'] assms(2)])
       (auto simp: set_row_update products_ok_def)
  moreover have "stock ps' k = stock ps k - (if rv_product v = k then rv_quantity v else 0)" for k
    unfolding ps' using assms(2,3) by (intro stock_update) (auto simp: products_ok_def)
  ultimately show ?thesis by blast
qed

lemma decrement_all:
  assumes "for_each (decrement e) vs ps = Inr ps'" and "products_ok ps"
    and "rv_product ` set vs \<subseteq> pr_id ` set ps"
  shows "products_ok ps' \<and> products_like ps' ps \<and> (\<forall>k. stock ps' k = stock ps k - taken vs k)"
  using assms
proof (induction vs arbitrary: ps)
  case (Cons v vs)
  then obtain ps1 where ps1: "decrement e v ps = Inr ps1" "for_each (decrement e) vs ps1 = Inr ps'"
    by (auto simp: err_simps)
  have step: "products_ok ps1 \<and> products_like ps1 ps \<and>
      (\<forall>k. stock ps1 k = stock ps k - (if rv_product v = k then rv_quantity v else 0))"
    using Cons.prems by (intro decrement_step[OF ps1(1)]) auto
  have "pr_id ` set ps1 = pr_id ` set ps" using step products_like_ids by (metis list.set_map)
  then have "products_ok ps' \<and> products_like ps' ps1 \<and> (\<forall>k. stock ps' k = stock ps1 k - taken vs k)"
    using Cons.prems step by (intro Cons.IH[OF ps1(2)]) auto
  then show ?case using step products_like_trans by auto
qed simp

text \<open>The rows inserted for a reservation.\<close>

lemma insert_items_rows:
  assumes "for_each (insert_item e rid ps) vs rows = Inr rows'"
    and "\<And>v. v \<in> set vs \<Longrightarrow> uuid_key (rv_product v) = Some (rv_product v)"
  shows "rows' = rows @ map (\<lambda>v. \<lparr>rt_reservation = rid, rt_product = rv_product v,
           rt_quantity = rv_quantity v\<rparr>) vs \<and>
    (distinct (map row_key rows) \<longrightarrow> distinct (map row_key rows')) \<and>
    (\<forall>v \<in> set vs. 0 < rv_quantity v \<and> rv_product v \<in> pr_id ` set ps)"
  using assms
proof (induction vs arbitrary: rows)
  case (Cons v vs)
  then obtain rows1 where r1: "insert_item e rid ps v rows = Inr rows1"
      "for_each (insert_item e rid ps) vs rows1 = Inr rows'"
    by (auto simp: err_simps)
  let ?r = "\<lparr>rt_reservation = rid, rt_product = rv_product v, rt_quantity = rv_quantity v\<rparr>"
  have step: "rows1 = rows @ [?r]" "0 < rv_quantity v" "rv_product v \<in> pr_id ` set ps"
      "row_key ?r \<notin> row_key ` set rows"
    using r1(1) Cons.prems(2)[of v] row_find_None_iff[of pr_id "rv_product v" ps]
      row_find_None_iff[of row_key "row_key ?r" rows]
    by (auto simp: insert_item_def err_simps)
  have d: "distinct (map row_key rows) \<longrightarrow> distinct (map row_key rows1)"
    using step(4) unfolding step(1) by auto
  have IH: "rows' = rows1 @ map (\<lambda>v. \<lparr>rt_reservation = rid, rt_product = rv_product v,
           rt_quantity = rv_quantity v\<rparr>) vs \<and>
    (distinct (map row_key rows1) \<longrightarrow> distinct (map row_key rows')) \<and>
    (\<forall>v \<in> set vs. 0 < rv_quantity v \<and> rv_product v \<in> pr_id ` set ps)"
    using Cons.prems(2) by (intro Cons.IH[OF r1(2)]) simp
  show ?case
  proof (intro conjI)
    show "distinct (map row_key rows) \<longrightarrow> distinct (map row_key rows')" using IH d by blast
  qed (use IH step in simp_all)
qed simp

lemma held_new_rows:
  "held_rows A (map (\<lambda>v. \<lparr>rt_reservation = rid, rt_product = rv_product v,
      rt_quantity = rv_quantity v\<rparr>) vs) k = (if rid \<in> A then taken vs k else 0)"
  by (induction vs) auto

section \<open>Stored responses\<close>

definition response_ok :: "reservation_response \<Rightarrow> bool" where
  "response_ok r \<longleftrightarrow> int64 (rr_total r) \<and>
     (\<forall>i \<in> set (rr_items r). int64 (rv_quantity i) \<and> int64 (rv_price i)) \<and>
     (\<forall>x \<in> set (rr_shortages r). int64 (sh_requested x) \<and> int64 (sh_available x))"

lemma json_not_null [simp]: "json_reserved i \<noteq> JNull" "json_shortage x \<noteq> JNull"
  by (simp_all add: json_reserved_def json_shortage_def)

lemma decode_reserved_json:
  "int64 (rv_quantity i) \<Longrightarrow> int64 (rv_price i) \<Longrightarrow> decode_reserved (json_reserved i) = Inr i"
  by (simp add: decode_reserved_def json_reserved_def same_key_def ascii_lower_def del: to_int.simps)

lemma decode_shortage_json:
  "int64 (sh_requested i) \<Longrightarrow> int64 (sh_available i) \<Longrightarrow> decode_shortage (json_shortage i) = Inr i"
  by (simp add: decode_shortage_def json_shortage_def same_key_def ascii_lower_def del: to_int.simps)

lemma field_omit_nil [simp]:
  "\<not> same_key k name \<Longrightarrow> field conv name z (omit_nil k vs) = Inr z"
  by (simp add: omit_nil_def)

lemma field_omit_nil_array [simp]:
  "to_list conv d vs = Some xs \<Longrightarrow>
     field (to_array conv d) name [] (omit_nil name vs) = Inr xs"
  by (cases vs) (auto simp: omit_nil_def)

lemma decode_response_json:
  assumes "response_ok r"
  shows "decode_response (json_response r) = Inr r"
proof -
  have items: "to_list (ok \<circ> decode_reserved) zero_reserved (map json_reserved (rr_items r)) = Some (rr_items r)"
    using assms by (intro to_list_map) (auto simp: response_ok_def decode_reserved_json)
  have shs: "to_list (ok \<circ> decode_shortage) zero_shortage (map json_shortage (rr_shortages r)) =
      Some (rr_shortages r)"
    using assms by (intro to_list_map) (auto simp: response_ok_def decode_shortage_json)
  have total: "to_int (JInt (rr_total r)) = Some (rr_total r)"
    using assms by (intro to_int_int64) (simp add: response_ok_def)
  show ?thesis
    using items shs total
    by (simp add: decode_response_def json_response_def field_append same_key_def ascii_lower_def
          del: to_int.simps split: option.splits)
qed

section \<open>Recording a reservation\<close>

lemma active_ids_Cons:
  "active_ids [] = {}"
  "active_ids (r # rs) = (if rs_status r = ''active'' then insert (rs_id r) (active_ids rs) else active_ids rs)"
  by (auto simp: active_ids_def)

lemma active_ids_append:
  "active_ids (rs @ [r]) = (if rs_status r = ''active'' then insert (rs_id r) (active_ids rs) else active_ids rs)"
  by (auto simp: active_ids_def)

text \<open>A response as the code builds it: only an active one has items, which name products.\<close>

definition built :: "product list \<Rightarrow> reservation_response \<Rightarrow> bool" where
  "built ps r \<longleftrightarrow> response_ok r \<and> uuid_key (rr_id r) = Some (rr_id r) \<and>
     rv_product ` set (rr_items r) \<subseteq> pr_id ` set ps \<and> (rr_status r \<noteq> ''active'' \<longrightarrow> rr_items r = [])"

definition keyed :: "reservation_row list \<Rightarrow> bool" where
  "keyed rows \<longleftrightarrow> distinct (map row_key rows)"

text \<open>What recording a response does to the tables.\<close>

definition recorded :: "reserve_request \<Rightarrow> reservation_response \<Rightarrow> catalog \<Rightarrow> catalog \<Rightarrow> bool" where
  "recorded req r s s' \<longleftrightarrow>
     (\<exists>a. uuid_key (rq_attempt req) = Some a \<and>
        a \<notin> rs_attempt ` set (ct_reservations s) \<and> rr_id r \<notin> rs_id ` set (ct_reservations s) \<and>
        ct_reservations s' = ct_reservations s @ [\<lparr>rs_id = rr_id r, rs_attempt = a,
          rs_status = rr_status r, rs_response = json_response r, rs_expires = map_option pg_time (rr_expires r)\<rparr>]) \<and>
     products_like (ct_products s') (ct_products s) \<and> products_ok (ct_products s') \<and>
     (\<forall>k. stock (ct_products s') k = stock (ct_products s) k - taken (rr_items r) k) \<and>
     ct_rows s' = ct_rows s @ map (\<lambda>v. \<lparr>rt_reservation = rr_id r, rt_product = rv_product v,
        rt_quantity = rv_quantity v\<rparr>) (rr_items r) \<and>
     (keyed (ct_rows s) \<longrightarrow> keyed (ct_rows s')) \<and> (\<forall>v \<in> set (rr_items r). 0 < rv_quantity v) \<and>
     (\<exists>ev p. ct_outbox s' = ct_outbox s @ [ev] \<and>
        announces ''freshflow.inventory.events.v1'' ev
          (if rr_status r = ''active'' then ''inventory.reserved'' else ''inventory.reservation_failed'') (rr_id r) p)"

lemma record_reservation_recorded:
  assumes "record_reservation e c req r s = Inr s'" and "products_ok (ct_products s)"
    and "built (ct_products s) r"
  shows "recorded req r s s'"
proof -
  let ?ty = "if rr_status r = ''active'' then ''inventory.reserved'' else ''inventory.reservation_failed''"
  obtain ps rs rows v ob where
    ps: "for_each (decrement e) (rr_items r) (ct_products s) = Inr ps" and
    rs: "insert_reservation e r (rq_attempt req) (ct_reservations s) = Inr rs" and
    rows: "for_each (insert_item e (rr_id r) ps) (rr_items r) (ct_rows s) = Inr rows" and
    v: "(if rr_status r = ''active''
         then New e c ''inventory.reserved'' ''catalog-service'' (rr_id r) (reserved_payload req r)
         else New e c ''inventory.reservation_failed'' ''catalog-service'' (rr_id r) (failed_payload e req r)) = Inr v" and
    ob: "Insert e ''catalog'' ''freshflow.inventory.events.v1'' (rr_id r) v (ct_outbox s) = Inr ob" and
    s': "s' = s\<lparr>ct_products := ps, ct_reservations := rs, ct_rows := rows, ct_outbox := ob\<rparr>"
    using assms(1) unfolding record_reservation_def andthen_Inr by blast
  obtain p where "New e c ?ty ''catalog-service'' (rr_id r) p = Inr v" using v by (simp split: if_splits)
  from Insert_New_announces[OF this ob] have ev: "\<exists>ev p. ob = ct_outbox s @ [ev] \<and>
      announces ''freshflow.inventory.events.v1'' ev ?ty (rr_id r) p"
    using assms(3) unfolding built_def by auto
  have dec: "products_ok ps \<and> products_like ps (ct_products s) \<and>
      (\<forall>k. stock ps k = stock (ct_products s) k - taken (rr_items r) k)"
    using assms(2,3) by (intro decrement_all[OF ps]) (auto simp: built_def)
  have key: "uuid_key (rv_product v) = Some (rv_product v)" if "v \<in> set (rr_items r)" for v
    using that assms(2,3) by (auto simp: built_def products_ok_def)
  have rows': "rows = ct_rows s @ map (\<lambda>v. \<lparr>rt_reservation = rr_id r, rt_product = rv_product v,
           rt_quantity = rv_quantity v\<rparr>) (rr_items r) \<and>
      (distinct (map row_key (ct_rows s)) \<longrightarrow> distinct (map row_key rows)) \<and>
      (\<forall>v \<in> set (rr_items r). 0 < rv_quantity v \<and> rv_product v \<in> pr_id ` set ps)"
    using key by (rule insert_items_rows[OF rows])
  obtain a where a: "uuid_key (rq_attempt req) = Some a" "a \<notin> rs_attempt ` set (ct_reservations s)"
      "rr_id r \<notin> rs_id ` set (ct_reservations s)"
      "rs = ct_reservations s @ [\<lparr>rs_id = rr_id r, rs_attempt = a, rs_status = rr_status r,
         rs_response = json_response r, rs_expires = map_option pg_time (rr_expires r)\<rparr>]"
    using rs by (auto simp: insert_reservation_def err_simps row_find_None_iff)
  have k: "keyed (ct_rows s) \<Longrightarrow> keyed rows" "\<forall>v \<in> set (rr_items r). 0 < rv_quantity v"
    using rows' unfolding keyed_def by blast+
  note r = rows'[THEN conjunct1, symmetric]
  show ?thesis
    unfolding recorded_def using a dec k ev unfolding s' by (simp add: r)
qed

lemma recorded_ok:
  assumes "recorded req r s s'" and "catalog_ok s" and "built (ct_products s) r"
  shows "catalog_ok s'"
proof -
  obtain a where a: "a \<notin> rs_attempt ` set (ct_reservations s)" "rr_id r \<notin> rs_id ` set (ct_reservations s)"
      "ct_reservations s' = ct_reservations s @ [\<lparr>rs_id = rr_id r, rs_attempt = a,
          rs_status = rr_status r, rs_response = json_response r, rs_expires = map_option pg_time (rr_expires r)\<rparr>]"
    using assms(1) by (auto simp: recorded_def)
  have ids: "pr_id ` set (ct_products s') = pr_id ` set (ct_products s)"
    using assms(1) products_like_ids unfolding recorded_def by (metis list.set_map)
  have rs: "reservations_ok (ct_reservations s')"
    using assms(2,3) a unfolding catalog_ok_def built_def a(3)
    by (auto simp: reservations_ok_def reservation_ok_def decode_response_json)
  have "distinct (map row_key (ct_rows s'))" using assms(1,2) unfolding recorded_def catalog_ok_def rows_ok_def keyed_def by blast
  moreover have "rt_reservation x \<in> rs_id ` set (ct_reservations s') \<and>
      rt_product x \<in> pr_id ` set (ct_products s') \<and> 0 < rt_quantity x" if "x \<in> set (ct_rows s')" for x
    using that assms a(3) ids by (auto simp: recorded_def catalog_ok_def rows_ok_def built_def)
  ultimately show ?thesis using rs assms(1) by (simp add: catalog_ok_def rows_ok_def recorded_def)
qed

lemma recorded_held:
  assumes "recorded req r s s'" and "catalog_ok s" and "built (ct_products s) r"
  shows "held s' k = held s k + taken (rr_items r) k"
proof -
  obtain a where a: "rr_id r \<notin> rs_id ` set (ct_reservations s)"
      "ct_reservations s' = ct_reservations s @ [\<lparr>rs_id = rr_id r, rs_attempt = a,
          rs_status = rr_status r, rs_response = json_response r, rs_expires = map_option pg_time (rr_expires r)\<rparr>]"
    using assms(1) by (auto simp: recorded_def)
  have rows: "ct_rows s' = ct_rows s @ map (\<lambda>v. \<lparr>rt_reservation = rr_id r, rt_product = rv_product v,
        rt_quantity = rv_quantity v\<rparr>) (rr_items r)"
    using assms(1) by (simp add: recorded_def)
  have "rt_reservation x \<noteq> rr_id r" if "x \<in> set (ct_rows s)" for x
    using that assms(2) a(1) unfolding catalog_ok_def rows_ok_def by metis
  then have "held_rows (active_ids (ct_reservations s')) (ct_rows s) k = held s k"
    unfolding held_def by (intro held_rows_cong) (auto simp: a(2) active_ids_append)
  then show ?thesis
    using assms(3) unfolding held_def rows
    by (auto simp: held_new_rows a(2) active_ids_append built_def)
qed

section \<open>The transaction of \<open>Reserve\<close>\<close>

definition small_items :: "item list \<Rightarrow> bool" where
  "small_items items \<longleftrightarrow> (\<forall>i \<in> set items. 1 \<le> it_quantity i \<and> it_quantity i \<le> 99)"

lemma check_items_valid:
  "check_items items seen = None \<longleftrightarrow>
     (\<forall>i \<in> set items. IsUUID (it_product i)) \<and> small_items items \<and>
     distinct (map it_product items) \<and> set (map it_product items) \<inter> set seen = {}"
  by (induction items arbitrary: seen) (auto simp: small_items_def)

definition bounded_basket :: "basket \<Rightarrow> bool" where
  "bounded_basket b \<longleftrightarrow> int64 (bk_total b) \<and>
     (\<forall>x \<in> set (bk_shortages b). int64 (sh_requested x) \<and> int64 (sh_available x)) \<and>
     (\<forall>v \<in> set (bk_reserved b). int64 (rv_quantity v) \<and> int64 (rv_price v))"

lemma lock_item_bounded:
  assumes "lock_item e ps i b = Inr b'" and "bounded_basket b" and "products_ok ps"
    and "1 \<le> it_quantity i" "it_quantity i \<le> 99"
  shows "bounded_basket b'"
proof -
  have q: "int64 (it_quantity i)" and z: "int64 0" using assms(4,5) by (auto simp: int64_def)
  have "int64 (pr_available p) \<and> int64 (pr_price p)"
    if "query_row e (''lock product '' @ it_product i) pr_id (it_product i) (filter pr_active ps) = Inr p" for p
  proof -
    have "p \<in> set ps" using that row_find_SomeD by (fastforce simp: err_simps)
    then show ?thesis using assms(3) by (auto simp: products_ok_def int64_def)
  qed
  then show ?thesis
    using assms(1,2) q z
    by (auto simp: lock_item_def bounded_basket_def split: sum.splits if_splits)
qed

definition empty_basket :: basket where
  "empty_basket = \<lparr>bk_reserved = [], bk_shortages = [], bk_total = 0, bk_currency = []\<rparr>"

lemma lock_items_bounded:
  assumes "for_each (lock_item e ps) items empty_basket = Inr b" and "products_ok ps"
    and "small_items items"
  shows "bounded_basket b"
  using assms(1)
proof (rule for_each_invariant)
  show "bounded_basket empty_basket" by (simp add: bounded_basket_def empty_basket_def int64_def)
qed (use assms(2,3) lock_item_bounded in \<open>auto simp: small_items_def\<close>)

lemma reserves_products:
  "list_all2 (reserves ps) items vs \<Longrightarrow> rv_product ` set vs \<subseteq> pr_id ` set ps"
  by (induction rule: list_all2_induct) (auto simp: reserves_def)

lemma response_built:
  assumes "for_each (lock_item e ps) (sort_key it_product (rq_items req)) empty_basket = Inr b"
    and "products_ok ps" and "small_items (rq_items req)"
  shows "built ps (response_of e' req (format_uuid v) b)"
proof -
  have "bounded_basket b"
    using assms by (intro lock_items_bounded[OF assms(1)]) (auto simp: small_items_def)
  moreover have "rv_product ` set (bk_reserved b) \<subseteq> pr_id ` set ps" if "bk_shortages b = []"
    using lock_items_reserves[OF assms(1) that] reserves_products by (fastforce simp: empty_basket_def)
  ultimately show ?thesis
    by (auto simp: built_def response_of_def response_ok_def bounded_basket_def format_uuid_key int64_def)
qed

lemma reserve_tx_cases:
  assumes "reserve_tx e c req s = Inr (v, s')"
  obtains (found) k r resp where "v = Abandon resp" "s' = s" "uuid_key (rq_attempt req) = Some k"
      "row_find rs_attempt k (ct_reservations s) = Some r" "decode_response (rs_response r) = Inr resp"
  | (fresh) b k where "uuid_key (rq_attempt req) = Some k"
      "row_find rs_attempt k (ct_reservations s) = None"
      "for_each (lock_item e (ct_products s)) (sort_key it_product (rq_items req)) empty_basket = Inr b"
      "v = Commit (response_of e req (format_uuid (rand e ''reservation'')) b)"
      "record_reservation e c req (response_of e req (format_uuid (rand e ''reservation'')) b) s = Inr s'"
proof (cases "query_row e ''find reservation'' rs_attempt (rq_attempt req) (ct_reservations s)")
  case (Inl err)
  then have n: "is_no_rows err" "err = NoRows \<or> err \<noteq> NoRows"
    using assms by (auto simp: reserve_tx_def err_simps split: if_splits)
  then have "err = NoRows" using Inl
    by (auto simp: query_row_def as_uuid_def io_def andthen_def split: if_splits option.splits sum.splits)
  then obtain k where "uuid_key (rq_attempt req) = Some k" "row_find rs_attempt k (ct_reservations s) = None"
    using Inl by (auto simp: query_row_NoRows)
  then show ?thesis using assms Inl n
    by (auto simp: reserve_tx_def andthen_Inr wrap_Inr NewUUID_Inr Let_def empty_basket_def intro: fresh)
next
  case (Inr r)
  then obtain k where "uuid_key (rq_attempt req) = Some k" "row_find rs_attempt k (ct_reservations s) = Some r"
    by (auto simp: err_simps)
  moreover have "\<exists>resp. v = Abandon resp \<and> s' = s \<and> decode_response (rs_response r) = Inr resp"
    using assms Inr by (auto simp: reserve_tx_def err_simps)
  ultimately show ?thesis using found by blast
qed

text \<open>The tables of the service, without the caches.\<close>

definition same_tables :: "catalog \<Rightarrow> catalog \<Rightarrow> bool" where
  "same_tables a b \<longleftrightarrow> ct_products a = ct_products b \<and> ct_reservations a = ct_reservations b \<and>
     ct_rows a = ct_rows b \<and> ct_outbox a = ct_outbox b"

lemma same_tables_refl [simp]: "same_tables s s"
  by (simp add: same_tables_def)

lemma same_tables_caches [simp]:
  "same_tables (s\<lparr>ct_cache := x\<rparr>) t = same_tables s t"
  "same_tables (s\<lparr>ct_expiry := y\<rparr>) t = same_tables s t"
  "same_tables (forget_products e s) t = same_tables s t"
  by (simp_all add: same_tables_def forget_products_def)

lemma same_tables_facts:
  assumes "same_tables a b"
  shows "catalog_ok a = catalog_ok b" "held a k = held b k" "ct_products a = ct_products b"
    "recorded req r s a = recorded req r s b" "ct_reservations a = ct_reservations b"
  using assms by (simp_all add: same_tables_def catalog_ok_def held_def recorded_def)

text \<open>
  A call of \<open>Reserve\<close>, whatever fails on the way, either leaves the tables as they are or
  records one new reservation.
\<close>

lemma Reserve_cases:
  assumes "Reserve e c req s = (res, s')" and "catalog_ok s" and "small_items (rq_items req)"
  obtains (same) "s' = s"
  | (recorded) r where "recorded req r s s'" "built (ct_products s) r" 
      "res = Inr r \<or> (\<exists>err. res = Inl err) \<and> commit_of e = CommitLost"
proof -
  obtain v t where tx: "with_tx e (Wrapped ''begin reserve transaction'') (Wrapped ''commit reservation'')
      (reserve_tx e c req) s = (v, t)"
    by fastforce
  from tx show ?thesis
  proof (cases rule: with_tx_cases)
    case unchanged
    have "(\<exists>r. reserve_tx e c req s = Inr (Commit r, s) \<and> v = Inr (Commit r)) \<or> s' = s"
      using assms(1) tx unfolding unchanged
      by (auto simp: Reserve_def with_tx_Commit split: sum.splits verdict.splits)
    then show ?thesis
    proof
      assume "s' = s" then show ?thesis by (rule same)
    next
      assume "\<exists>r. reserve_tx e c req s = Inr (Commit r, s) \<and> v = Inr (Commit r)"
      then obtain r where "reserve_tx e c req s = Inr (Commit r, s)" by auto
      then have "recorded req r s s"
      proof (cases rule: reserve_tx_cases)
        case (fresh b k)
        then show ?thesis
          using assms(2,3) by (auto intro!: record_reservation_recorded response_built simp: catalog_ok_def)
      qed auto
      then show ?thesis by (auto simp: recorded_def)
    qed
  next
    case (committed a)
    then show ?thesis
    proof (cases rule: reserve_tx_cases)
      case (fresh b k)
      have bt: "built (ct_products s) a"
        using fresh assms(2,3) by (auto intro!: response_built simp: catalog_ok_def)
      then have rec: "recorded req a s t"
        using fresh assms(2) by (auto intro!: record_reservation_recorded simp: catalog_ok_def)
      have t: "same_tables s' t" "res = Inr a \<or> (\<exists>err. res = Inl err) \<and> commit_of e = CommitLost \<or> t = s"
        using assms(1) tx committed
        by (auto simp: Reserve_def with_tx_def split: sum.splits verdict.splits if_splits option.splits
            commit_outcome.splits)
      have "t \<noteq> s" using rec by (auto simp: recorded_def)
      then show ?thesis using recorded[OF _ bt] rec t same_tables_facts by blast
    qed auto
  qed
qed

section \<open>The transaction of \<open>Release\<close>\<close>

definition released :: "reservation \<Rightarrow> catalog \<Rightarrow> catalog \<Rightarrow> bool" where
  "released r s s' \<longleftrightarrow>
     row_find rs_id (rs_id r) (ct_reservations s) = Some r \<and> rs_status r = ''active'' \<and>
     ct_products s' = map (given_back (ct_rows s) (rs_id r)) (ct_products s) \<and>
     (\<forall>p \<in> set (ct_products s'). pr_available p < 2 ^ 31) \<and>
     ct_reservations s' =
       row_update rs_id (rs_id r) (\<lambda>x. x\<lparr>rs_status := ''released''\<rparr>) (ct_reservations s) \<and>
     ct_rows s' = ct_rows s \<and> ct_outbox s' = ct_outbox s"

lemma release_tx_cases:
  assumes "release_tx e rid s = Inr (v, s')"
  obtains (inactive) r k where "uuid_key rid = Some k" "row_find rs_id k (ct_reservations s) = Some r"
      "rs_status r \<noteq> ''active''" "v = Commit False" "s' = s"
  | (active) r where "uuid_key rid = Some (rs_id r)" "released r s s'" "v = Commit True"
proof -
  obtain r k where q: "query_row e ''find reservation'' rs_id rid (ct_reservations s) = Inr r"
    and r: "uuid_key rid = Some k" "row_find rs_id k (ct_reservations s) = Some r"
    using assms by (auto simp: release_tx_def andthen_Inr query_row_Inr)
  have k: "rs_id r = k" using row_find_SomeD[OF r(2)] by simp
  show ?thesis
  proof (cases "rs_status r = ''active''")
    case True
    then have "released r s s' \<and> v = Commit True"
      using assms q r k
      by (auto simp: release_tx_def err_simps released_def list_all_iff split: if_splits)
    then show ?thesis using r k active by blast
  next
    case False
    then have "v = Commit False" "s' = s" using assms q by (auto simp: release_tx_def)
    then show ?thesis using r False inactive by blast
  qed
qed

lemma Release_cases:
  assumes "Release e rid s = (res, s')"
  obtains (same) "same_tables s' s" | (released) r where "uuid_key rid = Some (rs_id r)" "released r s s'"
proof -
  obtain v t where tx: "with_tx e (Wrapped ''begin release transaction'') (release_commit_error e rid s)
      (release_tx e rid) s = (v, t)"
    by fastforce
  have st: "same_tables s' t"
    using assms tx by (auto simp: Release_def split: sum.splits verdict.splits if_splits bool.splits)
  from tx show ?thesis
  proof (cases rule: with_tx_cases)
    case unchanged
    then show ?thesis using st same by simp
  next
    case (committed a)
    then show ?thesis
    proof (cases rule: release_tx_cases)
      case (inactive r k)
      then show ?thesis using st same by simp
    next
      case (active r)
      then have "released r s s'" using st by (simp add: released_def same_tables_def)
      then show ?thesis using active released by blast
    qed
  qed
qed

lemma given_back_id [simp]: "pr_id (given_back rows rid p) = pr_id p"
  "pr_price (given_back rows rid p) = pr_price p"
  by (simp_all add: given_back_def split: option.splits)

lemma given_back_grows:
  assumes "\<forall>r \<in> set rows. 0 < rt_quantity r"
  shows "pr_available p \<le> pr_available (given_back rows rid p)"
  using assms row_find_SomeD by (fastforce simp: given_back_def split: option.splits)

lemma released_reservation_ok [simp]:
  "reservation_ok (r\<lparr>rs_status := x\<rparr>) = reservation_ok r"
  by (simp add: reservation_ok_def)

lemma released_ok:
  assumes "released r s s'" and "catalog_ok s"
  shows "catalog_ok s'"
proof -
  have ids: "map rs_id (ct_reservations s') = map rs_id (ct_reservations s)"
      "map rs_attempt (ct_reservations s') = map rs_attempt (ct_reservations s)"
    using assms(1) by (simp_all add: released_def map_row_update)
  have pids: "map pr_id (ct_products s') = map pr_id (ct_products s)"
    using assms(1) by (simp add: released_def)
  have "\<forall>x \<in> set (ct_reservations s'). reservation_ok x"
    using assms by (auto simp: released_def set_row_update catalog_ok_def reservations_ok_def)
  then have "reservations_ok (ct_reservations s')"
    using assms(2) ids by (simp add: catalog_ok_def reservations_ok_def)
  moreover have "products_ok (ct_products s')"
  proof -
    have up: "\<forall>p \<in> set (ct_products s'). pr_available p < 2 ^ 31" using assms(1) by (simp add: released_def)
    have pos: "\<forall>x \<in> set (ct_rows s). 0 < rt_quantity x" using assms(2) by (simp add: catalog_ok_def rows_ok_def)
    have "uuid_key (pr_id p) = Some (pr_id p) \<and> 0 \<le> pr_available p \<and>
        0 \<le> pr_price p \<and> pr_price p < 2 ^ 63" if p: "p \<in> set (ct_products s')" for p
    proof -
      obtain q where q: "q \<in> set (ct_products s)" "p = given_back (ct_rows s) (rs_id r) q"
        using p assms(1) by (auto simp: released_def)
      have "pr_available q \<le> pr_available p" unfolding q(2) using pos by (rule given_back_grows)
      moreover have "uuid_key (pr_id q) = Some (pr_id q) \<and> 0 \<le> pr_available q \<and>
          0 \<le> pr_price q \<and> pr_price q < 2 ^ 63"
        using assms(2) q(1) by (simp add: catalog_ok_def products_ok_def)
      ultimately show ?thesis using q(2) by simp
    qed
    then show ?thesis using up pids assms(2) by (simp add: products_ok_def catalog_ok_def)
  qed
  moreover have "rows_ok (rs_id ` set (ct_reservations s')) (pr_id ` set (ct_products s')) (ct_rows s')"
    using assms ids pids unfolding catalog_ok_def released_def by (metis list.set_map)
  ultimately show ?thesis by (simp add: catalog_ok_def)
qed

lemma released_active_ids:
  assumes "released r s s'" and "distinct (map rs_id (ct_reservations s))"
  shows "rs_id r \<in> active_ids (ct_reservations s)"
    "active_ids (ct_reservations s') = active_ids (ct_reservations s) - {rs_id r}"
proof -
  have r: "r \<in> set (ct_reservations s)" "rs_status r = ''active''"
    using assms row_find_SomeD[of rs_id "rs_id r"] by (auto simp: released_def)
  then show "rs_id r \<in> active_ids (ct_reservations s)" by (auto simp: active_ids_def)
  have "active_ids (row_update rs_id k (\<lambda>x. x\<lparr>rs_status := ''released''\<rparr>) rs) = active_ids rs - {k}" for k rs
    by (induction rs) (auto simp: active_ids_Cons)
  then show "active_ids (ct_reservations s') = active_ids (ct_reservations s) - {rs_id r}"
    using assms(1) by (simp add: released_def)
qed

lemma released_conserves:
  assumes "released r s s'" and "catalog_ok s"
  shows "stock (ct_products s') k = stock (ct_products s) k + held_rows {rs_id r} (ct_rows s) k"
    "held s' k = held s k - held_rows {rs_id r} (ct_rows s) k"
proof -
  have d: "distinct (map row_key (ct_rows s))" "distinct (map pr_id (ct_products s))"
      "distinct (map rs_id (ct_reservations s))"
    using assms(2) by (simp_all add: catalog_ok_def rows_ok_def products_ok_def reservations_ok_def)
  have "k \<in> pr_id ` set (ct_products s)" if "row_find row_key (rs_id r, k) (ct_rows s) = Some x" for x
    using row_find_SomeD[OF that] assms(2) by (auto simp: catalog_ok_def rows_ok_def)
  then show "stock (ct_products s') k = stock (ct_products s) k + held_rows {rs_id r} (ct_rows s) k"
    using assms(1) stock_given_back[OF d(2)] held_rows_single[OF d(1)]
    by (fastforce simp: released_def split: option.splits)
  show "held s' k = held s k - held_rows {rs_id r} (ct_rows s) k"
    using held_rows_remove[OF released_active_ids(1)[OF assms(1) d(3)]]
      released_active_ids(2)[OF assms(1) d(3)] assms(1)
    by (simp add: held_def released_def)
qed

section \<open>Histories of the service\<close>

text \<open>
  Any sequence of requests to the handlers, each in surroundings of its own, interleaved with
  the cached list expiring.
\<close>

datatype catalog_op =
    ListOp env ctx
  | ReserveOp env ctx http_body
  | ReleaseOp env ctx string
  | CacheExpires

fun catalog_step :: "(string \<Rightarrow> string) \<Rightarrow> catalog_op \<Rightarrow> catalog \<Rightarrow> catalog" where
  "catalog_step collate (ListOp e c) s = snd (listProducts collate e c s)"
| "catalog_step collate (ReserveOp e c body) s = snd (reserve e c body s)"
| "catalog_step collate (ReleaseOp e c rid) s = snd (release e c rid s)"
| "catalog_step collate CacheExpires s = s\<lparr>ct_cache := None\<rparr>"

definition catalog_run :: "(string \<Rightarrow> string) \<Rightarrow> catalog_op list \<Rightarrow> catalog \<Rightarrow> catalog" where
  "catalog_run collate = fold (catalog_step collate)"

lemma validateReserve_items:
  "validateReserve req = None \<Longrightarrow> small_items (rq_items req) \<and> distinct (map it_product (rq_items req)) \<and>
     IsUUID (rq_attempt req)"
  by (auto simp: validateReserve_def check_items_valid split: if_splits)

lemma catalog_step_cases:
  assumes "catalog_ok s"
  obtains (same) "same_tables (catalog_step collate op s) s"
  | (recorded) req r where "recorded req r s (catalog_step collate op s)" "built (ct_products s) r"
  | (released) r where "released r s (catalog_step collate op s)"
proof (cases op)
  case (ListOp e c)
  then have "same_tables (catalog_step collate op s) s"
    by (auto simp: listProducts_def ListProducts_def Let_def split: sum.splits option.splits)
  then show ?thesis by (rule same)
next
  case (ReserveOp e c body)
  show ?thesis
  proof (cases "catalog_step collate op s = s")
    case False
    then obtain req where "validateReserve req = None" and
        req: "catalog_step collate op s = snd (Reserve e c req s)"
      by (auto simp: ReserveOp reserve_def split: sum.splits option.splits prod.splits)
    then have small: "small_items (rq_items req)" using validateReserve_items by blast
    have "Reserve e c req s = (fst (Reserve e c req s), catalog_step collate op s)"
      unfolding req by simp
    then show ?thesis using assms small
      by (rule Reserve_cases) (use False recorded in auto)
  qed (use same in simp)
next
  case (ReleaseOp e c rid)
  show ?thesis
  proof (cases "catalog_step collate op s = s")
    case False
    then have rel: "catalog_step collate op s = snd (Release e rid s)"
      by (auto simp: ReleaseOp release_def split: sum.splits prod.splits if_splits)
    have "Release e rid s = (fst (Release e rid s), catalog_step collate op s)"
      unfolding rel by simp
    then show ?thesis by (rule Release_cases) (use same released in auto)
  qed (use same in simp)
next
  case CacheExpires
  then show ?thesis using same by simp
qed

lemma catalog_step_ok:
  assumes "catalog_ok s"
  shows "catalog_ok (catalog_step collate op s)"
  using assms
proof (cases rule: catalog_step_cases[of s collate op])
  case (recorded req r)
  then show ?thesis using assms recorded_ok by blast
next
  case (released r)
  then show ?thesis using assms released_ok by blast
qed (simp add: same_tables_facts assms)

lemma catalog_run_ok: "catalog_ok s \<Longrightarrow> catalog_ok (catalog_run collate ops s)"
  unfolding catalog_run_def by (induction ops arbitrary: s) (auto simp: catalog_step_ok)

lemma catalog_step_conserves:
  assumes "catalog_ok s"
  shows "stock (ct_products (catalog_step collate op s)) k + held (catalog_step collate op s) k =
    stock (ct_products s) k + held s k"
  using assms
proof (cases rule: catalog_step_cases[of s collate op])
  case (recorded req r)
  then show ?thesis using recorded_held[OF recorded(1) assms recorded(2)] by (simp add: recorded_def)
next
  case (released r)
  then show ?thesis using released_conserves assms by simp
qed (simp_all add: same_tables_facts)

end
