(* ===== verification/StockProps.thy ===== *)
theory StockProps
  imports Stock "HOL-Library.Multiset"
begin

text \<open>
  The properties of the catalog service: conservation of stock over every history, at most one
  reservation per checkout attempt and the answers to repeated requests, atomicity of failing
  calls, what a reservation decides and takes, and the release that undoes it.
\<close>

section \<open>Calls that go through\<close>

definition enough_for :: "product list \<Rightarrow> item \<Rightarrow> bool" where
  "enough_for ps i \<longleftrightarrow>
     (\<exists>p \<in> set ps. pr_active p \<and> uuid_key (it_product i) = Some (pr_id p) \<and>
        it_quantity i \<le> pr_available p)"

definition requested :: "item list \<Rightarrow> string \<Rightarrow> int" where
  "requested items k = (\<Sum>i\<leftarrow>items. if uuid_key (it_product i) = Some k then it_quantity i else 0)"

definition no_failures :: "env \<Rightarrow> bool" where
  "no_failures e \<longleftrightarrow> (\<forall>l. \<not> fails e l) \<and> commit_of e = CommitOk"

lemma wrap64_add [simp]: "wrap64 (wrap64 a + b) = wrap64 (a + b)" "wrap64 (a + wrap64 b) = wrap64 (a + b)"
proof -
  have "(((a + 2 ^ 63) mod 2 ^ 64 - 2 ^ 63) + b + 2 ^ 63) mod 2 ^ 64 = (a + b + 2 ^ 63) mod (2 ^ 64 :: int)"
    by (simp add: mod_simps algebra_simps)
  then show "wrap64 (wrap64 a + b) = wrap64 (a + b)" by (simp add: wrap64_def)
  have "(a + ((b + 2 ^ 63) mod 2 ^ 64 - 2 ^ 63) + 2 ^ 63) mod 2 ^ 64 = (a + b + 2 ^ 63) mod (2 ^ 64 :: int)"
    by (simp add: mod_simps algebra_simps)
  then show "wrap64 (a + wrap64 b) = wrap64 (a + b)" by (simp add: wrap64_def)
qed

lemma active_found:
  assumes "products_ok ps" and "uuid_key a = Some k"
  shows "row_find pr_id k (filter pr_active ps) = Some p \<longleftrightarrow> p \<in> set ps \<and> pr_active p \<and> pr_id p = k"
proof -
  have "distinct (map pr_id (filter pr_active ps))"
    using assms(1) by (simp add: products_ok_def distinct_map_filter)
  then show ?thesis by (auto simp: row_find_Some_iff)
qed

lemma lock_item_total:
  assumes "products_ok ps" and "no_failures e" and "\<forall>p \<in> set ps. pr_currency p = cur"
    and "IsUUID (it_product i)" and "bk_currency b \<in> {[], cur}"
  obtains b' where "lock_item e ps i b = Inr b'" "bk_currency b' \<in> {[], cur}"
    "bk_shortages b' = [] \<longleftrightarrow> bk_shortages b = [] \<and> enough_for ps i"
proof -
  obtain k where k: "uuid_key (it_product i) = Some k" using assms(4) IsUUID_has_key by blast
  let ?q = "query_row e (''lock product '' @ it_product i) pr_id (it_product i) (filter pr_active ps)"
  have d: "distinct (map pr_id ps)" using assms(1) by (simp add: products_ok_def)
  show ?thesis
  proof (cases "row_find pr_id k (filter pr_active ps)")
    case None
    then have "\<not> enough_for ps i" using k by (auto simp: enough_for_def row_find_None_iff)
    moreover have "?q = Inl NoRows" using None k assms(2) by (simp add: query_row_NoRows no_failures_def)
    ultimately show ?thesis using assms(5)
      by (intro that[of "b\<lparr>bk_shortages := bk_shortages b @ [\<lparr>sh_product = it_product i,
            sh_requested = it_quantity i, sh_available = 0\<rparr>]\<rparr>"]) (auto simp: lock_item_def)
  next
    case (Some p)
    then have p: "p \<in> set ps" "pr_active p" "pr_id p = k" using active_found[OF assms(1) k] by blast+
    have "enough_for ps i \<longleftrightarrow> it_quantity i \<le> pr_available p"
    proof
      assume "enough_for ps i"
      then obtain q where q: "q \<in> set ps" "pr_id q = pr_id p" "it_quantity i \<le> pr_available q"
        using k p(3) by (auto simp: enough_for_def)
      then have "q = p" using key_unique[OF d] p(1) by blast
      then show "it_quantity i \<le> pr_available p" using q by simp
    qed (use p k in \<open>auto simp: enough_for_def\<close>)
    moreover have "?q = Inr p" using Some k assms(2) by (simp add: query_row_Inr no_failures_def)
    moreover have "pr_currency p = cur" using p assms(3) by blast
    ultimately show ?thesis
    proof (cases "pr_available p < it_quantity i")
      case True
      let ?b = "b\<lparr>bk_shortages := bk_shortages b @ [\<lparr>sh_product = it_product i,
        sh_requested = it_quantity i, sh_available = pr_available p\<rparr>]\<rparr>"
      have "lock_item e ps i b = Inr ?b" using \<open>?q = Inr p\<close> True by (simp add: lock_item_def)
      then show ?thesis
        by (rule that) (use True assms(5) \<open>enough_for ps i \<longleftrightarrow> it_quantity i \<le> pr_available p\<close> in auto)
    next
      case False
      let ?b = "b\<lparr>bk_reserved := bk_reserved b @
           [\<lparr>rv_product = pr_id p, rv_name = pr_name p, rv_quantity = it_quantity i,
             rv_price = pr_price p, rv_currency = pr_currency p\<rparr>],
         bk_total := wrap64 (bk_total b + wrap64 (pr_price p * it_quantity i)),
         bk_currency := pr_currency p\<rparr>"
      have "lock_item e ps i b = Inr ?b"
        using \<open>?q = Inr p\<close> \<open>pr_currency p = cur\<close> False assms(5) by (auto simp: lock_item_def)
      then show ?thesis
        by (rule that) (use False \<open>pr_currency p = cur\<close>
            \<open>enough_for ps i \<longleftrightarrow> it_quantity i \<le> pr_available p\<close> in auto)
    qed
  qed
qed

lemma lock_items_total:
  assumes "products_ok ps" and "no_failures e" and "\<forall>p \<in> set ps. pr_currency p = cur"
    and "\<forall>i \<in> set items. IsUUID (it_product i)" and "bk_currency b \<in> {[], cur}"
  shows "\<exists>b'. for_each (lock_item e ps) items b = Inr b' \<and>
    (bk_shortages b' = [] \<longleftrightarrow> bk_shortages b = [] \<and> (\<forall>i \<in> set items. enough_for ps i))"
  using assms(4,5)
proof (induction items arbitrary: b)
  case (Cons i items)
  obtain b1 where b1: "lock_item e ps i b = Inr b1" "bk_currency b1 \<in> {[], cur}"
      "bk_shortages b1 = [] \<longleftrightarrow> bk_shortages b = [] \<and> enough_for ps i"
    using lock_item_total[OF assms(1-3), of i b] Cons.prems by auto
  then show ?case using Cons.IH[of b1] Cons.prems by auto
qed simp

lemma lock_items_amount:
  assumes "for_each (lock_item e ps) items b = Inr b'" and "bk_shortages b' = []"
  shows "\<exists>vs. bk_reserved b' = bk_reserved b @ vs \<and> list_all2 (reserves ps) items vs \<and>
    (vs = [] \<and> bk_total b' = bk_total b \<or>
     bk_total b' = wrap64 (bk_total b + (\<Sum>v\<leftarrow>vs. rv_price v * rv_quantity v)))"
  using assms
proof (induction items arbitrary: b)
  case (Cons i items)
  then obtain b1 where b1: "lock_item e ps i b = Inr b1" "for_each (lock_item e ps) items b1 = Inr b'"
    by (auto simp: err_simps)
  then have "bk_shortages b1 = []" using Cons.prems(2) shortages_kept_all by metis
  then obtain v where v: "reserves ps i v" "bk_reserved b1 = bk_reserved b @ [v]"
      "bk_total b1 = wrap64 (bk_total b + rv_price v * rv_quantity v)"
    using lock_item_reserves[OF b1(1)] by auto
  then show ?case using Cons.IH[OF b1(2) Cons.prems(2)]
    by (fastforce simp: list_all2_Cons1 add.assoc)
qed simp

lemma reserves_taken:
  assumes "list_all2 (reserves ps) items vs"
  shows "taken vs k = requested items k"
  using assms
  by (induction rule: list_all2_induct) (auto simp: requested_def reserves_def)

lemma requested_mset:
  "requested items k =
     (\<Sum>i\<in>#mset items. if uuid_key (it_product i) = Some k then it_quantity i else 0)"
  by (simp add: requested_def flip: sum_mset_sum_list)

lemma requested_sort [simp]: "requested (sort_key f items) k = requested items k"
  by (simp add: requested_mset)

lemma reserves_keys:
  "list_all2 (reserves ps) items vs \<Longrightarrow>
     map (\<lambda>v. Some (rv_product v)) vs = map (\<lambda>i. uuid_key (it_product i)) items"
  by (induction rule: list_all2_induct) (auto simp: reserves_def)

definition affordable :: "product list \<Rightarrow> reserved_item list \<Rightarrow> bool" where
  "affordable ps vs \<longleftrightarrow> distinct (map rv_product vs) \<and>
     (\<forall>v \<in> set vs. 1 \<le> rv_quantity v \<and> rv_quantity v \<le> 99 \<and>
        (\<exists>p \<in> set ps. pr_id p = rv_product v \<and> rv_quantity v \<le> pr_available p))"

lemma reserves_affordable:
  assumes "list_all2 (reserves ps) items vs" and "small_items items"
    and "distinct (map (\<lambda>i. uuid_key (it_product i)) items)"
  shows "affordable ps vs"
proof -
  have "distinct (map Some (map rv_product vs))"
    using reserves_keys[OF assms(1)] assms(3) by (simp only: list.map_comp comp_def)
  then have "distinct (map rv_product vs)" by (rule distinct_map[THEN iffD1, THEN conjunct1])
  moreover have "\<forall>v \<in> set vs. 1 \<le> rv_quantity v \<and> rv_quantity v \<le> 99 \<and>
        (\<exists>p \<in> set ps. pr_id p = rv_product v \<and> rv_quantity v \<le> pr_available p)"
    using assms(1,2) by (induction rule: list_all2_induct) (auto simp: reserves_def small_items_def)
  ultimately show ?thesis by (simp add: affordable_def)
qed

lemma decrement_total:
  assumes "products_ok ps" and "affordable ps vs" and "no_failures e"
  shows "\<exists>ps'. for_each (decrement e) vs ps = Inr ps'"
  using assms(1,2)
proof (induction vs arbitrary: ps)
  case (Cons v vs)
  obtain p where p: "p \<in> set ps" "pr_id p = rv_product v" "rv_quantity v \<le> pr_available p"
      "1 \<le> rv_quantity v" "rv_quantity v \<le> 99"
    using Cons.prems(2) by (auto simp: affordable_def)
  let ?f = "\<lambda>p. p\<lparr>pr_available := pr_available p - rv_quantity v\<rparr>"
  have d: "distinct (map pr_id ps)" and ok: "0 \<le> pr_available p" "pr_available p < 2 ^ 31"
      "uuid_key (pr_id p) = Some (pr_id p)"
    using Cons.prems(1) p(1) by (auto simp: products_ok_def)
  have chk: "\<forall>q \<in> set ps. pr_id q = rv_product v \<longrightarrow> 0 \<le> pr_available (?f q) \<and> pr_available (?f q) < 2 ^ 31"
  proof (intro ballI impI)
    fix q assume "q \<in> set ps" "pr_id q = rv_product v"
    then have "q = p" using key_unique[OF d] p(1,2) by metis
    then show "0 \<le> pr_available (?f q) \<and> pr_available (?f q) < 2 ^ 31" using p(3,4) ok by simp
  qed
  have dec: "decrement e v ps = Inr (row_update pr_id (rv_product v) ?f ps)"
    unfolding decrement_def using assms(3) p(4,5) ok(3)[unfolded p(2)] chk
    by (simp add: wrap_Inr andthen_Inr int4_Inr exec_update_Inr no_failures_def)
  moreover have "affordable (row_update pr_id (rv_product v) ?f ps) vs"
  proof -
    have "\<exists>q \<in> set (row_update pr_id (rv_product v) ?f ps). pr_id q = rv_product w \<and> rv_quantity w \<le> pr_available q"
      if w: "w \<in> set vs" for w
    proof -
      obtain q where q: "q \<in> set ps" "pr_id q = rv_product w" "rv_quantity w \<le> pr_available q"
        using Cons.prems(2) w unfolding affordable_def by auto
      have "rv_product w \<in> rv_product ` set vs" using w by simp
      moreover have "rv_product v \<notin> rv_product ` set vs" using Cons.prems(2) by (simp add: affordable_def)
      ultimately have "rv_product w \<noteq> rv_product v" by metis
      with q have "q \<in> set (row_update pr_id (rv_product v) ?f ps)" by (simp add: set_row_update)
      then show ?thesis using q by blast
    qed
    then show ?thesis using Cons.prems(2) by (simp add: affordable_def)
  qed
  moreover have "products_ok (row_update pr_id (rv_product v) ?f ps)"
  proof -
    have "rv_product v \<in> pr_id ` set ps" using p(1,2) by (metis image_eqI)
    then show ?thesis using decrement_step[OF dec Cons.prems(1)] by blast
  qed
  ultimately show ?case using Cons.IH by auto
qed simp

lemma insert_items_total:
  assumes "affordable ps vs" and "no_failures e"
    and "\<And>v. v \<in> set vs \<Longrightarrow> uuid_key (rv_product v) = Some (rv_product v) \<and> rv_product v \<in> pr_id ` set ps'"
    and "\<And>v. v \<in> set vs \<Longrightarrow> (rid, rv_product v) \<notin> row_key ` set rows"
  shows "\<exists>rows'. for_each (insert_item e rid ps') vs rows = Inr rows'"
  using assms(1,3,4)
proof (induction vs arbitrary: rows)
  case (Cons v vs)
  let ?r = "\<lparr>rt_reservation = rid, rt_product = rv_product v, rt_quantity = rv_quantity v\<rparr>"
  have "row_find row_key (rid, rv_product v) rows = None" "row_find pr_id (rv_product v) ps' \<noteq> None"
    using Cons.prems(2,3)[of v] by (auto simp: row_find_None_iff)
  moreover have "1 \<le> rv_quantity v \<and> rv_quantity v \<le> 99" using Cons.prems(1) by (simp add: affordable_def)
  ultimately have "insert_item e rid ps' v rows = Inr (rows @ [?r])"
    using Cons.prems(2)[of v] assms(2)
    by (simp add: insert_item_def wrap_Inr andthen_Inr int4_Inr as_uuid_Inr exec_insert_Inr no_failures_def)
  moreover have "\<exists>rows'. for_each (insert_item e rid ps') vs (rows @ [?r]) = Inr rows'"
  proof (rule Cons.IH)
    show "affordable ps vs" using Cons.prems(1) by (simp add: affordable_def)
    fix w assume w: "w \<in> set vs"
    have "rv_product w \<in> rv_product ` set vs" using w by simp
    moreover have "rv_product v \<notin> rv_product ` set vs" using Cons.prems(1) by (simp add: affordable_def)
    ultimately have "rv_product w \<noteq> rv_product v" by metis
    then show "(rid, rv_product w) \<notin> row_key ` set (rows @ [?r])" using Cons.prems(3)[of w] w by auto
  qed (use Cons.prems(2) in simp)
  ultimately show ?case by auto
qed simp

text \<open>A new response is recorded when the identifiers drawn are new and every call succeeds.\<close>

lemma record_reservation_total:
  assumes "catalog_ok s" and "no_failures e" and "uuid_key (rq_attempt req) = Some a"
    and "a \<notin> rs_attempt ` set (ct_reservations s)"
    and r: "uuid_key (rr_id r) = Some (rr_id r)" "rr_id r \<notin> rs_id ` set (ct_reservations s)"
      "rr_status r = ''active'' \<or> rr_status r = ''failed'' \<and> rr_items r = []"
      "affordable (ct_products s) (rr_items r)"
    and ob: "\<And>t. format_uuid (rand e t) \<notin> ob_event_id ` set (ct_outbox s)"
  shows "\<exists>s'. record_reservation e c req r s = Inr s'"
proof -
  have pok: "products_ok (ct_products s)" using assms(1) by (simp add: catalog_ok_def)
  obtain ps where ps: "for_each (decrement e) (rr_items r) (ct_products s) = Inr ps"
    using decrement_total[OF pok r(4) assms(2)] by blast
  have sub: "rv_product ` set (rr_items r) \<subseteq> pr_id ` set (ct_products s)"
    using r(4) unfolding affordable_def by (metis image_eqI image_subsetI)
  have "products_like ps (ct_products s)" using decrement_all[OF ps pok sub] by blast
  then have ids: "pr_id ` set ps = pr_id ` set (ct_products s)" by (metis products_like_ids list.set_map)
  have "(rr_id r, rv_product v) \<notin> row_key ` set (ct_rows s)" for v
    using assms(1) r(2) by (auto simp: catalog_ok_def rows_ok_def)
  moreover have "uuid_key (rv_product v) = Some (rv_product v) \<and> rv_product v \<in> pr_id ` set ps"
    if "v \<in> set (rr_items r)" for v
    using that sub pok unfolding ids products_ok_def by auto
  ultimately obtain rows where rows: "for_each (insert_item e (rr_id r) ps) (rr_items r) (ct_rows s) = Inr rows"
    using insert_items_total[OF r(4) assms(2)] by blast
  obtain rs where rs: "insert_reservation e r (rq_attempt req) (ct_reservations s) = Inr rs"
    using assms(2-4) r(2,3)
    by (auto simp: insert_reservation_def wrap_Inr andthen_Inr as_uuid_Inr exec_insert_Inr
        row_find_None_iff no_failures_def)
  have new: "\<exists>v ob. New e c ty prd (rr_id r) pl = Inr v \<and>
      Insert e ''catalog'' tp (rr_id r) v (ct_outbox s) = Inr ob" for ty prd pl tp
  proof -
    obtain v where v: "New e c ty prd (rr_id r) pl = Inr v" "EventID v = format_uuid (rand e ty)"
      using assms(2) by (auto simp: New_Inr no_failures_def)
    have "validSchema ''catalog''" by (simp add: validSchema_def)
    then have "\<exists>ob. Insert e ''catalog'' tp (rr_id r) v (ct_outbox s) = Inr ob"
      using Insert_New_Inr[OF v(1)] assms(2) r(1) ob v(2)
      by (simp add: no_failures_def row_find_None_iff)
    then show ?thesis using v(1) by blast
  qed
  have m: "io e ''marshal reservation'' = Inr ()" using assms(2) by (simp add: no_failures_def)
  show ?thesis
  proof (cases "rr_status r = ''active''")
    case True
    obtain v ob' where "New e c ''inventory.reserved'' ''catalog-service'' (rr_id r) (reserved_payload req r) = Inr v"
        "Insert e ''catalog'' ''freshflow.inventory.events.v1'' (rr_id r) v (ct_outbox s) = Inr ob'"
      using new by blast
    then show ?thesis using True ps rs rows m unfolding record_reservation_def
      by (simp only: andthen_simps wrap_simps if_True) simp
  next
    case False
    obtain v ob' where "New e c ''inventory.reservation_failed'' ''catalog-service'' (rr_id r) (failed_payload e req r) = Inr v"
        "Insert e ''catalog'' ''freshflow.inventory.events.v1'' (rr_id r) v (ct_outbox s) = Inr ob'"
      using new by blast
    then show ?thesis using False ps rs rows m unfolding record_reservation_def
      by (simp only: andthen_simps wrap_simps if_False) simp
  qed
qed

text \<open>The amount of a valid request fits an \<open>int64\<close> when prices are below \<open>2 ^ 40\<close>.\<close>

lemma amount_bounds:
  assumes "\<forall>v \<in> set vs. 0 \<le> rv_price v \<and> rv_price v < 2 ^ 40 \<and> 1 \<le> rv_quantity v \<and> rv_quantity v \<le> 99"
  shows "0 \<le> (\<Sum>v\<leftarrow>vs. rv_price v * rv_quantity v) \<and>
    (\<Sum>v\<leftarrow>vs. rv_price v * rv_quantity v) \<le> int (length vs) * (99 * 2 ^ 40)"
  using assms
proof (induction vs)
  case (Cons v vs)
  have "rv_price v * rv_quantity v \<le> 2 ^ 40 * 99" using Cons.prems by (intro mult_mono) auto
  moreover have "0 \<le> rv_price v * rv_quantity v" using Cons.prems by simp
  ultimately show ?case using Cons by (auto simp: algebra_simps)
qed simp

lemma reserves_amount:
  assumes "list_all2 (reserves ps) items vs" and "products_ok ps" and "small_items items"
    and "\<forall>p \<in> set ps. pr_price p < 2 ^ 40" and "length items \<le> 100"
  shows "wrap64 (\<Sum>v\<leftarrow>vs. rv_price v * rv_quantity v) = (\<Sum>v\<leftarrow>vs. rv_price v * rv_quantity v)"
proof -
  have "\<forall>v \<in> set vs. 0 \<le> rv_price v \<and> rv_price v < 2 ^ 40 \<and> 1 \<le> rv_quantity v \<and> rv_quantity v \<le> 99"
    using assms(1,3)
    by (induction rule: list_all2_induct)
       (use assms(2,4) in \<open>auto simp: reserves_def small_items_def products_ok_def\<close>)
  moreover have "int (length vs) * (99 * 2 ^ 40) \<le> 100 * (99 * 2 ^ 40)"
    using assms(5) list_all2_lengthD[OF assms(1)] by simp
  ultimately have "0 \<le> (\<Sum>v\<leftarrow>vs. rv_price v * rv_quantity v)"
    "(\<Sum>v\<leftarrow>vs. rv_price v * rv_quantity v) \<le> 100 * (99 * 2 ^ 40)"
    using amount_bounds[of vs] by linarith+
  then show ?thesis by (intro wrap64_id) auto
qed

lemma keys_sorted:
  assumes "distinct (map (\<lambda>i. uuid_key (it_product i)) items)"
  shows "distinct (map (\<lambda>i. uuid_key (it_product i)) (sort_key f items))"
proof -
  have "mset (map (\<lambda>i. uuid_key (it_product i)) (sort_key f items)) =
      mset (map (\<lambda>i. uuid_key (it_product i)) items)" by simp
  then show ?thesis using assms by (metis mset_eq_imp_distinct_iff)
qed

text \<open>The whole call, when nothing fails and the request is new.\<close>

lemma Reserve_goes_through:
  assumes "catalog_ok s" and "validateReserve req = None" and "no_failures e"
    and keys: "distinct (map (\<lambda>i. uuid_key (it_product i)) (rq_items req))"
    and cur: "\<forall>p \<in> set (ct_products s). pr_currency p = cur"
    and att: "uuid_key (rq_attempt req) = Some a" "a \<notin> rs_attempt ` set (ct_reservations s)"
    and new: "format_uuid (rand e ''reservation'') \<notin> rs_id ` set (ct_reservations s)"
      "\<And>t. format_uuid (rand e t) \<notin> ob_event_id ` set (ct_outbox s)"
  obtains b s' where
    "for_each (lock_item e (ct_products s)) (sort_key it_product (rq_items req)) empty_basket = Inr b"
    "bk_shortages b = [] \<longleftrightarrow> (\<forall>i \<in> set (rq_items req). enough_for (ct_products s) i)"
    "Reserve e c req s = (Inr (response_of e req (format_uuid (rand e ''reservation'')) b), s')"
    "recorded req (response_of e req (format_uuid (rand e ''reservation'')) b) s s'"
proof -
  note valid = validateReserve_items[OF assms(2)]
  have pok: "products_ok (ct_products s)" using assms(1) by (simp add: catalog_ok_def)
  let ?items = "sort_key it_product (rq_items req)"
  have "\<forall>i \<in> set ?items. IsUUID (it_product i)" using assms(2)
    by (auto simp: validateReserve_def check_items_valid split: if_splits)
  then obtain b where b: "for_each (lock_item e (ct_products s)) ?items empty_basket = Inr b"
      "bk_shortages b = [] \<longleftrightarrow> (\<forall>i \<in> set ?items. enough_for (ct_products s) i)"
    using lock_items_total[OF pok assms(3) cur, of ?items empty_basket] by (auto simp: empty_basket_def)
  define r where "r = response_of e req (format_uuid (rand e ''reservation'')) b"
  have bt: "built (ct_products s) r" unfolding r_def using b(1) pok valid by (intro response_built) auto
  have "affordable (ct_products s) (bk_reserved b)" if "bk_shortages b = []"
    using lock_items_reserves[OF b(1) that] valid keys_sorted[OF keys]
    by (auto simp: empty_basket_def small_items_def intro!: reserves_affordable)
  then have aff: "affordable (ct_products s) (rr_items r)"
    by (simp add: r_def response_of_def affordable_def)
  have "\<exists>s1. record_reservation e c req r s = Inr s1"
    using aff new
    by (intro record_reservation_total[OF assms(1,3) att]) (auto simp: r_def response_of_def format_uuid_key)
  then obtain s1 where s1: "record_reservation e c req r s = Inr s1" by blast
  have "row_find rs_attempt a (ct_reservations s) = None" using att(2) by (simp add: row_find_None_iff)
  then have q: "query_row e ''find reservation'' rs_attempt (rq_attempt req) (ct_reservations s) = Inl NoRows"
    using att(1) assms(3) by (simp add: query_row_NoRows no_failures_def)
  have u: "NewUUID e ''reservation'' = Inr (format_uuid (rand e ''reservation''))"
    "io e ''advisory lock'' = Inr ()"
    using assms(3) by (simp_all add: NewUUID_Inr no_failures_def)
  have "reserve_tx e c req s = Inr (Commit r, s1)"
    unfolding reserve_tx_def u(2) q
    using b(1) s1 by (simp add: u r_def empty_basket_def[symmetric] Let_def)
  then obtain s' where s': "Reserve e c req s = (Inr r, s')" "same_tables s' s1"
    using assms(3) by (auto simp: Reserve_def with_tx_def no_failures_def split: option.splits)
  have "recorded req r s s1" using s1 pok bt by (rule record_reservation_recorded)
  then have rec: "recorded req r s s'" using s'(2) by (simp add: same_tables_facts)
  have "bk_shortages b = [] \<longleftrightarrow> (\<forall>i \<in> set (rq_items req). enough_for (ct_products s) i)" using b(2) by simp
  then show ?thesis using that[OF b(1)] s'(1) rec unfolding r_def by blast
qed

text \<open>Reservations keep their identity, their attempt and their response for ever.\<close>

definition remembered :: "reservation \<Rightarrow> reservation list \<Rightarrow> bool" where
  "remembered r rs \<longleftrightarrow>
     (\<exists>r' \<in> set rs. rs_id r' = rs_id r \<and> rs_attempt r' = rs_attempt r \<and> rs_response r' = rs_response r)"

lemma remembered_append: "remembered r rs \<Longrightarrow> remembered r (rs @ xs)"
  by (auto simp: remembered_def)

lemma remembered_update:
  "remembered r rs \<Longrightarrow> remembered r (row_update rs_id k (\<lambda>x. x\<lparr>rs_status := st\<rparr>) rs)"
  by (induction rs) (auto simp: remembered_def)

lemma remembered_step:
  assumes "catalog_ok s" and "remembered r (ct_reservations s)"
  shows "remembered r (ct_reservations (catalog_step collate op s))"
  using assms(1)
proof (cases rule: catalog_step_cases[of s collate op])
  case (recorded req resp)
  then show ?thesis using assms(2) remembered_append by (auto simp: recorded_def)
next
  case (released r')
  then show ?thesis using assms(2) remembered_update by (auto simp: released_def)
qed (use assms in \<open>simp add: same_tables_facts\<close>)

lemma remembered_run:
  assumes "catalog_ok s" and "remembered r (ct_reservations s)"
  shows "remembered r (ct_reservations (catalog_run collate ops s))"
  using assms unfolding catalog_run_def
  by (induction ops arbitrary: s) (auto simp: catalog_step_ok remembered_step)

lemma Reserve_again:
  assumes "reservations_ok (ct_reservations s)" and "remembered r (ct_reservations s)"
    and "uuid_key (rq_attempt req) = Some (rs_attempt r)" and "decode_response (rs_response r) = Inr resp"
    and "\<not> fails e ''begin''" "\<not> fails e ''advisory lock''" "\<not> fails e ''find reservation''"
  shows "Reserve e c req s = (Inr resp, s)"
proof -
  obtain r' where r': "r' \<in> set (ct_reservations s)" "rs_attempt r' = rs_attempt r" "rs_response r' = rs_response r"
    using assms(2) by (auto simp: remembered_def)
  then have "row_find rs_attempt (rs_attempt r) (ct_reservations s) = Some r'"
    using assms(1) by (simp add: row_find_Some_iff reservations_ok_def)
  then have "query_row e ''find reservation'' rs_attempt (rq_attempt req) (ct_reservations s) = Inr r'"
    using assms by (simp add: query_row_Inr)
  then have "reserve_tx e c req s = Inr (Abandon resp, s)"
    using assms r' unfolding reserve_tx_def by simp
  then show ?thesis using assms(5) by (simp add: Reserve_def with_tx_def)
qed

text \<open>After a successful call the attempt is remembered with the response the caller got.\<close>

lemma Reserve_remembers:
  assumes "Reserve e c req s = (Inr resp, s')" and "catalog_ok s" and "small_items (rq_items req)"
  shows "\<exists>r. remembered r (ct_reservations s') \<and> uuid_key (rq_attempt req) = Some (rs_attempt r) \<and>
    decode_response (rs_response r) = Inr resp"
  using assms
proof (cases rule: Reserve_cases)
  case same
  obtain v t where tx: "with_tx e (Wrapped ''begin reserve transaction'') (Wrapped ''commit reservation'')
      (reserve_tx e c req) s = (v, t)" by fastforce
  then consider "v = Inr (Abandon resp)" | "v = Inr (Commit resp)" "same_tables s' t"
    using assms(1) by (auto simp: Reserve_def split: sum.splits verdict.splits option.splits if_splits)
  then show ?thesis
  proof cases
    case 1
    then obtain u where "reserve_tx e c req s = Inr (Abandon resp, u)" using tx by (auto simp: with_tx_Abandon)
    then show ?thesis
    proof (cases rule: reserve_tx_cases)
      case (found k r resp')
      then show ?thesis using row_find_SomeD[OF found(4)] same
        by (intro exI[of _ r]) (auto simp: remembered_def)
    qed auto
  next
    case 2
    then have "reserve_tx e c req s = Inr (Commit resp, t)" using tx by (simp add: with_tx_Commit)
    then have "recorded req resp s t"
    proof (cases rule: reserve_tx_cases)
      case (fresh b k)
      then show ?thesis using assms(2,3)
        by (auto intro!: record_reservation_recorded response_built simp: catalog_ok_def)
    qed auto
    then show ?thesis using 2(2) same by (auto simp: recorded_def same_tables_def)
  qed
next
  case (recorded r)
  then have "r = resp" by simp
  then obtain a where a: "uuid_key (rq_attempt req) = Some a" "\<lparr>rs_id = rr_id resp, rs_attempt = a,
      rs_status = rr_status resp, rs_response = json_response resp, rs_expires = map_option pg_time (rr_expires resp)\<rparr>
        \<in> set (ct_reservations s')" (is "?r \<in> _")
    using recorded(1) by (auto simp: recorded_def)
  have "decode_response (rs_response ?r) = Inr resp"
    using recorded(2) \<open>r = resp\<close> by (simp add: built_def decode_response_json)
  moreover have "remembered ?r (ct_reservations s')" unfolding remembered_def using a(2) by blast
  ultimately show ?thesis using a(1) by (intro exI[of _ ?r]) simp
qed

text \<open>A release that reports success found its reservation and, if it was active, released it.\<close>

lemma Release_success:
  assumes "Release e rid s = (Inr u, s')"
  shows "\<exists>r k. uuid_key rid = Some k \<and> row_find rs_id k (ct_reservations s) = Some r \<and>
    (if rs_status r = ''active'' then released r s s' else same_tables s' s)"
proof -
  obtain v t where tx: "with_tx e (Wrapped ''begin release transaction'') (release_commit_error e rid s)
      (release_tx e rid) s = (v, t)"
    by fastforce
  obtain w where w: "v = Inr w" "same_tables s' t"
    using assms tx by (cases v; cases "projr v") (auto simp: Release_def split: bool.splits if_splits)
  obtain u where "release_tx e rid s = Inr (w, u)" "u = t \<or> (\<exists>b. w = Abandon b)"
    using tx w(1) by (cases w) (auto simp: with_tx_Commit with_tx_Abandon)
  then show ?thesis
  proof (cases rule: release_tx_cases)
    case (inactive r k)
    then show ?thesis using w(2) \<open>u = t \<or> _\<close> by auto
  next
    case (active r)
    then have "released r s s'" using w(2) \<open>u = t \<or> _\<close> by (auto simp: released_def same_tables_def)
    then show ?thesis using active(1) by (auto simp: released_def)
  qed
qed

lemma held_rows_none: "\<forall>x \<in> set rows. rt_reservation x \<notin> A \<Longrightarrow> held_rows A rows k = 0"
  by (induction rows) auto

lemma released_row:
  assumes "released r s s'"
  shows "\<exists>x. row_find rs_id (rs_id r) (ct_reservations s') = Some x \<and> rs_status x = ''released''"
  using assms by (auto simp: released_def row_find_update)

text \<open>Releasing what has just been recorded.\<close>

lemma recorded_released:
  assumes "recorded req r s s1" and "catalog_ok s" and "built (ct_products s) r"
    and "rr_status r = ''active''" and "released x s1 s2" and "rs_id x = rr_id r"
  shows "stock (ct_products s2) k = stock (ct_products s) k \<and> held s2 k = held s k"
proof -
  have "rt_reservation y \<noteq> rr_id r" if "y \<in> set (ct_rows s)" for y
    using that assms(1,2) unfolding recorded_def catalog_ok_def rows_ok_def by metis
  then have "held_rows {rr_id r} (ct_rows s1) k = taken (rr_items r) k"
    using assms(1) by (simp add: recorded_def held_new_rows held_rows_none)
  then show ?thesis
    using released_conserves[OF assms(5) recorded_ok[OF assms(1-3)]] recorded_held[OF assms(1-3)] assms(1,6)
    by (simp add: recorded_def)
qed

section \<open>Properties\<close>

lemma catalog_run_conserves:
  "catalog_ok s \<Longrightarrow> stock (ct_products (catalog_run collate ops s)) k + held (catalog_run collate ops s) k =
     stock (ct_products s) k + held s k"
  unfolding catalog_run_def by (induction ops arbitrary: s) (auto simp: catalog_step_ok catalog_step_conserves)

text \<open>
  C1 Conservation of stock: along every history of requests to the catalog service, with any
  pattern of failing calls and lost commits, what is on the shelf of a product plus what active
  reservations hold of it never changes, the shelf never goes negative, and the tables keep
  their invariant.
\<close>

theorem stock_conserved:
  assumes "catalog_ok s"
  shows "catalog_ok (catalog_run collate ops s) \<and>
    stock (ct_products (catalog_run collate ops s)) k + held (catalog_run collate ops s) k =
      stock (ct_products s) k + held s k \<and>
    0 \<le> stock (ct_products (catalog_run collate ops s)) k"
proof -
  have "stock (ct_products (catalog_run collate ops s)) k + held (catalog_run collate ops s) k =
      stock (ct_products s) k + held s k"
    using assms by (rule catalog_run_conserves)
  moreover have ok: "catalog_ok (catalog_run collate ops s)" using assms by (rule catalog_run_ok)
  moreover have "0 \<le> stock ps k" if "\<forall>p \<in> set ps. 0 \<le> pr_available p" for ps
    using that by (induction ps) auto
  ultimately show ?thesis by (simp add: catalog_ok_def products_ok_def)
qed

definition plain_ctx :: ctx where "plain_ctx = \<lparr>ctx_correlation = [], ctx_span = None\<rparr>"

definition shop_product :: "string \<Rightarrow> int \<Rightarrow> int \<Rightarrow> product" where
  "shop_product k n price = \<lparr>pr_id = k, pr_sku = ''APL'', pr_name = ''Apples'', pr_description = [],
     pr_price = price, pr_currency = ''RUB'', pr_available = n, pr_active = True\<rparr>"

definition apples :: string where "apples = ''10000000-0000-4000-8000-000000000001''"
definition milk :: string where "milk = ''10000000-0000-4000-8000-000000000002''"
definition attempt_1 :: string where "attempt_1 = ''20000000-0000-4000-8000-000000000001''"

definition shop :: catalog where
  "shop = \<lparr>ct_products = [shop_product apples 100 24900, shop_product milk 80 10900],
     ct_reservations = [], ct_rows = [], ct_outbox = [], ct_cache = None, ct_expiry = Map.empty\<rparr>"

definition basket_request :: reserve_request where
  "basket_request = \<lparr>rq_attempt = attempt_1,
     rq_items = [\<lparr>it_product = milk, it_quantity = 3\<rparr>, \<lparr>it_product = apples, it_quantity = 2\<rparr>],
     rq_ttl = 900\<rparr>"

lemma shop_keys: "uuid_key apples = Some apples" "uuid_key milk = Some milk" "apples \<noteq> milk"
    "uuid_key attempt_1 = Some attempt_1" "IsUUID apples" "IsUUID milk" "IsUUID attempt_1"
  by (code_simp)+

lemma shop_ok: "catalog_ok shop"
  by (simp add: catalog_ok_def products_ok_def reservations_ok_def rows_ok_def shop_def
      shop_product_def shop_keys)

theorem stock_conserved_witness:
  "catalog_ok (catalog_run id [ReleaseOp quiet_env plain_ctx attempt_1] shop) \<and>
   stock (ct_products (catalog_run id [ReleaseOp quiet_env plain_ctx attempt_1] shop)) milk +
     held (catalog_run id [ReleaseOp quiet_env plain_ctx attempt_1] shop) milk =
     stock (ct_products shop) milk + held shop milk \<and>
   0 \<le> stock (ct_products (catalog_run id [ReleaseOp quiet_env plain_ctx attempt_1] shop)) milk"
  by (rule stock_conserved[OF shop_ok])

text \<open>What is written of a decided reservation: its row, and the event in the outbox.\<close>

definition decided_row :: "string \<Rightarrow> reservation_response \<Rightarrow> reservation" where
  "decided_row a r = \<lparr>rs_id = rr_id r, rs_attempt = a, rs_status = rr_status r,
     rs_response = json_response r, rs_expires = map_option pg_time (rr_expires r)\<rparr>"

text \<open>
  C4 What a reservation decides, when no call fails: in a catalog of one currency, let a valid request
  name each product once (no product in two spellings of its id) under a new checkout attempt, and
  let the ids drawn for the reservation and its event be fresh. It is accepted exactly when
  every product is active and has enough stock. Then each product loses exactly the requested
  quantity, and the total is the sum of price times quantity in 64-bit arithmetic: the sum itself
  whenever all prices are below 2^40. Otherwise the reservation failed, names its shortages, and no
  stock moves. In both cases one row with the attempt, the status and the response is recorded, and
  one event, inventory.reserved or inventory.reservation_failed, goes to the outbox.
\<close>

theorem Reserve_decides:
  assumes "catalog_ok s" and "validateReserve req = None" and "no_failures e"
    and keys: "distinct (map (\<lambda>i. uuid_key (it_product i)) (rq_items req))"
    and cur: "\<forall>p \<in> set (ct_products s). pr_currency p = cur"
    and att: "uuid_key (rq_attempt req) = Some a" "a \<notin> rs_attempt ` set (ct_reservations s)"
    and new: "format_uuid (rand e ''reservation'') \<notin> rs_id ` set (ct_reservations s)"
      "\<And>t. format_uuid (rand e t) \<notin> ob_event_id ` set (ct_outbox s)"
  shows "\<exists>r s' ev p. Reserve e c req s = (Inr r, s') \<and>
    (rr_status r = ''active'' \<longleftrightarrow> (\<forall>i \<in> set (rq_items req). enough_for (ct_products s) i)) \<and>
    (rr_status r = ''active'' \<longrightarrow>
       (\<forall>k. stock (ct_products s') k = stock (ct_products s) k - requested (rq_items req) k) \<and>
       rr_total r = wrap64 (\<Sum>v\<leftarrow>rr_items r. rv_price v * rv_quantity v) \<and>
       ((\<forall>p \<in> set (ct_products s). pr_price p < 2 ^ 40) \<longrightarrow>
          rr_total r = (\<Sum>v\<leftarrow>rr_items r. rv_price v * rv_quantity v)) \<and>
       list_all2 (reserves (ct_products s)) (sort_key it_product (rq_items req)) (rr_items r)) \<and>
    (rr_status r \<noteq> ''active'' \<longrightarrow> rr_status r = ''failed'' \<and> rr_shortages r \<noteq> [] \<and>
       (\<forall>k. stock (ct_products s') k = stock (ct_products s) k)) \<and>
    ct_reservations s' = ct_reservations s @ [decided_row a r] \<and>
    ct_rows s' = ct_rows s @ map (\<lambda>v. \<lparr>rt_reservation = rr_id r, rt_product = rv_product v,
       rt_quantity = rv_quantity v\<rparr>) (rr_items r) \<and>
    ct_outbox s' = ct_outbox s @ [ev] \<and> announces ''freshflow.inventory.events.v1'' ev
      (if rr_status r = ''active'' then ''inventory.reserved'' else ''inventory.reservation_failed'')
      (rr_id r) p"
proof -
  let ?items = "sort_key it_product (rq_items req)"
  obtain b s' where b: "for_each (lock_item e (ct_products s)) ?items empty_basket = Inr b"
      "bk_shortages b = [] \<longleftrightarrow> (\<forall>i \<in> set (rq_items req). enough_for (ct_products s) i)"
    and s': "Reserve e c req s = (Inr (response_of e req (format_uuid (rand e ''reservation'')) b), s')"
      "recorded req (response_of e req (format_uuid (rand e ''reservation'')) b) s s'"
    by (rule Reserve_goes_through[OF assms(1-3) keys cur att new])
  define r where "r = response_of e req (format_uuid (rand e ''reservation'')) b"
  obtain ev p where ev: "ct_outbox s' = ct_outbox s @ [ev]"
      "announces ''freshflow.inventory.events.v1'' ev (if rr_status r = ''active''
         then ''inventory.reserved'' else ''inventory.reservation_failed'') (rr_id r) p"
    using s'(2)[folded r_def] unfolding recorded_def by blast
  have st: "rr_status r = ''active'' \<and> bk_shortages b = [] \<or>
      rr_status r = ''failed'' \<and> rr_items r = [] \<and> bk_shortages b \<noteq> [] \<and> rr_shortages r = bk_shortages b"
    by (simp add: r_def response_of_def)
  have act: "list_all2 (reserves (ct_products s)) ?items (rr_items r) \<and>
      rr_total r = wrap64 (\<Sum>v\<leftarrow>rr_items r. rv_price v * rv_quantity v) \<and>
      ((\<forall>p \<in> set (ct_products s). pr_price p < 2 ^ 40) \<longrightarrow>
        rr_total r = (\<Sum>v\<leftarrow>rr_items r. rv_price v * rv_quantity v))" if none: "bk_shortages b = []"
  proof -
    have all: "list_all2 (reserves (ct_products s)) ?items (rr_items r)"
      and tot: "rr_items r = [] \<and> rr_total r = 0 \<or>
        rr_total r = wrap64 (\<Sum>v\<leftarrow>rr_items r. rv_price v * rv_quantity v)"
      using lock_items_amount[OF b(1) none] none by (auto simp: r_def response_of_def empty_basket_def)
    have "length ?items \<le> 100" "small_items ?items"
      using assms(2) validateReserve_items[OF assms(2)]
      by (auto simp: validateReserve_def small_items_def split: if_splits)
    moreover have "wrap64 0 = 0" by (simp add: wrap64_id)
    ultimately show ?thesis
      using all tot reserves_amount[OF all] assms(1) by (auto simp: catalog_ok_def)
  qed
  have rec: "ct_reservations s' = ct_reservations s @ [decided_row a r]"
    using s'(2)[folded r_def] att(1) by (auto simp: recorded_def decided_row_def)
  show ?thesis
    using s'[folded r_def] st b(2) act reserves_taken ev rec
    by (intro exI[of _ r] exI[of _ s'] exI[of _ ev] exI[of _ p] conjI) (auto simp: recorded_def)
qed

lemma basket_request_valid: "validateReserve basket_request = None"
  using shop_keys by (simp add: validateReserve_def basket_request_def)

lemma basket_request_fits: "\<forall>i \<in> set (rq_items basket_request). enough_for (ct_products shop) i"
  using shop_keys by (simp add: basket_request_def shop_def shop_product_def enough_for_def)

theorem Reserve_decides_witness:
  "\<exists>r s' ev p. Reserve quiet_env plain_ctx basket_request shop = (Inr r, s') \<and> rr_status r = ''active'' \<and>
     stock (ct_products s') milk = 77 \<and> stock (ct_products s') apples = 98 \<and>
     rr_total r = (\<Sum>v\<leftarrow>rr_items r. rv_price v * rv_quantity v) \<and>
     ct_reservations s' = [decided_row attempt_1 r] \<and> ct_outbox s' = [ev] \<and>
     announces ''freshflow.inventory.events.v1'' ev ''inventory.reserved'' (rr_id r) p"
proof -
  have "uuid_key (rq_attempt basket_request) = Some attempt_1"
    by (simp add: basket_request_def shop_keys)
  note decided = Reserve_decides[OF shop_ok basket_request_valid _ _ _ this, of quiet_env "''RUB''" plain_ctx]
  have "\<exists>r s' ev p. Reserve quiet_env plain_ctx basket_request shop = (Inr r, s') \<and> rr_status r = ''active'' \<and>
     (\<forall>k. stock (ct_products s') k = stock (ct_products shop) k - requested (rq_items basket_request) k) \<and>
     rr_total r = (\<Sum>v\<leftarrow>rr_items r. rv_price v * rv_quantity v) \<and>
     ct_reservations s' = ct_reservations shop @ [decided_row attempt_1 r] \<and>
     ct_outbox s' = ct_outbox shop @ [ev] \<and>
     announces ''freshflow.inventory.events.v1'' ev ''inventory.reserved'' (rr_id r) p"
    using decided basket_request_fits shop_keys
    by (auto simp: basket_request_def shop_def shop_product_def no_failures_def quiet_env_def) 
  moreover have "requested (rq_items basket_request) milk = 3" "requested (rq_items basket_request) apples = 2"
      "stock (ct_products shop) milk = 80" "stock (ct_products shop) apples = 100"
    using shop_keys by (simp_all add: requested_def basket_request_def shop_def shop_product_def)
  ultimately show ?thesis by (force simp: shop_def)
qed

text \<open>
  C6 At most one reservation per checkout attempt: once an attempt is recorded, no further call of
  \<open>Reserve\<close> for it, in any spelling of its UUID and whatever fails, changes anything.
\<close>

theorem Reserve_at_most_once:
  assumes "uuid_key (rq_attempt req) = Some k" and "k \<in> rs_attempt ` set (ct_reservations s)"
    and "catalog_ok s" and "validateReserve req = None"
  shows "snd (Reserve e c req s) = s"
proof -
  have "small_items (rq_items req)" using validateReserve_items[OF assms(4)] by blast
  then show ?thesis
    using assms(1-3) by (cases "Reserve e c req s") (auto elim!: Reserve_cases simp: recorded_def)
qed

definition failed_response :: reservation_response where
  "failed_response = \<lparr>rr_id = attempt_1, rr_status = ''failed'', rr_items = [],
     rr_shortages = [\<lparr>sh_product = apples, sh_requested = 3, sh_available = 0\<rparr>], rr_total = 0,
     rr_currency = [], rr_expires = None\<rparr>"

definition shop_failed :: catalog where
  "shop_failed = shop\<lparr>ct_reservations := [\<lparr>rs_id = attempt_1, rs_attempt = attempt_1,
     rs_status = ''failed'', rs_response = json_response failed_response, rs_expires = None\<rparr>]\<rparr>"

lemma shop_failed_ok: "catalog_ok shop_failed"
proof -
  have "response_ok failed_response" by (simp add: response_ok_def failed_response_def int64_def)
  then have "decode_response (json_response failed_response) = Inr failed_response"
    by (rule decode_response_json)
  moreover have "rr_id failed_response = attempt_1" by (simp add: failed_response_def)
  ultimately show ?thesis
    using shop_ok shop_keys
    by (simp add: catalog_ok_def shop_failed_def reservations_ok_def reservation_ok_def rows_ok_def shop_def)
qed

theorem Reserve_at_most_once_witness:
  "snd (Reserve quiet_env plain_ctx basket_request shop_failed) = shop_failed"
proof (rule Reserve_at_most_once[OF _ _ shop_failed_ok basket_request_valid])
  show "uuid_key (rq_attempt basket_request) = Some attempt_1"
    by (simp add: basket_request_def shop_keys)
qed (simp add: shop_failed_def)

text \<open>
  C5 Idempotence of a reservation: after a call that returned a response, a repeated call for the
  same checkout attempt, any history later, returns the same response and changes nothing.
\<close>

theorem Reserve_idempotent:
  assumes "Reserve e c req s = (Inr resp, s1)" and "catalog_ok s" and "validateReserve req = None"
    and "uuid_key (rq_attempt req') = uuid_key (rq_attempt req)"
    and "\<not> fails e' ''begin''" "\<not> fails e' ''advisory lock''" "\<not> fails e' ''find reservation''"
  shows "Reserve e' c' req' (catalog_run collate ops s1) = (Inr resp, catalog_run collate ops s1)"
proof -
  have small: "small_items (rq_items req)" using validateReserve_items[OF assms(3)] by blast
  have ok: "catalog_ok s1"
    using assms(1,2) small by (rule Reserve_cases) (use assms(2) recorded_ok in auto)
  obtain r where "remembered r (ct_reservations s1)" "uuid_key (rq_attempt req) = Some (rs_attempt r)"
      "decode_response (rs_response r) = Inr resp"
    using Reserve_remembers[OF assms(1,2) small] by blast
  then show ?thesis
    using catalog_run_ok[OF ok] remembered_run[OF ok] assms(4-7)
    by (intro Reserve_again[of _ r]) (auto simp: catalog_ok_def)
qed

lemma shop_run:
  "case Reserve quiet_env plain_ctx basket_request shop of
     (Inr r, s1) \<Rightarrow> rr_status r = ''active'' \<and> is_ok (fst (Release quiet_env (rr_id r) s1))
   | _ \<Rightarrow> False"
  by code_simp

lemma shop_reserved:
  obtains r s1 s2 where "Reserve quiet_env plain_ctx basket_request shop = (Inr r, s1)"
    "rr_status r = ''active''" "Release quiet_env (rr_id r) s1 = (Inr (), s2)"
  using shop_run by (auto simp: is_ok_iff fst_def split: prod.splits sum.splits)

theorem Reserve_idempotent_witness:
  "\<exists>r s1. Reserve quiet_env plain_ctx basket_request shop = (Inr r, s1) \<and>
     Reserve quiet_env plain_ctx basket_request (catalog_run id [CacheExpires] s1) =
       (Inr r, catalog_run id [CacheExpires] s1)"
proof -
  obtain r s1 where r: "Reserve quiet_env plain_ctx basket_request shop = (Inr r, s1)"
    using shop_reserved by blast
  then show ?thesis
    using Reserve_idempotent[OF r shop_ok basket_request_valid, of basket_request quiet_env plain_ctx id "[CacheExpires]"]
    by (auto simp: quiet_env_def)
qed

text \<open>
  C8 A call of \<open>Reserve\<close> or \<open>Release\<close> that returns an error leaves the state as it was, unless the
  commit took effect and only its answer was lost.
\<close>

theorem catalog_errors_atomic:
  assumes "catalog_ok s" and "validateReserve req = None" and "commit_of e \<noteq> CommitLost"
    and "Reserve e c req s = (Inl err, s1)" and "Release e rid s = (Inl err', s2)"
  shows "s1 = s \<and> s2 = s"
proof
  have "small_items (rq_items req)" using validateReserve_items[OF assms(2)] by blast
  then show "s1 = s" using assms by (auto elim!: Reserve_cases)
  obtain v t where tx: "with_tx e (Wrapped ''begin release transaction'') (release_commit_error e rid s)
      (release_tx e rid) s = (v, t)"
    by fastforce
  have "v = Inl err' \<and> s2 = t"
  proof (cases v)
    case (Inl x)
    then show ?thesis using assms(5) by (simp add: Release_def tx)
  next
    case (Inr x)
    then have "fst (Release e rid s) = Inr ()"
      unfolding Release_def tx by (cases "x = Commit True"; cases x) simp_all
    then show ?thesis using assms(5) by simp
  qed
  with tx have "with_tx e (Wrapped ''begin release transaction'') (release_commit_error e rid s)
      (release_tx e rid) s = (Inl err', s2)" by simp
  then show "s2 = s" using assms(3) by (rule with_tx_error)
qed

theorem catalog_errors_atomic_witness:
  "snd (Reserve (quiet_env\<lparr>fails := (\<lambda>l. l = ''begin'')\<rparr>) plain_ctx basket_request shop) = shop \<and>
   snd (Release (quiet_env\<lparr>fails := (\<lambda>l. l = ''begin'')\<rparr>) attempt_1 shop) = shop"
proof (rule catalog_errors_atomic[OF shop_ok basket_request_valid])
  let ?e = "quiet_env\<lparr>fails := (\<lambda>l. l = ''begin'')\<rparr>"
  show "commit_of ?e \<noteq> CommitLost" by (simp add: quiet_env_def)
  show "Reserve ?e plain_ctx basket_request shop =
      (Inl (Wrapped ''begin reserve transaction'' CallFailed), snd (Reserve ?e plain_ctx basket_request shop))"
    by (simp add: Reserve_def with_tx_def)
  show "Release ?e attempt_1 shop =
      (Inl (Wrapped ''begin release transaction'' CallFailed), snd (Release ?e attempt_1 shop))"
    by (simp add: Release_def with_tx_def)
qed

text \<open>
  C7 Round trip: releasing the reservation that a call has just made puts every product's stock and
  holds back to what they were, and releasing it again changes no table.
\<close>

theorem release_restores:
  assumes "catalog_ok s" and "validateReserve req = None"
    and "Reserve e c req s = (Inr r, s1)" and "rr_status r = ''active''"
    and "rr_id r \<notin> rs_id ` set (ct_reservations s)"
    and "Release e' (rr_id r) s1 = (Inr (), s2)" and "Release e'' (rr_id r) s2 = (res, s3)"
  shows "stock (ct_products s2) k = stock (ct_products s) k \<and> held s2 k = held s k \<and> same_tables s3 s2"
proof -
  have small: "small_items (rq_items req)" using validateReserve_items[OF assms(2)] by blast
  have fresh: "recorded req r s s1 \<and> built (ct_products s) r"
    using assms(3,1) small
  proof (cases rule: Reserve_cases)
    case same
    then obtain x where "x \<in> set (ct_reservations s)" "decode_response (rs_response x) = Inr r"
      using Reserve_remembers[OF assms(3,1) small] unfolding remembered_def by metis
    moreover from this have "rr_id r = rs_id x"
      using assms(1) by (auto simp: catalog_ok_def reservations_ok_def reservation_ok_def)
    ultimately have "rr_id r \<in> rs_id ` set (ct_reservations s)" by simp
    then show ?thesis using assms(5) by blast
  qed auto
  have ok1: "catalog_ok s1" using fresh assms(1) recorded_ok by blast
  obtain x k' where x: "uuid_key (rr_id r) = Some k'" "row_find rs_id k' (ct_reservations s1) = Some x"
      "if rs_status x = ''active'' then released x s1 s2 else same_tables s2 s1"
    using Release_success[OF assms(6)] by blast
  have k': "k' = rr_id r" using x(1) fresh by (simp add: built_def)
  have "rs_status x = ''active''"
    using x(2) fresh assms(4,5) row_find_None_iff[of rs_id "rr_id r" "ct_reservations s"]
    by (auto simp: k' recorded_def split: option.splits)
  then have rel: "released x s1 s2" and xid: "rs_id x = rr_id r"
    using x row_find_SomeD[OF x(2)] k' by auto
  obtain y where y: "row_find rs_id (rr_id r) (ct_reservations s2) = Some y" "rs_status y = ''released''"
    using released_row[OF rel] xid by auto
  have "same_tables s3 s2"
    using assms(7)
  proof (cases rule: Release_cases)
    case (released z)
    then show ?thesis using x(1) k' y by (auto simp: released_def)
  qed
  then show ?thesis using recorded_released[OF _ assms(1) _ assms(4) rel xid] fresh by blast
qed

theorem release_restores_witness:
  "\<exists>r s1 s2. Reserve quiet_env plain_ctx basket_request shop = (Inr r, s1) \<and>
     Release quiet_env (rr_id r) s1 = (Inr (), s2) \<and>
     stock (ct_products s2) milk = stock (ct_products shop) milk \<and> held s2 milk = held shop milk \<and>
     same_tables (snd (Release quiet_env (rr_id r) s2)) s2"
proof -
  obtain r s1 s2 where r: "Reserve quiet_env plain_ctx basket_request shop = (Inr r, s1)"
      "rr_status r = ''active''" "Release quiet_env (rr_id r) s1 = (Inr (), s2)"
    using shop_reserved by blast
  have "rr_id r \<notin> rs_id ` set (ct_reservations shop)" by (simp add: shop_def)
  then show ?thesis
    using release_restores[OF shop_ok basket_request_valid r(1,2) _ r(3),
        of quiet_env "fst (Release quiet_env (rr_id r) s2)" "snd (Release quiet_env (rr_id r) s2)" milk]
      r(1,3) by auto
qed

end
