(* ===== verification/Kafkax.thy ===== *)
theory Kafkax
  imports Outbox
begin

text \<open>
  Bounded retries and the dead-letter queue of pkg/platform/kafkax/retry.go. The handler
  is a parameter that may change the consumer's state and sees the number of the attempt; the
  ends of the sleeps (timer or cancelled context) and the broker's answers are parameters too.
  The loop that publishes a dead letter has no bound in the source and none here: it is a
  \<open>partial_function\<close> whose \<open>None\<close> is running forever.
\<close>

section \<open>Base64 (encoding/base64, StdEncoding)\<close>

definition b64_alphabet :: string where
  "b64_alphabet = ''ABCDEFGHIJKLMNOPQRSTUVWXYZabcdefghijklmnopqrstuvwxyz0123456789+/''"

definition b64_char :: "nat \<Rightarrow> char" where
  "b64_char n = b64_alphabet ! n"

definition b64_value :: "char \<Rightarrow> nat option" where
  "b64_value c = map_of (zip b64_alphabet [0..<64]) c"

fun b64_encode :: "byte list \<Rightarrow> string" where
  "b64_encode [] = []"
| "b64_encode [a] =
     (let n = unat a * 65536 in
      [b64_char (n div 262144), b64_char (n div 4096 mod 64), CHR ''='', CHR ''=''])"
| "b64_encode [a, b] =
     (let n = unat a * 65536 + unat b * 256 in
      [b64_char (n div 262144), b64_char (n div 4096 mod 64), b64_char (n div 64 mod 64), CHR ''=''])"
| "b64_encode (a # b # c # rest) =
     (let n = unat a * 65536 + unat b * 256 + unat c in
      [b64_char (n div 262144), b64_char (n div 4096 mod 64), b64_char (n div 64 mod 64),
       b64_char (n mod 64)] @ b64_encode rest)"

definition b64_quad :: "nat \<Rightarrow> nat \<Rightarrow> nat \<Rightarrow> nat \<Rightarrow> byte list" where
  "b64_quad p q r s =
     (let n = p * 262144 + q * 4096 + r * 64 + s in
      [of_nat (n div 65536), of_nat (n div 256 mod 256), of_nat (n mod 256)])"

fun b64_groups :: "string \<Rightarrow> byte list option" where
  "b64_groups [] = Some []"
| "b64_groups (c1 # c2 # c3 # c4 # rest) =
     (if c4 = CHR ''='' then
        (if rest \<noteq> [] then None
         else if c3 = CHR ''='' then
           (case (b64_value c1, b64_value c2) of
              (Some p, Some q) \<Rightarrow> Some (take 1 (b64_quad p q 0 0)) | _ \<Rightarrow> None)
         else
           (case (b64_value c1, b64_value c2, b64_value c3) of
              (Some p, Some q, Some r) \<Rightarrow> Some (take 2 (b64_quad p q r 0)) | _ \<Rightarrow> None))
      else
        (case (b64_value c1, b64_value c2, b64_value c3, b64_value c4) of
           (Some p, Some q, Some r, Some s) \<Rightarrow>
             (case b64_groups rest of None \<Rightarrow> None | Some bs \<Rightarrow> Some (b64_quad p q r s @ bs))
         | _ \<Rightarrow> None))"
| "b64_groups _ = None"

text \<open>\<open>DecodeString\<close> skips carriage returns and line feeds.\<close>

definition b64_decode :: "string \<Rightarrow> byte list option" where
  "b64_decode s = b64_groups (filter (\<lambda>c. c \<noteq> CHR 0x0A \<and> c \<noteq> CHR 0x0D) s)"

section \<open>Messages and dead letters\<close>

record message =
  msg_topic :: string
  msg_partition :: int
  msg_offset :: int
  msg_key :: "byte list"
  msg_value :: "byte list"

record dead_letter =
  SourceTopic :: string
  SourcePartition :: int
  SourceOffset :: int
  DlConsumer :: string
  Attempts :: int
  FailureReason :: string
  FailedAt :: time
  OriginalValueBase64 :: string

datatype outcome = Processed | DeadLettered

definition maxAttempts :: nat where "maxAttempts = 3"
definition maxErrorLen :: nat where "maxErrorLen = 512"

definition DLQTopic :: "string \<Rightarrow> string" where
  "DLQTopic sourceTopic = sourceTopic @ ''.dlq''"

definition has_suffix :: "string \<Rightarrow> string \<Rightarrow> bool" where
  "has_suffix s suf \<longleftrightarrow> length suf \<le> length s \<and> drop (length s - length suf) s = suf"

definition is_space :: "char \<Rightarrow> bool" where
  "is_space c \<longleftrightarrow> c \<in> {CHR 0x09, CHR 0x0A, CHR 0x0B, CHR 0x0C, CHR 0x0D, CHR '' ''}"

definition trim_space :: "string \<Rightarrow> string" where
  "trim_space s = rev (dropWhile is_space (rev (dropWhile is_space s)))"

text \<open>
  The shift in \<open>1<<(attempt-1)\<close> panics on a negative count, so the delay of an attempt below 1
  is \<open>None\<close>.
\<close>

definition retryDelay :: "int \<Rightarrow> int \<Rightarrow> duration option" where
  "retryDelay attempt offset =
     (let a = (if attempt > 5 then 5 else attempt) in
      if a - 1 < 0 then None
      else
        (let base = 200 * millisecond * 2 ^ nat (a - 1);
             jitter = go_mod (wrap64 (offset + wrap64 (a * 37))) 100 * millisecond
         in Some (wrap64 (base + jitter))))"

text \<open>\<open>text\<close> renders an error (\<open>err.Error()\<close>).\<close>

definition sanitizeError :: "(go_error \<Rightarrow> string) \<Rightarrow> go_error option \<Rightarrow> string" where
  "sanitizeError text err =
     (case err of
        None \<Rightarrow> ''unknown consumer failure''
      | Some x \<Rightarrow>
          (let message = map (\<lambda>c. if c = CHR 0x0A then CHR '' '' else c) (text x) in
           if length message > maxErrorLen then take maxErrorLen message else message))"

definition dead_letter_json :: "dead_letter \<Rightarrow> json" where
  "dead_letter_json d = JObj
     [(''source_topic'', JStr (SourceTopic d)), (''source_partition'', JInt (SourcePartition d)),
      (''source_offset'', JInt (SourceOffset d)), (''consumer'', JStr (DlConsumer d)),
      (''attempts'', JInt (Attempts d)), (''failure_reason'', JStr (FailureReason d)),
      (''failed_at'', JTime (FailedAt d)), (''original_value_base64'', JStr (OriginalValueBase64 d))]"

record dlq_record =
  dq_topic :: string
  dq_key :: "byte list"
  dq_value :: json

definition dlq_record_of :: "byte list \<Rightarrow> dead_letter \<Rightarrow> dlq_record" where
  "dlq_record_of key d =
     \<lparr>dq_topic = DLQTopic (SourceTopic d), dq_key = key, dq_value = dead_letter_json d\<rparr>"

text \<open>
  \<open>Publish\<close>: the new content of the dead-letter topics, and whether it returned an error.
\<close>

definition Publish ::
  "produce_outcome \<Rightarrow> byte list \<Rightarrow> dead_letter \<Rightarrow> dlq_record list \<Rightarrow> bool \<times> dlq_record list" where
  "Publish answer key d dlq =
     (case answer of
        Produced \<Rightarrow> (True, dlq @ [dlq_record_of key d])
      | ProduceFailed \<Rightarrow> (False, dlq)
      | ProduceLost \<Rightarrow> (False, dlq @ [dlq_record_of key d]))"

fun to_int32 :: "json \<Rightarrow> int option" where
  "to_int32 (JInt i) = (if - (2 ^ 31) \<le> i \<and> i < 2 ^ 31 then Some i else None)"
| "to_int32 _ = None"

definition DecodeDeadLetter :: "json option \<Rightarrow> go_error + dead_letter \<times> byte list" where
  "DecodeDeadLetter value =
     andthen (wrap ''decode dead letter''
       (andthen (struct_fields value) (\<lambda>kvs.
        andthen (field to_string ''source_topic'' [] kvs) (\<lambda>st.
        andthen (field to_int32 ''source_partition'' 0 kvs) (\<lambda>sp.
        andthen (field to_int ''source_offset'' 0 kvs) (\<lambda>so.
        andthen (field to_string ''consumer'' [] kvs) (\<lambda>co.
        andthen (field to_int ''attempts'' 0 kvs) (\<lambda>att.
        andthen (field to_string ''failure_reason'' [] kvs) (\<lambda>fr.
        andthen (field to_time ''failed_at'' zero_time kvs) (\<lambda>fa.
        andthen (field to_string ''original_value_base64'' [] kvs) (\<lambda>ov.
          Inr \<lparr>SourceTopic = st, SourcePartition = sp, SourceOffset = so, DlConsumer = co,
               Attempts = att, FailureReason = fr, FailedAt = fa, OriginalValueBase64 = ov\<rparr>)))))))))))
       (\<lambda>d.
        if trim_space (SourceTopic d) = []
        then Inl (Failed ''decode dead letter: source_topic is required'')
        else if has_suffix (SourceTopic d) ''.dlq''
        then Inl (Failed ''decode dead letter: source_topic must not be a DLQ topic'')
        else case b64_decode (OriginalValueBase64 d) of
          None \<Rightarrow> Inl (Wrapped ''decode dead letter original value'' CallFailed)
        | Some original \<Rightarrow> Inr (d, original))"

section \<open>Processing one record\<close>

datatype attempts_end = Handled | Exhausted "go_error option" | Cancelled

text \<open>
  The loop \<open>for attempt := 1; attempt <= maxAttempts; attempt++\<close>. \<open>handle n s\<close> is attempt \<open>n\<close>
  in state \<open>s\<close>; \<open>cancelled n\<close> says that the sleep after attempt \<open>n\<close> ends by cancellation.
\<close>

function try_handle ::
  "(nat \<Rightarrow> 's \<Rightarrow> go_error option \<times> 's) \<Rightarrow> (nat \<Rightarrow> bool) \<Rightarrow> go_error option \<Rightarrow> nat \<Rightarrow> 's \<Rightarrow>
   attempts_end \<times> 's" where
  "try_handle handle cancelled lastErr attempt s =
     (if attempt \<le> maxAttempts then
        (case handle attempt s of
           (None, s') \<Rightarrow> (Handled, s')
         | (Some err, s') \<Rightarrow>
             if attempt = maxAttempts then (Exhausted (Some err), s')
             else if cancelled attempt then (Cancelled, s')
             else try_handle handle cancelled (Some err) (attempt + 1) s')
      else (Exhausted lastErr, s))"
  by pat_completeness auto
termination
  by (relation "measure (\<lambda>(h, c, l, attempt, s). maxAttempts + 1 - attempt)") auto

declare try_handle.simps [simp del]

partial_function (option) publish_loop ::
  "(nat \<Rightarrow> produce_outcome) \<Rightarrow> (nat \<Rightarrow> bool) \<Rightarrow> byte list \<Rightarrow> dead_letter \<Rightarrow> nat \<Rightarrow>
   dlq_record list \<Rightarrow> ((go_error + outcome) \<times> dlq_record list) option" where
  "publish_loop answer cancelled key d publishAttempt dlq =
     (case Publish (answer publishAttempt) key d dlq of
        (ok, dlq') \<Rightarrow>
          if ok then Some (Inr DeadLettered, dlq')
          else if cancelled publishAttempt then Some (Inl (Failed ''context canceled''), dlq')
          else publish_loop answer cancelled key d (publishAttempt + 1) dlq')"

definition dead_letter_of ::
  "string \<Rightarrow> message \<Rightarrow> string \<Rightarrow> time \<Rightarrow> dead_letter" where
  "dead_letter_of service m reason now =
     \<lparr>SourceTopic = msg_topic m, SourcePartition = msg_partition m, SourceOffset = msg_offset m,
      DlConsumer = service, Attempts = int maxAttempts, FailureReason = reason, FailedAt = now,
      OriginalValueBase64 = b64_encode (msg_value m)\<rparr>"

definition Process ::
  "string \<Rightarrow> (go_error \<Rightarrow> string) \<Rightarrow> (nat \<Rightarrow> 's \<Rightarrow> go_error option \<times> 's) \<Rightarrow> (nat \<Rightarrow> bool) \<Rightarrow>
   (nat \<Rightarrow> produce_outcome) \<Rightarrow> (nat \<Rightarrow> bool) \<Rightarrow> time \<Rightarrow> message \<Rightarrow> 's \<Rightarrow> dlq_record list \<Rightarrow>
   ((go_error + outcome) \<times> 's \<times> dlq_record list) option" where
  "Process service text handle cancelled answer pub_cancelled now m s dlq =
     (case try_handle handle cancelled None 1 s of
        (Handled, s') \<Rightarrow> Some (Inr Processed, s', dlq)
      | (Cancelled, s') \<Rightarrow> Some (Inl (Failed ''context canceled''), s', dlq)
      | (Exhausted lastErr, s') \<Rightarrow>
          map_option (\<lambda>(r, dlq'). (r, s', dlq'))
            (publish_loop answer pub_cancelled (msg_key m)
               (dead_letter_of service m (sanitizeError text lastErr) now) 1 dlq))"

section \<open>Lemmas\<close>

lemma distinct_alphabet: "distinct b64_alphabet"
  by (simp add: b64_alphabet_def)

lemma length_alphabet: "length b64_alphabet = 64"
  by (simp add: b64_alphabet_def)

lemma b64_value_char [simp]: "n < 64 \<Longrightarrow> b64_value (b64_char n) = Some n"
  using map_of_zip_nth[of b64_alphabet "[0..<64]" n] distinct_alphabet length_alphabet
  by (simp add: b64_value_def b64_char_def)

lemma b64_char_plain: "n < 64 \<Longrightarrow> b64_char n \<notin> {CHR ''='', CHR 0x0A, CHR 0x0D}"
proof -
  assume "n < 64"
  then have "b64_char n \<in> set b64_alphabet" by (simp add: b64_char_def length_alphabet)
  then show ?thesis by (auto simp: b64_alphabet_def)
qed

lemma b64_char_neq [simp]:
  "n < 64 \<Longrightarrow> b64_char n \<noteq> CHR ''=''"
  "n < 64 \<Longrightarrow> b64_char n \<noteq> CHR 0x0A"
  "n < 64 \<Longrightarrow> b64_char n \<noteq> CHR 0x0D"
  using b64_char_plain by auto

lemma quad_digits:
  "n div 262144 * 262144 + (n div 4096 mod 64) * 4096 + (n div 64 mod 64) * 64 + n mod 64 = (n::nat)"
proof -
  define m k j where "m = n div 64" and "k = m div 64" and "j = k div 64"
  define r0 r1 r2 where "r0 = n mod 64" and "r1 = m mod 64" and "r2 = k mod 64"
  have "n = m * 64 + r0" "m = k * 64 + r1" "k = j * 64 + r2"
    unfolding m_def k_def j_def r0_def r1_def r2_def by (rule div_mult_mod_eq[symmetric])+
  then have "j * 262144 + r2 * 4096 + r1 * 64 + r0 = n" by simp
  moreover have "n div 4096 = k" "n div 262144 = j"
    by (simp_all add: m_def k_def j_def flip: div_mult2_eq)
  ultimately show ?thesis by (simp only: m_def[symmetric] r0_def r1_def r2_def)
qed

lemma top_digit: "n < 16777216 \<Longrightarrow> n div 262144 < (64::nat)"
  by (simp add: less_mult_imp_div_less)

lemma bytes_of_sum:
  fixes a b c :: nat
  assumes "b < 256" "c < 256"
  shows "(a * 65536 + b * 256 + c) div 65536 = a"
    and "(a * 65536 + b * 256 + c) div 256 mod 256 = b"
    and "(a * 65536 + b * 256 + c) mod 256 = c"
proof -
  have "((b * 256 + c) + a * 65536) div 65536 = a + (b * 256 + c) div 65536"
    by (rule div_mult_self1) simp
  then show "(a * 65536 + b * 256 + c) div 65536 = a" using assms by (simp add: ac_simps)
  have n: "a * 65536 + b * 256 + c = c + (b + a * 256) * 256" by simp
  show "(a * 65536 + b * 256 + c) mod 256 = c"
    using assms by (subst n) (simp only: mod_mult_self1 mod_less)
  have "(c + (b + a * 256) * 256) div 256 = (b + a * 256) + c div 256"
    by (rule div_mult_self1) simp
  then have "(a * 65536 + b * 256 + c) div 256 = b + a * 256"
    using assms by (subst n) simp
  then show "(a * 65536 + b * 256 + c) div 256 mod 256 = b"
    using assms by (simp only: mod_mult_self1 mod_less)
qed

lemma low_digits_zero:
  fixes a b :: nat
  shows "(a * 65536 + b * 256) mod 64 = 0" and "a * 65536 div 64 mod 64 = 0"
proof -
  have "a * 65536 + b * 256 = (a * 1024 + b * 4) * 64" by simp
  then show "(a * 65536 + b * 256) mod 64 = 0" by (simp only: mod_mult_self2_is_0)
  have "a * 65536 = a * 16 * 64 * 64" by simp
  then have "a * 65536 div 64 = a * 16 * 64" by (simp only: nonzero_mult_div_cancel_right)
  then show "a * 65536 div 64 mod 64 = 0" by (simp only: mod_mult_self2_is_0)
qed

lemma three_bytes_less: "unat (a :: byte) * 65536 + unat (b :: byte) * 256 + unat (c :: byte) < 16777216"
  using byte_less[of a] byte_less[of b] byte_less[of c] by simp

lemma top_digits:
  "(unat (a :: byte) * 65536 + unat (b :: byte) * 256 + unat (c :: byte)) div 262144 < 64"
  "(unat a * 65536 + unat b * 256) div 262144 < 64"
  "unat a * 65536 div 262144 < 64"
  using byte_less[of a] byte_less[of b] byte_less[of c] by (auto intro: top_digit)

lemma b64_quad_bytes:
  fixes a b c :: byte
  assumes "n = unat a * 65536 + unat b * 256 + unat c"
  shows "b64_quad (n div 262144) (n div 4096 mod 64) (n div 64 mod 64) (n mod 64) = [a, b, c]"
  by (simp only: assms b64_quad_def Let_def quad_digits bytes_of_sum[OF byte_less byte_less])
     simp

lemma b64_groups_encode: "b64_groups (b64_encode bs) = Some bs"
proof (induction bs rule: b64_encode.induct)
  case 1
  then show ?case by simp
next
  case (2 a)
  define n where "n = unat a * 65536"
  have n: "n div 262144 < 64" "n div 64 mod 64 = 0" "n mod 64 = 0"
    using top_digits(3)[of a] low_digits_zero(1)[of "unat a" 0] low_digits_zero(2)[of "unat a"]
    by (simp_all only: n_def add_0_right mult_0)
  have "b64_quad (n div 262144) (n div 4096 mod 64) (n div 64 mod 64) (n mod 64) = [a, 0, 0]"
    by (rule b64_quad_bytes) (simp add: n_def)
  with n show ?case by (simp add: Let_def flip: n_def)
next
  case (3 a b)
  define n where "n = unat a * 65536 + unat b * 256"
  have n: "n div 262144 < 64" "n mod 64 = 0"
    using top_digits(2)[of a b] low_digits_zero(1)[of "unat a" "unat b"] by (simp_all only: n_def)
  have "b64_quad (n div 262144) (n div 4096 mod 64) (n div 64 mod 64) (n mod 64) = [a, b, 0]"
    by (rule b64_quad_bytes) (simp add: n_def)
  with n show ?case by (simp add: Let_def flip: n_def)
next
  case (4 a b c rest)
  define n where "n = unat a * 65536 + unat b * 256 + unat c"
  have n: "n div 262144 < 64" using top_digits(1)[of a b c] by (simp only: n_def)
  have "b64_quad (n div 262144) (n div 4096 mod 64) (n div 64 mod 64) (n mod 64) = [a, b, c]"
    by (rule b64_quad_bytes) (rule n_def)
  with n "4.IH" show ?case by (simp add: Let_def flip: n_def)
qed

lemma b64_encode_plain: "filter (\<lambda>c. c \<noteq> CHR 0x0A \<and> c \<noteq> CHR 0x0D) (b64_encode bs) = b64_encode bs"
proof (induction bs rule: b64_encode.induct)
  case (2 a)
  with top_digits(3)[of a] show ?case by (simp del: div_mult_mult1_if mult_div_mod_eq add: Let_def)
next
  case (3 a b)
  with top_digits(2)[of a b] show ?case by (simp add: Let_def)
qed (simp_all add: Let_def top_digits)

lemma b64_roundtrip: "b64_decode (b64_encode bs) = Some bs"
  by (simp add: b64_decode_def b64_encode_plain b64_groups_encode)

text \<open>The state after \<open>n\<close> attempts, and the attempts that failed.\<close>

fun after_attempts :: "(nat \<Rightarrow> 's \<Rightarrow> go_error option \<times> 's) \<Rightarrow> nat \<Rightarrow> 's \<Rightarrow> 's" where
  "after_attempts handle 0 s = s"
| "after_attempts handle (Suc n) s = snd (handle (Suc n) (after_attempts handle n s))"

definition attempt_fails :: "(nat \<Rightarrow> 's \<Rightarrow> go_error option \<times> 's) \<Rightarrow> nat \<Rightarrow> 's \<Rightarrow> bool" where
  "attempt_fails handle n s \<longleftrightarrow> fst (handle n (after_attempts handle (n - 1) s)) \<noteq> None"

lemma publish_loop_log:
  assumes "\<And>i. n \<le> i \<Longrightarrow> i < n + k \<Longrightarrow> answer i = ProduceFailed \<and> \<not> cancelled i"
    and "answer (n + k) = Produced"
  shows "publish_loop answer cancelled key d n dlq =
    Some (Inr DeadLettered, dlq @ [dlq_record_of key d])"
  using assms
proof (induction k arbitrary: n)
  case 0
  then show ?case by (simp add: publish_loop.simps[of answer] Publish_def)
next
  case (Suc k)
  have "answer n = ProduceFailed" "\<not> cancelled n"
    using Suc.prems(1)[of n] by auto
  moreover have "publish_loop answer cancelled key d (n + 1) dlq =
      Some (Inr DeadLettered, dlq @ [dlq_record_of key d])"
    using Suc.prems by (intro Suc.IH) auto
  ultimately show ?case
    by (subst publish_loop.simps) (simp add: Publish_def)
qed

lemma publish_loop_terminates:
  assumes "answer (n + k) = Produced \<or> cancelled (n + k)"
  shows "\<exists>r. publish_loop answer cancelled key d n dlq = Some r"
  using assms
proof (induction k arbitrary: n dlq)
  case 0
  then show ?case
    by (subst publish_loop.simps) (auto simp: Publish_def split: produce_outcome.splits)
next
  case (Suc k)
  have "\<exists>r. publish_loop answer cancelled key d (n + 1) dlq' = Some r" for dlq'
    using Suc.prems by (intro Suc.IH) simp
  then show ?case
    by (subst publish_loop.simps) (auto split: prod.splits)
qed

lemma publish_loop_dead_lettered:
  assumes "publish_loop answer cancelled key d n dlq = Some (Inr out, dlq')"
  shows "out = DeadLettered \<and> dlq_record_of key d \<in> set dlq'"
proof -
  have "\<forall>out. fst r = Inr out \<longrightarrow> out = DeadLettered \<and> dlq_record_of key d \<in> set (snd r)"
    if "publish_loop answer cancelled key d n dlq = Some r" for r
  proof (rule publish_loop.raw_induct[where P = "\<lambda>answer cancelled key d n dlq r.
      \<forall>out. fst r = Inr out \<longrightarrow> out = DeadLettered \<and> dlq_record_of key d \<in> set (snd r)", OF _ that])
    fix f answer cancelled key d n dlq r
    assume IH: "\<And>a c k d n l r. f a c k d n l = Some r \<Longrightarrow>
        \<forall>out. fst r = Inr out \<longrightarrow> out = DeadLettered \<and> dlq_record_of k d \<in> set (snd r)"
      and eq: "(case Publish (answer n) key d dlq of
          (ok, dlq') \<Rightarrow>
            if ok then Some (Inr DeadLettered, dlq')
            else if cancelled n then Some (Inl (Failed ''context canceled''), dlq')
            else f answer cancelled key d (n + 1) dlq') = Some r"
    show "\<forall>out. fst r = Inr out \<longrightarrow> out = DeadLettered \<and> dlq_record_of key d \<in> set (snd r)"
    proof (cases "answer n")
      case Produced
      with eq show ?thesis by (auto simp: Publish_def)
    next
      case ProduceFailed
      with eq show ?thesis by (auto simp: Publish_def split: if_splits dest: IH)
    next
      case ProduceLost
      with eq show ?thesis by (auto simp: Publish_def split: if_splits dest: IH)
    qed
  qed
  from this[OF assms] show ?thesis by simp
qed

lemma try_handle_success:
  assumes "m \<le> k" "k \<le> maxAttempts" "1 \<le> m"
    and "\<And>n. m \<le> n \<Longrightarrow> n < k \<Longrightarrow> attempt_fails handle n s \<and> \<not> cancelled n"
    and "\<not> attempt_fails handle k s"
  shows "try_handle handle cancelled l m (after_attempts handle (m - 1) s) =
    (Handled, after_attempts handle k s)"
  using assms
proof (induction "k - m" arbitrary: m l)
  case 0
  then have [simp]: "m = k" by simp
  obtain i where k: "k = Suc i" using 0 by (cases k) auto
  obtain s' where "handle k (after_attempts handle (k - 1) s) = (None, s')"
    using 0 by (cases "handle k (after_attempts handle (k - 1) s)") (auto simp: attempt_fails_def)
  then show ?case
    using 0 k by (subst try_handle.simps) auto
next
  case (Suc d)
  obtain i where m: "m = Suc i" using Suc.prems by (cases m) auto
  have "attempt_fails handle m s" using Suc.prems(4)[of m] Suc.hyps(2) by simp
  then obtain err s' where "handle m (after_attempts handle (m - 1) s) = (Some err, s')"
    by (cases "handle m (after_attempts handle (m - 1) s)") (auto simp: attempt_fails_def)
  moreover have "try_handle handle cancelled (Some err) (m + 1) (after_attempts handle (m + 1 - 1) s)
      = (Handled, after_attempts handle k s)"
    using Suc.prems Suc.hyps(2) by (intro Suc.hyps(1)) auto
  ultimately show ?case
    using Suc.prems(2) Suc.prems(4)[of m] Suc.hyps(2) m by (subst try_handle.simps) auto
qed

lemma try_handle_exhausted:
  assumes "1 \<le> m" "m \<le> maxAttempts"
    and "\<And>n. m \<le> n \<Longrightarrow> n \<le> maxAttempts \<Longrightarrow> attempt_fails handle n s"
    and "\<And>n. m \<le> n \<Longrightarrow> n < maxAttempts \<Longrightarrow> \<not> cancelled n"
  shows "\<exists>err. try_handle handle cancelled l m (after_attempts handle (m - 1) s) =
    (Exhausted (Some err), after_attempts handle maxAttempts s)"
  using assms
proof (induction "maxAttempts - m" arbitrary: m l)
  case 0
  then have [simp]: "m = maxAttempts" by simp
  obtain i where i: "maxAttempts = Suc i" by (simp add: maxAttempts_def)
  obtain err s' where h: "handle m (after_attempts handle (m - 1) s) = (Some err, s')"
    using 0 by (cases "handle m (after_attempts handle (m - 1) s)") (auto simp: attempt_fails_def)
  then have "after_attempts handle maxAttempts s = s'" by (simp add: i)
  with h show ?case by (subst try_handle.simps) auto
next
  case (Suc d)
  obtain i where m: "m = Suc i" using Suc.prems by (cases m) auto
  have "attempt_fails handle m s" using Suc.prems(2,3) by simp
  then obtain err s' where "handle m (after_attempts handle (m - 1) s) = (Some err, s')"
    by (cases "handle m (after_attempts handle (m - 1) s)") (auto simp: attempt_fails_def)
  moreover have "\<exists>err'. try_handle handle cancelled (Some err) (m + 1)
      (after_attempts handle (m + 1 - 1) s) = (Exhausted (Some err'), after_attempts handle maxAttempts s)"
    using Suc.prems Suc.hyps(2) by (intro Suc.hyps(1)) auto
  ultimately show ?case
    using Suc.prems(2,4) Suc.hyps(2) m by (subst try_handle.simps) auto
qed

lemma has_suffix_append [simp]: "has_suffix (s @ suf) suf"
  by (simp add: has_suffix_def)

lemma dead_letter_json_fields:
  "DecodeDeadLetter (Some (dead_letter_json d)) =
     (if trim_space (SourceTopic d) = []
        then Inl (Failed ''decode dead letter: source_topic is required'')
        else if has_suffix (SourceTopic d) ''.dlq''
        then Inl (Failed ''decode dead letter: source_topic must not be a DLQ topic'')
        else case b64_decode (OriginalValueBase64 d) of
          None \<Rightarrow> Inl (Wrapped ''decode dead letter original value'' CallFailed)
        | Some original \<Rightarrow> Inr (d, original))"
  if "- (2 ^ 31) \<le> SourcePartition d" "SourcePartition d < 2 ^ 31"
    "- (2 ^ 63) \<le> SourceOffset d" "SourceOffset d < 2 ^ 63"
    "- (2 ^ 63) \<le> Attempts d" "Attempts d < 2 ^ 63"
  using that
  by (cases d, hypsubst) (simp add: DecodeDeadLetter_def dead_letter_json_def same_key_def ascii_lower_def)

section \<open>Properties\<close>

definition poison_message :: message where
  "poison_message =
     \<lparr>msg_topic = ''orders'', msg_partition = 2, msg_offset = 11, msg_key = [], msg_value = [110, 111]\<rparr>"

text \<open>
  C9 A transient failure is retried: if attempt \<open>k\<close>, at most the third, is the first that
  succeeds and no sleep before it is cancelled, \<open>Process\<close> reports \<open>Processed\<close>, the state is the
  one after exactly \<open>k\<close> calls of the handler, and no dead letter is written.
\<close>

theorem Process_retries_until_success:
  assumes "1 \<le> k" "k \<le> maxAttempts"
    and "\<And>n. 1 \<le> n \<Longrightarrow> n < k \<Longrightarrow> attempt_fails handle n s \<and> \<not> cancelled n"
    and "\<not> attempt_fails handle k s"
  shows "Process service text handle cancelled answer pub_cancelled now m s dlq =
    Some (Inr Processed, after_attempts handle k s, dlq)"
  using try_handle_success[of 1 k handle s cancelled None] assms by (simp add: Process_def)

theorem Process_retries_until_success_witness:
  "Process ''svc'' (\<lambda>_. []) (\<lambda>n c. (if n = 2 then None else Some CallFailed, c + n)) (\<lambda>_. False)
     (\<lambda>_. Produced) (\<lambda>_. False) 0 poison_message (0::nat) [] =
   Some (Inr Processed, after_attempts (\<lambda>n c. (if n = 2 then None else Some CallFailed, c + n)) 2 0, [])"
  by (rule Process_retries_until_success)
     (simp_all add: maxAttempts_def attempt_fails_def numeral_2_eq_2)

text \<open>
  C10 A poison record is isolated: if the three attempts all fail and, after \<open>p\<close> refused
  publications, the brokers accept the dead letter, \<open>Process\<close> reports \<open>DeadLettered\<close> after
  exactly three calls of the handler, and the dead letter written decodes to the original bytes,
  JSON or not.
\<close>

theorem Process_dead_letters_poison:
  assumes "\<And>n. 1 \<le> n \<Longrightarrow> n \<le> maxAttempts \<Longrightarrow> attempt_fails handle n s"
    and "\<And>n. 1 \<le> n \<Longrightarrow> n < maxAttempts \<Longrightarrow> \<not> cancelled n"
    and "\<And>i. 1 \<le> i \<Longrightarrow> i < 1 + p \<Longrightarrow> answer i = ProduceFailed \<and> \<not> pub_cancelled i"
    and "answer (1 + p) = Produced"
    and "trim_space (msg_topic m) \<noteq> []" and "\<not> has_suffix (msg_topic m) ''.dlq''"
    and "0 \<le> msg_partition m" "msg_partition m < 2 ^ 31" "0 \<le> msg_offset m" "msg_offset m < 2 ^ 63"
  shows "\<exists>d. Process service text handle cancelled answer pub_cancelled now m s dlq =
      Some (Inr DeadLettered, after_attempts handle maxAttempts s, dlq @ [dlq_record_of (msg_key m) d]) \<and>
    Attempts d = 3 \<and> DecodeDeadLetter (Some (dead_letter_json d)) = Inr (d, msg_value m)"
proof -
  obtain err where h: "try_handle handle cancelled None 1 s =
      (Exhausted (Some err), after_attempts handle maxAttempts s)"
    using try_handle_exhausted[of 1 handle s cancelled None] assms(1,2) by (auto simp: maxAttempts_def)
  let ?d = "dead_letter_of service m (sanitizeError text (Some err)) now"
  have "publish_loop answer pub_cancelled (msg_key m) ?d 1 dlq =
      Some (Inr DeadLettered, dlq @ [dlq_record_of (msg_key m) ?d])"
    using assms(3,4) by (intro publish_loop_log) auto
  moreover have "DecodeDeadLetter (Some (dead_letter_json ?d)) = Inr (?d, msg_value m)"
    using assms(5-) by (subst dead_letter_json_fields)
      (simp_all add: dead_letter_of_def maxAttempts_def b64_roundtrip)
  ultimately show ?thesis
    using h by (intro exI[of _ ?d]) (simp add: Process_def dead_letter_of_def maxAttempts_def)
qed

theorem Process_dead_letters_poison_witness:
  "\<exists>d. Process ''svc'' (\<lambda>_. ''invalid'') (\<lambda>n c. (Some CallFailed, Suc c)) (\<lambda>_. False)
      (\<lambda>i. if i = 1 then ProduceFailed else Produced) (\<lambda>_. False) 0 poison_message (0::nat) [] =
      Some (Inr DeadLettered, after_attempts (\<lambda>n c. (Some CallFailed, Suc c)) maxAttempts 0,
        [] @ [dlq_record_of (msg_key poison_message) d]) \<and>
    Attempts d = 3 \<and> DecodeDeadLetter (Some (dead_letter_json d)) = Inr (d, msg_value poison_message)"
  by (rule Process_dead_letters_poison[where p = 1])
     (simp_all add: poison_message_def attempt_fails_def trim_space_def is_space_def has_suffix_def)

text \<open>
  C11 Processing ends whenever the brokers eventually accept the dead letter or the context is
  eventually cancelled: the unbounded publication loop is the only source of divergence.
\<close>

theorem Process_terminates:
  assumes "answer (1 + k) = Produced \<or> pub_cancelled (1 + k)"
  shows "\<exists>r. Process service text handle cancelled answer pub_cancelled now m s dlq = Some r"
proof -
  obtain x s' where h: "try_handle handle cancelled None 1 s = (x, s')"
    by (cases "try_handle handle cancelled None 1 s") auto
  have "\<exists>r. publish_loop answer pub_cancelled (msg_key m) d 1 dlq = Some r" for d
    using assms by (rule publish_loop_terminates)
  then show ?thesis
    using h by (cases x) (force simp: Process_def)+
qed

theorem Process_terminates_witness:
  "\<exists>r. Process ''svc'' (\<lambda>_. ''invalid'') (\<lambda>n c. (Some CallFailed, Suc c)) (\<lambda>_. False)
      (\<lambda>i. ProduceFailed) (\<lambda>i. i = 5) 0 poison_message (0::nat) [] = Some r"
  by (rule Process_terminates[where k = 4]) simp

text \<open>
  The delay between attempts is bounded: for every attempt number from 1 on and every
  \<open>int64\<close> offset (negative ones too, where Go's remainder is negative) it is more than 100
  milliseconds and less than 3.3 seconds, so no timer fires at once and none waits long.
\<close>

lemma retryDelay_bounds:
  assumes "1 \<le> attempt"
  shows "\<exists>d. retryDelay attempt offset = Some d \<and> 100 * millisecond < d \<and> d < 3300 * millisecond"
proof -
  define a where "a = (if attempt > 5 then 5 else attempt)"
  define j where "j = go_mod (wrap64 (offset + wrap64 (a * 37))) 100"
  have a: "a \<in> {1, 2, 3, 4, 5}" using assms by (auto simp: a_def)
  have "\<bar>j\<bar> < 100" unfolding j_def by (rule go_mod_abs_less) simp
  then have j: "-100 < j" "j < 100" by auto
  have p: "1 \<le> (2::int) ^ nat (a - 1)" "(2::int) ^ nat (a - 1) \<le> 16" using a by auto
  let ?d = "200 * millisecond * 2 ^ nat (a - 1) + j * millisecond"
  have "?d = (200 * 2 ^ nat (a - 1) + j) * millisecond" by (simp add: algebra_simps)
  moreover have "100 < 200 * 2 ^ nat (a - 1) + j" "200 * 2 ^ nat (a - 1) + j < 3300"
    using p j by linarith+
  ultimately have d: "100 * millisecond < ?d" "?d < 3300 * millisecond"
    by (auto simp: millisecond_def)
  then have "wrap64 ?d = ?d" by (intro wrap64_id) (auto simp: millisecond_def)
  then have "retryDelay attempt offset = Some ?d"
    using a by (auto simp: retryDelay_def j_def a_def Let_def)
  with d show ?thesis by blast
qed

text \<open>
  A dead letter survives its topic: the JSON written for any record of a topic that is
  neither blank nor itself a dead-letter topic decodes to the same dead letter and to the
  original bytes.
\<close>

lemma dead_letter_roundtrip:
  assumes "trim_space (SourceTopic d) \<noteq> []" "\<not> has_suffix (SourceTopic d) ''.dlq''"
    and "OriginalValueBase64 d = b64_encode original"
    and "- (2 ^ 31) \<le> SourcePartition d" "SourcePartition d < 2 ^ 31"
    and "- (2 ^ 63) \<le> SourceOffset d" "SourceOffset d < 2 ^ 63"
    and "- (2 ^ 63) \<le> Attempts d" "Attempts d < 2 ^ 63"
  shows "DecodeDeadLetter (Some (dead_letter_json d)) = Inr (d, original)"
  using assms by (simp add: dead_letter_json_fields b64_roundtrip)

end
