(* ===== verification/Inbox.thy ===== *)
theory Inbox
  imports Kafkax
begin

text \<open>
  The contract every consumer of the repository keeps with Kafka's at-least-once delivery: the
  handler records the event id in its inbox table (\<open>processed_events\<close>) in the transaction that
  applies the effect, so a redelivered event changes nothing. The interface is the handler and
  its inbox (\<open>seen\<close>); the laws are what one call promises; the locale's lemmas lift them to
  redeliveries, to whole histories and to the retry loop of the package kafkax.
\<close>

text \<open>A history: the values a consumer is handed, each with the surroundings of its call.\<close>

type_synonym ('s, 'r) handler = "env \<Rightarrow> json option \<Rightarrow> 's \<Rightarrow> (go_error + 'r) \<times> 's"

fun deliver_all :: "('s, 'r) handler \<Rightarrow> (env \<times> json option) list \<Rightarrow> 's \<Rightarrow> 's" where
  "deliver_all handle [] s = s"
| "deliver_all handle ((e, v) # ds) s = deliver_all handle ds (snd (handle e v s))"

definition event_key :: "json option \<Rightarrow> string option" where
  "event_key v =
     (case Unmarshal v of Inl _ \<Rightarrow> None | Inr m \<Rightarrow> uuid_key (EventID m))"

text \<open>How often the deliveries of event \<open>k\<close> change the consumer's state along a history.\<close>

fun effects_of :: "('s, 'r) handler \<Rightarrow> string \<Rightarrow> (env \<times> json option) list \<Rightarrow> 's \<Rightarrow> nat" where
  "effects_of handle k [] s = 0"
| "effects_of handle k ((e, v) # ds) s =
     (if event_key v = Some k \<and> snd (handle e v s) \<noteq> s then 1 else 0) +
     effects_of handle k ds (snd (handle e v s))"

text \<open>The handler as the retry loop calls it: attempt \<open>n\<close> runs in surroundings \<open>es n\<close>.\<close>

definition attempt_of ::
  "('s, 'r) handler \<Rightarrow> (nat \<Rightarrow> env) \<Rightarrow> json option \<Rightarrow> nat \<Rightarrow> 's \<Rightarrow> go_error option \<times> 's" where
  "attempt_of handle es v n s =
     (case handle (es n) v s of (Inl err, s') \<Rightarrow> (Some err, s') | (Inr _, s') \<Rightarrow> (None, s'))"

locale inbox =
  fixes handle :: "('s, 'r) handler"
    and seen :: "'s \<Rightarrow> string set"
  assumes redelivery: "event_key v = Some k \<Longrightarrow> k \<in> seen s \<Longrightarrow> snd (handle e v s) = s"
    and change_is_marked: "snd (handle e v s) \<noteq> s \<Longrightarrow>
      \<exists>k. event_key v = Some k \<and> k \<in> seen (snd (handle e v s))"
    and seen_grows: "seen s \<subseteq> seen (snd (handle e v s))"
    and failure_atomic: "handle e v s = (Inl err, s') \<Longrightarrow> commit_of e \<noteq> CommitLost \<Longrightarrow> s' = s"
begin

lemma seen_deliver_all: "seen s \<subseteq> seen (deliver_all handle ds s)"
proof (induction ds arbitrary: s)
  case (Cons d ds)
  then show ?case using seen_grows by (cases d) (auto, blast)
qed simp

lemma no_effect_once_seen: "k \<in> seen s \<Longrightarrow> effects_of handle k ds s = 0"
proof (induction ds arbitrary: s)
  case (Cons d ds)
  obtain e v where d: "d = (e, v)" by (cases d)
  have "k \<in> seen (snd (handle e v s))" using Cons.prems seen_grows by blast
  then show ?case using Cons.IH Cons.prems redelivery d by auto
qed simp

lemma effect_at_most_once: "effects_of handle k ds s \<le> 1"
proof (induction ds arbitrary: s)
  case (Cons d ds)
  obtain e v where d: "d = (e, v)" by (cases d)
  show ?case
  proof (cases "event_key v = Some k \<and> snd (handle e v s) \<noteq> s")
    case True
    then have "k \<in> seen (snd (handle e v s))" using change_is_marked by force
    then show ?thesis using True d by (simp add: no_effect_once_seen)
  next
    case False
    then show ?thesis using Cons.IH d by auto
  qed
qed simp

text \<open>Delivering again, any number of times and in any order, what was applied changes nothing.\<close>

lemma replay_changes_nothing:
  assumes "\<And>e v. (e, v) \<in> set ds \<Longrightarrow> \<exists>k. event_key v = Some k \<and> k \<in> seen s"
  shows "deliver_all handle ds s = s"
  using assms
proof (induction ds)
  case (Cons d ds)
  obtain e v where d: "d = (e, v)" by (cases d)
  obtain k where "event_key v = Some k" "k \<in> seen s" using Cons.prems[of e v] d by auto
  then have "snd (handle e v s) = s" by (rule redelivery)
  moreover have "deliver_all handle ds s = s"
    using Cons.prems by (intro Cons.IH) auto
  ultimately show ?case by (simp add: d)
qed simp

text \<open>
  Inside the retry loop the state changes at most once: with commits that report their
  outcome, every failing attempt leaves the state alone.
\<close>

lemma retries_are_atomic:
  assumes "\<And>n. commit_of (es n) \<noteq> CommitLost"
    and "\<And>n. 1 \<le> n \<Longrightarrow> n \<le> k \<Longrightarrow> attempt_fails (attempt_of handle es v) n s"
  shows "after_attempts (attempt_of handle es v) k s = s"
  using assms(2)
proof (induction k)
  case (Suc k)
  then have IH: "after_attempts (attempt_of handle es v) k s = s" by simp
  have "attempt_fails (attempt_of handle es v) (Suc k) s" using Suc.prems by simp
  then obtain err s' where "handle (es (Suc k)) v s = (Inl err, s')"
    by (cases "handle (es (Suc k)) v s")
       (auto simp: attempt_fails_def attempt_of_def IH split: sum.splits)
  moreover from this assms(1) have "s' = s" by (rule failure_atomic)
  ultimately have "snd (attempt_of handle es v (Suc k) s) = s" by (simp add: attempt_of_def)
  then show ?case by (simp add: IH)
qed simp

end

end
