(* ===== verification/Orders.thy ===== *)
theory Orders
  imports Outbox Httpx Inbox
begin

text \<open>
  The order service (services/order-service/internal/order): checkout under an idempotency key,
  reading and cancelling orders, and the consumer that moves an order along with its delivery.
  The state is the schema \<open>orders\<close> of db/postgres/migrations. The interfaces \<open>CartReader\<close> and
  \<open>Inventory\<close> of client.go are arguments: functions over a state \<open>'w\<close> of the services behind
  them. \<open>sha256\<close> stands for the digest of the encoded request.
\<close>

section \<open>Data\<close>

record checkout_request =
  cq_user :: string
  cq_version :: int

record cart_item =
  ci_product :: string
  ci_quantity :: int

record user_cart =
  ca_user :: string
  ca_version :: int
  ca_items :: "cart_item list"

text \<open>The \<open>ReserveRequest\<close> and the \<open>Reservation\<close> of this package.\<close>

record stock_request =
  sq_attempt :: string
  sq_items :: "cart_item list"
  sq_ttl :: int

record order_item =
  oi_product :: string
  oi_name :: string
  oi_quantity :: int
  oi_price :: int
  oi_currency :: string

record stock_reservation =
  sn_id :: string
  sn_status :: string
  sn_items :: "order_item list"
  sn_total :: int
  sn_currency :: string

record order =
  od_id :: string
  od_user :: string
  od_reservation :: string
  od_version :: int
  od_status :: string
  od_items :: "order_item list"
  od_total :: int
  od_currency :: string
  od_lat :: real
  od_lon :: real
  od_created :: time

text \<open>Rows of the tables users, orders, order_items, order_status_history and idempotency_keys.\<close>

record user_row =
  us_id :: string
  us_lat :: real
  us_lon :: real

record order_row =
  ow_id :: string
  ow_user :: string
  ow_reservation :: string
  ow_version :: int
  ow_status :: string
  ow_total :: int
  ow_currency :: string
  ow_lat :: real
  ow_lon :: real
  ow_created :: time

record item_row =
  ir_order :: string
  ir_product :: string
  ir_name :: string
  ir_quantity :: int
  ir_price :: int

record history_row =
  hs_order :: string
  hs_previous :: string
  hs_new :: string
  hs_at :: time

record key_row =
  ik_key :: string
  ik_hash :: string
  ik_attempt :: string
  ik_state :: string
  ik_response :: "json option"

record orders =
  os_users :: "user_row list"
  os_orders :: "order_row list"
  os_items :: "item_row list"
  os_history :: "history_row list"
  os_keys :: "key_row list"
  os_processed :: "string list"
  os_outbox :: "outbox_row list"

text \<open>\<open>UpstreamError\<close> with its code, or any other failure of a call.\<close>

datatype upstream_error = UpstreamError int string | Unreachable

section \<open>JSON of the data\<close>

definition json_checkout :: "checkout_request \<Rightarrow> json" where
  "json_checkout r = JObj [(''user_id'', JStr (cq_user r)), (''cart_version'', JInt (cq_version r))]"

definition json_order_item :: "order_item \<Rightarrow> json" where
  "json_order_item i = JObj
     [(''product_id'', JStr (oi_product i)), (''product_name'', JStr (oi_name i)),
      (''quantity'', JInt (oi_quantity i)), (''unit_price_minor'', JInt (oi_price i)),
      (''currency'', JStr (oi_currency i))]"

definition json_order :: "order \<Rightarrow> json" where
  "json_order r = JObj
     [(''id'', JStr (od_id r)), (''user_id'', JStr (od_user r)),
      (''reservation_id'', JStr (od_reservation r)), (''cart_version'', JInt (od_version r)),
      (''status'', JStr (od_status r)), (''items'', JArr (map json_order_item (od_items r))),
      (''total_amount_minor'', JInt (od_total r)), (''currency'', JStr (od_currency r)),
      (''delivery_latitude'', JFloat (od_lat r)), (''delivery_longitude'', JFloat (od_lon r)),
      (''created_at'', JTime (od_created r))]"

definition decode_order_item :: "json \<Rightarrow> go_error + order_item" where
  "decode_order_item v =
     andthen (struct_fields (Some v)) (\<lambda>kvs.
     andthen (field to_string ''product_id'' [] kvs) (\<lambda>p.
     andthen (field to_string ''product_name'' [] kvs) (\<lambda>name.
     andthen (field to_int ''quantity'' 0 kvs) (\<lambda>q.
     andthen (field to_int ''unit_price_minor'' 0 kvs) (\<lambda>price.
     andthen (field to_string ''currency'' [] kvs) (\<lambda>cur.
       Inr \<lparr>oi_product = p, oi_name = name, oi_quantity = q, oi_price = price, oi_currency = cur\<rparr>))))))"

definition zero_order_item :: order_item where
  "zero_order_item = \<lparr>oi_product = [], oi_name = [], oi_quantity = 0, oi_price = 0, oi_currency = []\<rparr>"

definition decode_order :: "json option \<Rightarrow> go_error + order" where
  "decode_order bytes =
     andthen (struct_fields bytes) (\<lambda>kvs.
     andthen (field to_string ''id'' [] kvs) (\<lambda>i.
     andthen (field to_string ''user_id'' [] kvs) (\<lambda>u.
     andthen (field to_string ''reservation_id'' [] kvs) (\<lambda>rid.
     andthen (field to_int ''cart_version'' 0 kvs) (\<lambda>ver.
     andthen (field to_string ''status'' [] kvs) (\<lambda>st.
     andthen (field (to_array (ok \<circ> decode_order_item) zero_order_item) ''items'' [] kvs) (\<lambda>items.
     andthen (field to_int ''total_amount_minor'' 0 kvs) (\<lambda>total.
     andthen (field to_string ''currency'' [] kvs) (\<lambda>cur.
     andthen (field to_float ''delivery_latitude'' 0 kvs) (\<lambda>lat.
     andthen (field to_float ''delivery_longitude'' 0 kvs) (\<lambda>lon.
     andthen (field to_time ''created_at'' zero_time kvs) (\<lambda>cre.
       Inr \<lparr>od_id = i, od_user = u, od_reservation = rid, od_version = ver, od_status = st,
            od_items = items, od_total = total, od_currency = cur, od_lat = lat, od_lon = lon,
            od_created = cre\<rparr>))))))))))))"

definition decode_checkout :: "json \<Rightarrow> go_error + checkout_request" where
  "decode_checkout v =
     andthen (strict_fields [''user_id'', ''cart_version''] v) (\<lambda>kvs.
     andthen (field to_string ''user_id'' [] kvs) (\<lambda>u.
     andthen (field to_int ''cart_version'' 0 kvs) (\<lambda>ver.
       Inr \<lparr>cq_user = u, cq_version = ver\<rparr>)))"

section \<open>Reading\<close>

text \<open>\<open>Get\<close>: the row of the order and its items in the order of their product ids.\<close>

definition items_of :: "order_row \<Rightarrow> item_row list \<Rightarrow> order_item list" where
  "items_of w rows =
     map (\<lambda>r. \<lparr>oi_product = ir_product r, oi_name = ir_name r, oi_quantity = ir_quantity r,
                oi_price = ir_price r, oi_currency = ow_currency w\<rparr>)
       (sort_key ir_product (filter (\<lambda>r. ir_order r = ow_id w) rows))"

definition order_of :: "order_row \<Rightarrow> item_row list \<Rightarrow> order" where
  "order_of w rows =
     \<lparr>od_id = ow_id w, od_user = ow_user w, od_reservation = ow_reservation w,
      od_version = ow_version w, od_status = ow_status w, od_items = items_of w rows,
      od_total = ow_total w, od_currency = ow_currency w, od_lat = ow_lat w, od_lon = ow_lon w,
      od_created = ow_created w\<rparr>"

definition Get :: "env \<Rightarrow> string \<Rightarrow> orders \<Rightarrow> go_error + order" where
  "Get e orderID s =
     andthen (query_row e ''get order'' ow_id orderID (os_orders s)) (\<lambda>w.
     andthen (io e ''get items'') (\<lambda>_.
     andthen (io e ''scan item'') (\<lambda>_.
     andthen (io e ''item rows'') (\<lambda>_.
       Inr (order_of w (os_items s))))))"

section \<open>Checkout\<close>

definition requestHash :: "(json \<Rightarrow> byte list) \<Rightarrow> checkout_request \<Rightarrow> string" where
  "requestHash sha256 request = hex_of (sha256 (json_checkout request))"

text \<open>
  \<open>prepareIdempotency\<close>: the checkout attempt of the key, and the stored order when the key has
  completed. A new key is inserted outside any transaction; \<open>lost insert key\<close> is the case where
  the server inserted the row and the client sees an error.
\<close>

definition prepareIdempotency ::
  "env \<Rightarrow> string \<Rightarrow> string \<Rightarrow> orders \<Rightarrow> (api_error + string \<times> order option) \<times> orders" where
  "prepareIdempotency e key hash s =
     (if fails e ''find key'' then (Inl internalError, s)
      else case row_find ik_key key (os_keys s) of
        Some k \<Rightarrow>
          (if ik_hash k \<noteq> hash
           then (Inl (Error 409 ''idempotency_key_reused''
                   ''Idempotency-Key was already used with a different request'' None), s)
           else if ik_state k = ''completed''
           then (case decode_order (ik_response k) of
                   Inl _ \<Rightarrow> (Inl internalError, s)
                 | Inr existing \<Rightarrow> (Inr (ik_attempt k, Some existing), s))
           else (Inr (ik_attempt k, None), s))
      | None \<Rightarrow>
          (case NewUUID e ''attempt'' of
             Inl _ \<Rightarrow> (Inl internalError, s)
           | Inr attemptID \<Rightarrow>
               (let row = \<lparr>ik_key = key, ik_hash = hash, ik_attempt = attemptID,
                           ik_state = ''processing'', ik_response = None\<rparr>;
                    s' = s\<lparr>os_keys := os_keys s @ [row]\<rparr> in
                if fails e ''insert key'' \<or> length key < 1 \<or> length key > 128
                then (Inl internalError, s)
                else if fails e ''lost insert key'' then (Inl internalError, s')
                else (Inr (attemptID, None), s'))))"

text \<open>A \<open>char(3)\<close> column: at most three characters, blank-padded.\<close>

definition char3 :: "string \<Rightarrow> go_error + string" where
  "char3 c = (if length c > 3 then Inl CallFailed else Inr (c @ replicate (3 - length c) (CHR '' '')))"

definition order_statuses :: "string list" where
  "order_statuses =
     [''created'', ''confirmed'', ''assembling'', ''delivering'', ''delivered'', ''cancelled'']"

definition insert_order :: "env \<Rightarrow> order \<Rightarrow> orders \<Rightarrow> go_error + order_row list" where
  "insert_order e v s =
     andthen (as_uuid (od_id v)) (\<lambda>i.
     andthen (as_uuid (od_user v)) (\<lambda>u.
     andthen (as_uuid (od_reservation v)) (\<lambda>rid.
     andthen (char3 (od_currency v)) (\<lambda>cur.
       exec_insert e ''insert order'' ow_id
         (\<lambda>w. row_find us_id (ow_user w) (os_users s) \<noteq> None \<and>
              row_find ow_reservation (ow_reservation w) (os_orders s) = None \<and> 0 \<le> ow_total w)
         \<lparr>ow_id = i, ow_user = u, ow_reservation = rid, ow_version = od_version v,
          ow_status = ''created'', ow_total = od_total v, ow_currency = cur, ow_lat = od_lat v,
          ow_lon = od_lon v, ow_created = pg_time (od_created v)\<rparr> (os_orders s)))))"

definition insert_order_item ::
  "env \<Rightarrow> string \<Rightarrow> order_item \<Rightarrow> item_row list \<Rightarrow> go_error + item_row list" where
  "insert_order_item e orderID i rows =
     andthen (as_uuid orderID) (\<lambda>o_id.
     andthen (as_uuid (oi_product i)) (\<lambda>p.
     andthen (int4 (oi_quantity i)) (\<lambda>q.
       exec_insert e (''insert order item '' @ oi_product i) (\<lambda>r. (ir_order r, ir_product r))
         (\<lambda>r. 0 < ir_quantity r \<and> 0 \<le> ir_price r)
         \<lparr>ir_order = o_id, ir_product = p, ir_name = oi_name i, ir_quantity = q,
          ir_price = oi_price i\<rparr> rows)))"

definition created_payload :: "order \<Rightarrow> json" where
  "created_payload v = JObj
     [(''order_id'', JStr (od_id v)), (''user_id'', JStr (od_user v)),
      (''reservation_id'', JStr (od_reservation v)), (''currency'', JStr (od_currency v)),
      (''total_amount_minor'', JInt (od_total v)), (''item_count'', JInt (int (length (od_items v)))),
      (''items'', JArr (map json_order_item (od_items v))), (''created_at'', JTime (od_created v)),
      (''delivery_latitude'', JFloat (od_lat v)), (''delivery_longitude'', JFloat (od_lon v))]"

text \<open>\<open>events.New\<close> followed by \<open>outbox.Insert\<close>, as this service emits every event.\<close>

definition emit ::
  "env \<Rightarrow> ctx \<Rightarrow> string \<Rightarrow> string \<Rightarrow> json \<Rightarrow> outbox_row list \<Rightarrow> go_error + outbox_row list" where
  "emit e c eventType orderID payload rows =
     andthen (New e c eventType ''order-service'' orderID payload)
       (\<lambda>v. Insert e ''orders'' ''freshflow.order.events.v1'' orderID v rows)"

definition complete_key :: "json \<Rightarrow> key_row \<Rightarrow> key_row" where
  "complete_key response k = k\<lparr>ik_state := ''completed'', ik_response := Some response\<rparr>"

definition persist_tx :: "env \<Rightarrow> ctx \<Rightarrow> string \<Rightarrow> order \<Rightarrow> orders \<Rightarrow> go_error + order verdict \<times> orders" where
  "persist_tx e c key v s =
     andthen (insert_order e v s) (\<lambda>ords.
     andthen (for_each (insert_order_item e (od_id v)) (od_items v) (os_items s)) (\<lambda>items.
     andthen (emit e c ''order.created'' (od_id v) (created_payload v) (os_outbox s)) (\<lambda>ob.
     andthen (io e ''marshal order'') (\<lambda>_.
     andthen (io e ''complete key'') (\<lambda>_.
       Inr (Commit v, s\<lparr>os_orders := ords, os_items := items, os_outbox := ob,
              os_keys := row_update ik_key key (complete_key (json_order v)) (os_keys s)\<rparr>))))))"

definition new_order ::
  "env \<Rightarrow> string \<Rightarrow> checkout_request \<Rightarrow> stock_reservation \<Rightarrow> real \<Rightarrow> real \<Rightarrow> order" where
  "new_order e orderID request r lat lon =
     \<lparr>od_id = orderID, od_user = cq_user request, od_reservation = sn_id r,
      od_version = cq_version request, od_status = ''created'', od_items = sn_items r,
      od_total = sn_total r, od_currency = sn_currency r, od_lat = lat, od_lon = lon,
      od_created = clock e ''created''\<rparr>"

definition persistOrder ::
  "env \<Rightarrow> ctx \<Rightarrow> string \<Rightarrow> checkout_request \<Rightarrow> stock_reservation \<Rightarrow> real \<Rightarrow> real \<Rightarrow> orders \<Rightarrow>
   (go_error + order) \<times> orders" where
  "persistOrder e c key request r lat lon s =
     (case NewUUID e ''order'' of
        Inl err \<Rightarrow> (Inl err, s)
      | Inr orderID \<Rightarrow>
          (case with_tx e id id (persist_tx e c key (new_order e orderID request r lat lon)) s of
             (Inl err, s') \<Rightarrow> (Inl err, s')
           | (Inr (Commit v), s') \<Rightarrow> (Inr v, s')
           | (Inr (Abandon v), s') \<Rightarrow> (Inr v, s')))"

text \<open>
  \<open>Create\<close>. The result is the order and whether it was replayed. The advisory lock on the key is
  taken by the session and released when the call returns; a call runs alone for its key.
\<close>

type_synonym 'w cart_reader = "string \<Rightarrow> 'w \<Rightarrow> (upstream_error + user_cart) \<times> 'w"
type_synonym 'w reserver = "stock_request \<Rightarrow> 'w \<Rightarrow> (upstream_error + stock_reservation) \<times> 'w"
type_synonym 'w releaser = "string \<Rightarrow> 'w \<Rightarrow> (upstream_error + unit) \<times> 'w"

definition checkout ::
  "env \<Rightarrow> ctx \<Rightarrow> 'w cart_reader \<Rightarrow> 'w reserver \<Rightarrow> 'w releaser \<Rightarrow> duration \<Rightarrow> string \<Rightarrow>
   checkout_request \<Rightarrow> string \<Rightarrow> real \<Rightarrow> real \<Rightarrow> orders \<times> 'w \<Rightarrow>
   (api_error + order \<times> bool) \<times> orders \<times> 'w" where
  "checkout e c carts reserve release ttl key request attemptID lat lon sw =
     (case sw of (s, w) \<Rightarrow>
      case carts (cq_user request) w of
        (Inl _, w1) \<Rightarrow>
          (Inl (Error 503 ''cart_unavailable'' ''cart service is unavailable'' None), s, w1)
      | (Inr cart, w1) \<Rightarrow>
          if ca_version cart \<noteq> cq_version request
          then (Inl (Error 409 ''cart_version_mismatch'' ''cart changed before checkout''
                  (Some (JObj [(''current_version'', JInt (ca_version cart))]))), s, w1)
          else if ca_items cart = []
          then (Inl (Error 409 ''cart_empty'' ''cart is empty'' None), s, w1)
          else case reserve \<lparr>sq_attempt = attemptID, sq_items = ca_items cart,
                              sq_ttl = whole_seconds ttl\<rparr> w1 of
            (Inl (UpstreamError st code), w2) \<Rightarrow>
              (Inl (if code = ''inventory_insufficient''
                    then Error 409 ''inventory_insufficient'' ''not enough stock for one or more items'' None
                    else Error 503 ''catalog_unavailable'' ''catalog service is unavailable'' None), s, w2)
          | (Inl Unreachable, w2) \<Rightarrow>
              (Inl (Error 503 ''catalog_unavailable'' ''catalog service is unavailable'' None), s, w2)
          | (Inr r, w2) \<Rightarrow>
              (case persistOrder e c key request r lat lon s of
                 (Inl _, s') \<Rightarrow> (Inl internalError, s', snd (release (sn_id r) w2))
               | (Inr v, s') \<Rightarrow> (Inr (v, False), s', w2)))"

definition Create ::
  "(json \<Rightarrow> byte list) \<Rightarrow> env \<Rightarrow> ctx \<Rightarrow> 'w cart_reader \<Rightarrow> 'w reserver \<Rightarrow> 'w releaser \<Rightarrow> duration \<Rightarrow>
   string \<Rightarrow> checkout_request \<Rightarrow> orders \<times> 'w \<Rightarrow> (api_error + order \<times> bool) \<times> orders \<times> 'w" where
  "Create sha256 e c carts reserve release ttl key request sw =
     (case sw of (s, w) \<Rightarrow>
      if fails e ''acquire connection'' \<or> fails e ''advisory lock'' then (Inl internalError, s, w)
      else case prepareIdempotency e key (requestHash sha256 request) s of
        (Inl a, s1) \<Rightarrow> (Inl a, s1, w)
      | (Inr (_, Some existing), s1) \<Rightarrow> (Inr (existing, True), s1, w)
      | (Inr (attemptID, None), s1) \<Rightarrow>
          (case query_row e ''find user'' us_id (cq_user request) (os_users s1) of
             Inl err \<Rightarrow>
               (Inl (if is_no_rows err then Error 404 ''user_not_found'' ''user was not found'' None
                     else internalError), s1, w)
           | Inr u \<Rightarrow>
               checkout e c carts reserve release ttl key request attemptID (us_lat u) (us_lon u)
                 (s1, w)))"

section \<open>Cancellation\<close>

definition canCancel :: "string \<Rightarrow> bool" where
  "canCancel status \<longleftrightarrow> status = ''created'' \<or> status = ''confirmed''"

definition set_status ::
  "env \<Rightarrow> string \<Rightarrow> string \<Rightarrow> order_row list \<Rightarrow> go_error + order_row list" where
  "set_status e orderID status rows =
     exec_update e ''update status'' ow_id orderID (\<lambda>w. ow_status w \<in> set order_statuses)
       (\<lambda>w. w\<lparr>ow_status := status\<rparr>) rows"

definition add_history ::
  "env \<Rightarrow> string \<Rightarrow> string \<Rightarrow> string \<Rightarrow> time \<Rightarrow> order_row list \<Rightarrow> history_row list \<Rightarrow>
   go_error + history_row list" where
  "add_history e orderID previous new_status t ords rows =
     andthen (io e ''insert history'') (\<lambda>_.
     andthen (as_uuid orderID) (\<lambda>k.
       if row_find ow_id k ords = None then Inl CallFailed
       else Inr (rows @ [\<lparr>hs_order = k, hs_previous = previous, hs_new = new_status,
                          hs_at = pg_time t\<rparr>])))"

definition status_payload :: "string \<Rightarrow> string \<Rightarrow> string \<Rightarrow> time \<Rightarrow> json" where
  "status_payload orderID previous new_status t = JObj
     [(''order_id'', JStr orderID), (''previous_status'', JStr previous),
      (''new_status'', JStr new_status), (''changed_at'', JTime t)]"

definition cancelled_payload :: "string \<Rightarrow> string \<Rightarrow> time \<Rightarrow> json" where
  "cancelled_payload orderID previous t = JObj
     [(''order_id'', JStr orderID), (''previous_status'', JStr previous), (''cancelled_at'', JTime t)]"

definition cancel_tx :: "env \<Rightarrow> ctx \<Rightarrow> string \<Rightarrow> string \<Rightarrow> orders \<Rightarrow> go_error + orders" where
  "cancel_tx e c orderID currentStatus s =
     (let changedAt = clock e ''changed'' in
      andthen (set_status e orderID ''cancelled'' (os_orders s)) (\<lambda>ords.
      andthen (add_history e orderID currentStatus ''cancelled'' changedAt ords (os_history s)) (\<lambda>hist.
      andthen (emit e c ''order.cancelled'' orderID
                (cancelled_payload orderID currentStatus changedAt) (os_outbox s)) (\<lambda>ob1.
      andthen (emit e c ''order.status_changed'' orderID
                (status_payload orderID currentStatus ''cancelled'' changedAt) ob1) (\<lambda>ob2.
        Inr (s\<lparr>os_orders := ords, os_history := hist, os_outbox := ob2\<rparr>))))))"

text \<open>The end of a transaction whose work is done: \<open>tx.Commit\<close>.\<close>

definition finish :: "env \<Rightarrow> 's \<Rightarrow> 's \<Rightarrow> (go_error + unit) \<times> 's" where
  "finish e before after =
     (case commit_of e of
        CommitOk \<Rightarrow> (Inr (), after)
      | CommitAborted \<Rightarrow> (Inl CallFailed, before)
      | CommitLost \<Rightarrow> (Inl CallFailed, after))"

definition reread :: "env \<Rightarrow> string \<Rightarrow> (go_error + unit) \<times> orders \<Rightarrow> (api_error + order) \<times> orders" where
  "reread e orderID committed =
     (case committed of
        (Inl _, s') \<Rightarrow> (Inl internalError, s')
      | (Inr _, s') \<Rightarrow>
          (case Get e orderID s' of Inl _ \<Rightarrow> (Inl internalError, s') | Inr v \<Rightarrow> (Inr v, s')))"

definition Cancel ::
  "env \<Rightarrow> ctx \<Rightarrow> 'w releaser \<Rightarrow> string \<Rightarrow> orders \<times> 'w \<Rightarrow> (api_error + order) \<times> orders \<times> 'w" where
  "Cancel e c release orderID sw =
     (case sw of (s, w) \<Rightarrow>
      if fails e ''begin'' then (Inl internalError, s, w)
      else case query_row e ''find order'' ow_id orderID (os_orders s) of
        Inl err \<Rightarrow>
          (Inl (if is_no_rows err then Error 404 ''order_not_found'' ''order was not found'' None
                else internalError), s, w)
      | Inr row \<Rightarrow>
          (if ow_status row = ''cancelled''
           then (case reread e orderID (finish e s s) of (res, s') \<Rightarrow> (res, s', w))
           else if \<not> canCancel (ow_status row)
           then (Inl (Error 409 ''order_not_cancellable'' ''only a created or confirmed order can be cancelled''
                   (Some (JObj [(''status'', JStr (ow_status row))]))), s, w)
           else case release (ow_reservation row) w of
             (Inl _, w') \<Rightarrow>
               (Inl (Error 503 ''inventory_release_failed'' ''could not release the product reservation'' None), s, w')
           | (Inr _, w') \<Rightarrow>
               (case cancel_tx e c orderID (ow_status row) s of
                  Inl _ \<Rightarrow> (Inl internalError, s, w')
                | Inr s1 \<Rightarrow> (case reread e orderID (finish e s s1) of (res, s') \<Rightarrow> (res, s', w')))))"

section \<open>Delivery events\<close>

definition validTransition :: "string \<Rightarrow> string \<Rightarrow> bool" where
  "validTransition current target =
     (if current = ''created'' then target = ''confirmed''
      else if current = ''confirmed'' then target = ''assembling'' \<or> target = ''delivered''
      else if current = ''assembling'' then target = ''delivering'' \<or> target = ''delivered''
      else if current = ''delivering'' then target = ''delivered''
      else False)"

definition payload_status :: "json option \<Rightarrow> go_error + string" where
  "payload_status payload = andthen (struct_fields payload) (field to_string ''status'' [])"

text \<open>The status an event asks for; \<open>Inr None\<close> for the events the order service ignores.\<close>

definition target_status :: "envelope \<Rightarrow> go_error + string option" where
  "target_status v =
     (if EventType v = ''delivery.assigned'' then Inr (Some ''confirmed'')
      else if EventType v = ''delivery.status_changed'' then
        andthen (payload_status (Payload v)) (\<lambda>st.
          if st = ''assembling'' \<or> st = ''delivering'' then Inr (Some st)
          else Inl (Failed (''unsupported delivery target status in '' @ EventType v)))
      else if EventType v = ''delivery.completed'' then Inr (Some ''delivered'')
      else Inr None)"

definition apply_status ::
  "env \<Rightarrow> ctx \<Rightarrow> envelope \<Rightarrow> string \<Rightarrow> string \<Rightarrow> orders \<Rightarrow> go_error + orders" where
  "apply_status e c v currentStatus target s =
     (let changedAt = clock e ''changed''; orderID = AggregateID v in
      andthen (set_status e orderID target (os_orders s)) (\<lambda>ords.
      andthen (add_history e orderID currentStatus target changedAt ords (os_history s)) (\<lambda>hist.
      andthen (if EventType v = ''delivery.assigned''
               then emit e c ''order.confirmed'' orderID
                      (JObj [(''order_id'', JStr orderID), (''confirmed_at'', JTime changedAt)]) (os_outbox s)
               else Inr (os_outbox s)) (\<lambda>ob1.
      andthen (emit e c ''order.status_changed'' orderID
                 (status_payload orderID currentStatus target changedAt) ob1) (\<lambda>ob2.
        Inr (s\<lparr>os_orders := ords, os_history := hist, os_outbox := ob2\<rparr>))))))"

definition handle_tx :: "env \<Rightarrow> ctx \<Rightarrow> envelope \<Rightarrow> string \<Rightarrow> orders \<Rightarrow> go_error + unit verdict \<times> orders" where
  "handle_tx e c v target s =
     andthen (mark_processed e (EventID v) (os_processed s)) (\<lambda>(inserted, seen).
     if \<not> inserted then Inr (Commit (), s)
     else
       (let s1 = s\<lparr>os_processed := seen\<rparr> in
        andthen (query_row e ''find order'' ow_id (AggregateID v) (os_orders s1)) (\<lambda>row.
        if ow_status row = target then Inr (Commit (), s1)
        else if ow_status row = ''cancelled'' then Inr (Commit (), s1)
        else if \<not> validTransition (ow_status row) target
        then Inl (Failed (''invalid order transition '' @ ow_status row @ '' -> '' @ target))
        else andthen (apply_status e c v (ow_status row) target s1) (\<lambda>s2. Inr (Commit (), s2)))))"

definition handle_event ::
  "(string \<times> string) option \<Rightarrow> env \<Rightarrow> json option \<Rightarrow> orders \<Rightarrow> (go_error + unit) \<times> orders" where
  "handle_event tracer e value s =
     (case wrap ''decode delivery event'' (Unmarshal value) of
        Inl err \<Rightarrow> (Inl err, s)
      | Inr v \<Rightarrow>
          (case target_status v of
             Inl err \<Rightarrow> (Inl err, s)
           | Inr None \<Rightarrow> (Inr (), s)
           | Inr (Some target) \<Rightarrow>
               (case with_tx e id id (handle_tx e (consumer_ctx tracer v) v target) s of
                  (Inl err, s') \<Rightarrow> (Inl err, s')
                | (Inr _, s') \<Rightarrow> (Inr (), s'))))"

section \<open>Handlers\<close>

definition create ::
  "(json \<Rightarrow> byte list) \<Rightarrow> env \<Rightarrow> ctx \<Rightarrow> 'w cart_reader \<Rightarrow> 'w reserver \<Rightarrow> 'w releaser \<Rightarrow> duration \<Rightarrow>
   string \<Rightarrow> http_body \<Rightarrow> orders \<times> 'w \<Rightarrow> reply \<times> orders \<times> 'w" where
  "create sha256 e c carts reserve release ttl header body sw =
     (let key = trim_space header in
      if \<not> safe_token key
      then (WriteError (ctx_correlation c) (Some (Error 400 ''invalid_idempotency_key''
              ''Idempotency-Key is required and must contain 1-128 safe characters'' None)), sw)
      else case DecodeJSON decode_checkout body of
        Inl a \<Rightarrow> (WriteError (ctx_correlation c) (Some a), sw)
      | Inr request \<Rightarrow>
          if \<not> IsUUID (cq_user request) \<or> cq_version request < 1
          then (WriteError (ctx_correlation c) (Some (Error 400 ''invalid_checkout''
                  ''user_id must be a UUID and cart_version must be positive'' None)), sw)
          else case Create sha256 e c carts reserve release ttl key request sw of
            (Inl a, sw') \<Rightarrow> (WriteError (ctx_correlation c) (Some a), sw')
          | (Inr (v, replayed), sw') \<Rightarrow>
              ((WriteJSON 201 (json_order v))
                 \<lparr>rp_headers := (if replayed then [(''Idempotency-Replayed'', ''true'')] else [])\<rparr>, sw'))"

definition get :: "env \<Rightarrow> ctx \<Rightarrow> string \<Rightarrow> orders \<Rightarrow> reply" where
  "get e c orderID s =
     (if \<not> IsUUID orderID
      then WriteError (ctx_correlation c)
        (Some (Error 400 ''invalid_order_id'' ''order_id must be a UUID'' None))
      else case Get e orderID s of
        Inl err \<Rightarrow>
          (if is_no_rows err
           then WriteError (ctx_correlation c)
             (Some (Error 404 ''order_not_found'' ''order was not found'' None))
           else WriteError (ctx_correlation c) None)
      | Inr v \<Rightarrow> WriteJSON 200 (json_order v))"

definition cancel :: "env \<Rightarrow> ctx \<Rightarrow> 'w releaser \<Rightarrow> string \<Rightarrow> orders \<times> 'w \<Rightarrow> reply \<times> orders \<times> 'w" where
  "cancel e c release orderID sw =
     (if \<not> IsUUID orderID
      then (WriteError (ctx_correlation c)
        (Some (Error 400 ''invalid_order_id'' ''order_id must be a UUID'' None)), sw)
      else case Cancel e c release orderID sw of
        (Inl a, sw') \<Rightarrow> (WriteError (ctx_correlation c) (Some a), sw')
      | (Inr v, sw') \<Rightarrow> (WriteJSON 200 (json_order v), sw'))"

text \<open>
  \<open>stream\<close>: the server-sent events of an order. Every poll of the loop reads the order in the
  state of that moment; the list of polls ends when the client goes away. The result is the
  orders written, each as one event, and how the handler left the stream.
\<close>

datatype stream_end = ClientGone | Ended | Refusal api_error

fun stream_loop :: "string \<Rightarrow> (env \<times> orders) list \<Rightarrow> string \<Rightarrow> order list \<times> stream_end" where
  "stream_loop orderID [] lastStatus = ([], ClientGone)"
| "stream_loop orderID ((e, s) # polls) lastStatus =
     (case Get e orderID s of
        Inl err \<Rightarrow>
          ([], if is_no_rows err \<and> lastStatus = []
               then Refusal (Error 404 ''order_not_found'' ''order was not found'' None) else Ended)
      | Inr v \<Rightarrow>
          (let changed = (od_status v \<noteq> lastStatus); out = (if changed then [v] else []) in
           if changed \<and> fails e ''marshal order'' then ([], Ended)
           else if changed \<and> fails e ''flush'' then (out, Ended)
           else if od_status v = ''delivered'' \<or> od_status v = ''cancelled'' then (out, Ended)
           else (case stream_loop orderID polls (od_status v) of (rest, how) \<Rightarrow> (out @ rest, how))))"

definition stream :: "string \<Rightarrow> (env \<times> orders) list \<Rightarrow> order list \<times> stream_end" where
  "stream orderID polls =
     (if \<not> IsUUID orderID
      then ([], Refusal (Error 400 ''invalid_order_id'' ''order_id must be a UUID'' None))
      else stream_loop orderID polls [])"

end
