(* ===== verification/OrderRefine.thy ===== *)
theory OrderRefine
  imports OrderSteps
begin

text \<open>
  Every operation of the order service is a sequence of the abstract steps, whatever fails on
  the way and whatever the cart and catalog services answer.
\<close>

lemma emit_Inr:
  assumes "emit e c ty orderID payload rows = Inr rows'"
  shows "\<exists>k ev. uuid_key orderID = Some k \<and> rows' = rows @ [ev] \<and> order_says ev ty k payload"
  using assms Insert_New_announces by (auto simp: emit_def andthen_Inr)

lemma set_status_Inr:
  "set_status e orderID target rows = Inr rows' \<longleftrightarrow>
     \<not> fails e ''update status'' \<and> (\<exists>k. uuid_key orderID = Some k \<and>
       rows' = row_update ow_id k (\<lambda>w. w\<lparr>ow_status := target\<rparr>) rows \<and>
       (\<forall>r \<in> set rows. ow_id r = k \<longrightarrow> target \<in> set order_statuses))"
  by (simp add: set_status_def exec_update_Inr)

lemma add_history_Inr:
  "add_history e orderID previous target t ords rows = Inr rows' \<longleftrightarrow>
     \<not> fails e ''insert history'' \<and> (\<exists>k. uuid_key orderID = Some k \<and> row_find ow_id k ords \<noteq> None \<and>
       rows' = rows @ [\<lparr>hs_order = k, hs_previous = previous, hs_new = target, hs_at = pg_time t\<rparr>])"
  by (auto simp: add_history_def andthen_Inr io_Inr as_uuid_Inr)

section \<open>Moves\<close>

text \<open>What the two transactions that change a status do to the tables.\<close>

definition moves_to :: "string \<Rightarrow> string \<Rightarrow> string \<Rightarrow> orders \<Rightarrow> orders \<Rightarrow> bool" where
  "moves_to k previous target s s' \<longleftrightarrow>
     (\<exists>t extra ev p. s' = moved k previous target t extra ev s \<and> order_says ev ''order.status_changed'' k p \<and>
        (\<forall>x \<in> set extra. \<exists>q. order_says x ''order.confirmed'' k q \<or>
          order_says x ''order.cancelled'' k q \<and> target = ''cancelled''))"

lemma moves_to_step:
  assumes "moves_to k (ow_status w) target s s'" and "row_find ow_id k (os_orders s) = Some w"
    and "may_move (ow_status w) target" and "T k target"
  shows "ostep_if T s s'"
  using assms unfolding moves_to_def by (auto intro!: ostep_if.move)

lemma cancel_tx_moves:
  assumes "cancel_tx e c orderID previous s = Inr s'" and "uuid_key orderID = Some k"
  shows "moves_to k previous ''cancelled'' s s'"
proof -
  obtain ords hist ob1 ob2 where
    st: "set_status e orderID ''cancelled'' (os_orders s) = Inr ords" and
    hi: "add_history e orderID previous ''cancelled'' (clock e ''changed'') ords (os_history s) = Inr hist" and
    ob: "emit e c ''order.cancelled'' orderID (cancelled_payload orderID previous (clock e ''changed'')) (os_outbox s) = Inr ob1"
      "emit e c ''order.status_changed'' orderID (status_payload orderID previous ''cancelled'' (clock e ''changed'')) ob1 = Inr ob2" and
    s': "s' = s\<lparr>os_orders := ords, os_history := hist, os_outbox := ob2\<rparr>"
    using assms(1) by (auto simp: cancel_tx_def Let_def andthen_Inr)
  obtain x ev where "ob1 = os_outbox s @ [x]" "ob2 = ob1 @ [ev]"
      "order_says x ''order.cancelled'' k (cancelled_payload orderID previous (clock e ''changed''))"
      "order_says ev ''order.status_changed'' k (status_payload orderID previous ''cancelled'' (clock e ''changed''))"
    using emit_Inr[OF ob(1)] emit_Inr[OF ob(2)] assms(2) by auto
  then show ?thesis
    using st hi assms(2) unfolding moves_to_def s'
    by (intro exI[of _ "pg_time (clock e ''changed'')"] exI[of _ "[x]"] exI[of _ ev]
          exI[of _ "status_payload orderID previous ''cancelled'' (clock e ''changed'')"])
       (auto simp: moved_def set_status_Inr add_history_Inr)
qed

lemma apply_status_moves:
  assumes "apply_status e c v previous target s = Inr s'" and "uuid_key (AggregateID v) = Some k"
  shows "moves_to k previous target s s'"
proof -
  let ?id = "AggregateID v" and ?t = "clock e ''changed''"
  obtain ords hist ob1 ob2 where
    st: "set_status e ?id target (os_orders s) = Inr ords" and
    hi: "add_history e ?id previous target ?t ords (os_history s) = Inr hist" and
    ob: "(if EventType v = ''delivery.assigned''
          then emit e c ''order.confirmed'' ?id (JObj [(''order_id'', JStr ?id), (''confirmed_at'', JTime ?t)]) (os_outbox s)
          else Inr (os_outbox s)) = Inr ob1"
      "emit e c ''order.status_changed'' ?id (status_payload ?id previous target ?t) ob1 = Inr ob2" and
    s': "s' = s\<lparr>os_orders := ords, os_history := hist, os_outbox := ob2\<rparr>"
    using assms(1) unfolding apply_status_def Let_def andthen_Inr by blast
  have "\<exists>extra. ob1 = os_outbox s @ extra \<and>
      (\<forall>x \<in> set extra. \<exists>q. order_says x ''order.confirmed'' k q)"
  proof (cases "EventType v = ''delivery.assigned''")
    case True
    then show ?thesis using emit_Inr[of e c "''order.confirmed''"] ob(1) assms(2) by fastforce
  next
    case False
    then show ?thesis using ob(1) by (intro exI[of _ "[]"]) simp
  qed
  then obtain extra where extra: "ob1 = os_outbox s @ extra"
      "\<forall>x \<in> set extra. \<exists>q. order_says x ''order.confirmed'' k q"
    by blast
  obtain ev where "ob2 = ob1 @ [ev]" "order_says ev ''order.status_changed'' k (status_payload ?id previous target ?t)"
    using emit_Inr[OF ob(2)] assms(2) by auto
  then show ?thesis
    using st hi extra assms(2) unfolding moves_to_def s'
    by (intro exI[of _ "pg_time ?t"] exI[of _ extra] exI[of _ ev]
          exI[of _ "status_payload ?id previous target ?t"])
       (auto simp: moved_def set_status_Inr add_history_Inr)
qed

text \<open>A cancellation moves an order to \<open>cancelled\<close> and nowhere else.\<close>

lemma Cancel_guarded:
  assumes "Cancel e c release orderID (s, w) = (res, s', w')"
  shows "osteps_if (\<lambda>_ st. st = ''cancelled'') s s'" (is "?steps s s'")
proof -
  have same: "?steps s s'" if "s' = s" using that by simp
  show ?thesis
  proof (cases "query_row e ''find order'' ow_id orderID (os_orders s)")
    case (Inl err)
    then show ?thesis using assms same by (auto simp: Cancel_def split: if_splits)
  next
    case (Inr row)
    then obtain k where k: "uuid_key orderID = Some k" "row_find ow_id k (os_orders s) = Some row"
      by (auto simp: query_row_Inr)
    show ?thesis
    proof (cases "s' = s")
      case False
      then obtain s1 where s1: "cancel_tx e c orderID (ow_status row) s = Inr s1" "s' = s1"
          "canCancel (ow_status row)"
        using assms Inr
        by (auto simp: Cancel_def reread_def finish_def
            split: if_splits sum.splits prod.splits commit_outcome.splits)
      then have "moves_to k (ow_status row) ''cancelled'' s s'" using cancel_tx_moves k(1) by blast
      then have "ostep_if (\<lambda>_ st. st = ''cancelled'') s s'"
        using k s1(3) by (intro moves_to_step[of k row "''cancelled''"]) (auto simp: may_move_def)
      then show ?thesis by simp
    qed (rule same)
  qed
qed

lemma Cancel_steps: "Cancel e c release orderID (s, w) = (res, s', w') \<Longrightarrow> osteps s s'"
  by (rule osteps_if_mono[OF Cancel_guarded]) simp_all

section \<open>The consumer\<close>

lemma handle_tx_cases:
  assumes "handle_tx e c v target s = Inr (vd, s')"
  obtains (seen) k where "uuid_key (EventID v) = Some k" "k \<in> set (os_processed s)" "vd = Commit ()" "s' = s"
  | (marked) k where "uuid_key (EventID v) = Some k" "k \<notin> set (os_processed s)" "vd = Commit ()"
      "s' = s\<lparr>os_processed := os_processed s @ [k]\<rparr>"
  | (changed) k ok w where "uuid_key (EventID v) = Some k" "k \<notin> set (os_processed s)" "vd = Commit ()"
      "uuid_key (AggregateID v) = Some ok" "row_find ow_id ok (os_orders s) = Some w"
      "validTransition (ow_status w) target"
      "moves_to ok (ow_status w) target (s\<lparr>os_processed := os_processed s @ [k]\<rparr>) s'"
proof -
  obtain b seen where m: "mark_processed e (EventID v) (os_processed s) = Inr (b, seen)"
    using assms by (auto simp: handle_tx_def andthen_Inr)
  obtain k where k: "uuid_key (EventID v) = Some k"
      "if k \<in> set (os_processed s) then \<not> b \<and> seen = os_processed s else b \<and> seen = os_processed s @ [k]"
    using m by (auto simp: mark_processed_Inr)
  show ?thesis
  proof (cases b)
    case False
    then have "vd = Commit ()" "s' = s" using assms m by (simp_all add: handle_tx_def)
    moreover have "k \<in> set (os_processed s)" using False k(2) by metis
    ultimately show ?thesis using k(1) by (intro seen)
  next
    case True
    let ?s1 = "s\<lparr>os_processed := seen\<rparr>"
    have kk: "k \<notin> set (os_processed s)" "seen = os_processed s @ [k]" using k(2) True by metis+
    have rest: "andthen (query_row e ''find order'' ow_id (AggregateID v) (os_orders ?s1)) (\<lambda>row.
        if ow_status row = target then Inr (Commit (), ?s1)
        else if ow_status row = ''cancelled'' then Inr (Commit (), ?s1)
        else if \<not> validTransition (ow_status row) target
        then Inl (Failed (''invalid order transition '' @ ow_status row @ '' -> '' @ target))
        else andthen (apply_status e c v (ow_status row) target ?s1) (\<lambda>s2. Inr (Commit (), s2))) = Inr (vd, s')"
      using assms m True unfolding handle_tx_def by (simp add: Let_def)
    obtain row where row: "query_row e ''find order'' ow_id (AggregateID v) (os_orders s) = Inr row"
        "if ow_status row = target \<or> ow_status row = ''cancelled'' then vd = Commit () \<and> s' = ?s1
         else validTransition (ow_status row) target \<and> vd = Commit () \<and>
           apply_status e c v (ow_status row) target ?s1 = Inr s'"
      using rest unfolding andthen_Inr[of "query_row _ _ _ _ _"] by (auto simp: andthen_Inr split: if_splits)
    obtain ok where "uuid_key (AggregateID v) = Some ok" "row_find ow_id ok (os_orders s) = Some row"
      using row(1) by (auto simp: query_row_Inr)
    note ok = this
    show ?thesis
    proof (cases "ow_status row = target \<or> ow_status row = ''cancelled''")
      case True
      then have "vd = Commit ()" "s' = ?s1" using row(2) by simp_all
      then show ?thesis using kk by (intro marked[OF k(1) kk(1)]) simp_all
    next
      case False
      then have r: "validTransition (ow_status row) target" "vd = Commit ()"
          "apply_status e c v (ow_status row) target ?s1 = Inr s'"
        using row(2) by simp_all
      have "moves_to ok (ow_status row) target ?s1 s'" using r(3) ok(1) by (rule apply_status_moves)
      then show ?thesis using kk by (intro changed[OF k(1) kk(1) r(2) ok r(1)]) simp
    qed
  qed
qed

lemma moves_to_order:
  assumes "moves_to k previous target (s\<lparr>os_processed := seen\<rparr>) s'"
  shows "os_processed s' = seen" "s' \<noteq> s"
  using assms by (auto simp: moves_to_def moved_def dest: arg_cong[where f = os_history])

lemma handle_event_tx:
  assumes "handle_event tracer e value s = (res, s')"
  obtains (same) "s' = s"
  | (tx) v target where "Unmarshal value = Inr v" "target_status v = Inr (Some target)"
      "handle_tx e (consumer_ctx tracer v) v target s = Inr (Commit (), s')"
proof (cases "s' = s")
  case False
  then obtain v target r where v: "Unmarshal value = Inr v" "target_status v = Inr (Some target)"
      "with_tx e id id (handle_tx e (consumer_ctx tracer v) v target) s = (r, s')"
    using assms
    by (auto simp: handle_event_def wrap_def split: sum.splits option.splits prod.splits)
  then show ?thesis using False tx by (auto elim!: with_tx_cases)
qed (rule same)

text \<open>An event moves the order it is about, to the status it asks for.\<close>

definition asks :: "json option \<Rightarrow> string \<Rightarrow> string \<Rightarrow> bool" where
  "asks value k st \<longleftrightarrow>
     (\<exists>v. Unmarshal value = Inr v \<and> target_status v = Inr (Some st) \<and> uuid_key (AggregateID v) = Some k)"

lemma handle_event_guarded:
  assumes "handle_event tracer e value s = (res, s')"
  shows "osteps_if (asks value) s s'"
  using assms
proof (cases rule: handle_event_tx)
  case (tx v target)
  from tx(3) show ?thesis
  proof (cases rule: handle_tx_cases)
    case (marked k)
    then show ?thesis using ostep_if.mark by auto
  next
    case (changed k ok w)
    have "ostep_if (asks value) s (s\<lparr>os_processed := os_processed s @ [k]\<rparr>)" by (rule ostep_if.mark)
    moreover have "ostep_if (asks value) (s\<lparr>os_processed := os_processed s @ [k]\<rparr>) s'"
      using changed tx(1,2) by (intro moves_to_step[of ok w target]) (auto simp: may_move_def asks_def)
    ultimately show ?thesis by auto
  qed simp
qed simp

lemma handle_event_steps: "handle_event tracer e value s = (res, s') \<Longrightarrow> osteps s s'"
  by (rule osteps_if_mono[OF handle_event_guarded]) simp_all

interpretation ob: inbox "handle_event tracer" "\<lambda>s. set (os_processed s)" for tracer
proof unfold_locales
  fix v k e and s :: orders
  assume "event_key v = Some k" and k: "k \<in> set (os_processed s)"
  then obtain m where m: "Unmarshal v = Inr m" "uuid_key (EventID m) = Some k"
    by (auto simp: event_key_def split: sum.splits)
  obtain r s' where h: "handle_event tracer e v s = (r, s')" by fastforce
  then have "s' = s"
  proof (cases rule: handle_event_tx)
    case (tx v' target)
    then show ?thesis using m k by (auto elim!: handle_tx_cases)
  qed
  then show "snd (handle_event tracer e v s) = s" using h by simp
next
  fix e v and s :: orders
  obtain r s' where h: "handle_event tracer e v s = (r, s')" by fastforce
  then have "s' \<noteq> s \<Longrightarrow> \<exists>k. event_key v = Some k \<and> k \<in> set (os_processed s')"
    by (cases rule: handle_event_tx)
       (auto simp: event_key_def elim!: handle_tx_cases dest: moves_to_order(1))
  then show "snd (handle_event tracer e v s) \<noteq> s \<Longrightarrow>
      \<exists>k. event_key v = Some k \<and> k \<in> set (os_processed (snd (handle_event tracer e v s)))"
    using h by simp
next
  fix e v and s :: orders
  obtain r s' where h: "handle_event tracer e v s = (r, s')" by fastforce
  then have "set (os_processed s) \<subseteq> set (os_processed s')"
    by (cases rule: handle_event_tx) (auto elim!: handle_tx_cases dest: moves_to_order(1))
  then show "set (os_processed s) \<subseteq> set (os_processed (snd (handle_event tracer e v s)))"
    using h by simp
next
  fix e v err and s s' :: orders
  assume h: "handle_event tracer e v s = (Inl err, s')" and c: "commit_of e \<noteq> CommitLost"
  show "s' = s"
  proof (cases "\<exists>m target. Unmarshal v = Inr m \<and> target_status m = Inr (Some target)")
    case True
    then obtain m target where m: "Unmarshal v = Inr m" "target_status m = Inr (Some target)" by blast
    obtain x t where x: "with_tx e id id (handle_tx e (consumer_ctx tracer m) m target) s = (x, t)" by fastforce
    then have "x = Inl err \<and> s' = t" using h m by (cases x) (simp_all add: handle_event_def)
    then show ?thesis using with_tx_error[OF _ c] x by auto
  next
    case False
    then show ?thesis using h by (auto simp: handle_event_def wrap_def split: sum.splits option.splits)
  qed
qed

section \<open>Checkout\<close>

text \<open>What \<open>prepareIdempotency\<close> leaves behind for a key it lets pass.\<close>

lemma prepareIdempotency_cases:
  assumes "prepareIdempotency e key hash s = (res, s')"
  obtains (refused) a where "res = Inl a" "\<And>T. osteps_if T s s'"
  | (replayed) k v where "s' = s" "row_find ik_key key (os_keys s) = Some k" "ik_hash k = hash"
      "ik_state k = ''completed''" "decode_order (ik_response k) = Inr v" "res = Inr (ik_attempt k, Some v)"
  | (passed) k where "res = Inr (ik_attempt k, None)" "\<And>T. osteps_if T s s'" "ik_hash k = hash"
      "row_find ik_key key (os_keys s') = Some k" "ik_state k \<noteq> ''completed''"
proof (cases "row_find ik_key key (os_keys s)")
  case None
  define row where "row u = \<lparr>ik_key = key, ik_hash = hash, ik_attempt = u,
      ik_state = ''processing'', ik_response = None\<rparr>" for u
  have step: "osteps_if T s (s\<lparr>os_keys := os_keys s @ [row u]\<rparr>)" for u T
    using None by (intro r_into_rtranclp ostep_if.remember) (auto simp: row_def)
  have found: "row_find ik_key key (os_keys (s\<lparr>os_keys := os_keys s @ [row u]\<rparr>)) = Some (row u)"
      "ik_attempt (row u) = u" "ik_hash (row u) = hash" "ik_state (row u) \<noteq> ''completed''" for u
    using None by (simp_all add: row_def)
  have "(\<exists>a. res = Inl a \<and> (\<forall>T. osteps_if T s s')) \<or>
      (\<exists>u. res = Inr (u, None) \<and> s' = s\<lparr>os_keys := os_keys s @ [row u]\<rparr>)"
    using assms None step
    by (auto simp: prepareIdempotency_def Let_def row_def[symmetric] split: sum.splits if_splits)
  then show ?thesis
  proof (elim disjE exE conjE)
    fix u assume "res = Inr (u, None)" "s' = s\<lparr>os_keys := os_keys s @ [row u]\<rparr>"
    then show ?thesis using passed[of "row u"] found[of u] step by simp
  qed (use refused in blast)
next
  case (Some k)
  then show ?thesis
    using assms refused replayed passed
    by (auto simp: prepareIdempotency_def split: if_splits sum.splits)
qed

lemma insert_order_items_rows:
  assumes "for_each (insert_order_item e orderID) items rows = Inr rows'" and "uuid_key orderID = Some k"
  shows "\<exists>new. rows' = rows @ new \<and> (\<forall>r \<in> set new. ir_order r = k) \<and>
    list_all2 (\<lambda>i r. uuid_key (oi_product i) = Some (ir_product r) \<and> ir_name r = oi_name i \<and>
      ir_quantity r = oi_quantity i \<and> ir_price r = oi_price i) items new"
  using assms(1)
proof (induction items arbitrary: rows)
  case (Cons i items)
  then obtain rows1 where r: "insert_order_item e orderID i rows = Inr rows1"
      "for_each (insert_order_item e orderID) items rows1 = Inr rows'"
    by (auto simp: err_simps)
  obtain p where "uuid_key (oi_product i) = Some p" "rows1 = rows @ [\<lparr>ir_order = k, ir_product = p,
      ir_name = oi_name i, ir_quantity = oi_quantity i, ir_price = oi_price i\<rparr>]"
    using r(1) assms(2) by (auto simp: insert_order_item_def err_simps)
  then show ?case using Cons.IH[OF r(2)] by (fastforce simp: list_all2_Cons1)
qed simp

definition stored_order :: "order \<Rightarrow> order_row \<Rightarrow> bool" where
  "stored_order v w \<longleftrightarrow> uuid_key (od_id v) = Some (ow_id w) \<and> uuid_key (od_user v) = Some (ow_user w) \<and>
     uuid_key (od_reservation v) = Some (ow_reservation w) \<and> char3 (od_currency v) = Inr (ow_currency w) \<and>
     ow_version w = od_version v \<and> ow_status w = ''created'' \<and> ow_total w = od_total v \<and>
     ow_lat w = od_lat v \<and> ow_lon w = od_lon v \<and> ow_created w = pg_time (od_created v)"

definition stored_items :: "order_item list \<Rightarrow> item_row list \<Rightarrow> bool" where
  "stored_items items rows \<longleftrightarrow>
     list_all2 (\<lambda>i r. uuid_key (oi_product i) = Some (ir_product r) \<and> ir_name r = oi_name i \<and>
       ir_quantity r = oi_quantity i \<and> ir_price r = oi_price i) items rows"

lemma persist_tx_places:
  assumes "persist_tx e c key v s = Inr (vd, s')" and "uuid_key (od_id v) = Some (od_id v)"
  obtains w items ev where "vd = Commit v" "s' = placed w items ev key (json_order v) s"
    "row_find ow_id (ow_id w) (os_orders s) = None"
    "row_find ow_reservation (ow_reservation w) (os_orders s) = None"
    "ow_id w = od_id v" "stored_order v w" "stored_items (od_items v) items"
    "\<forall>r \<in> set items. ir_order r = ow_id w"
    "order_says ev ''order.created'' (ow_id w) (created_payload v)"
proof -
  obtain ords items ob where
    o: "insert_order e v s = Inr ords" and
    i: "for_each (insert_order_item e (od_id v)) (od_items v) (os_items s) = Inr items" and
    ob: "emit e c ''order.created'' (od_id v) (created_payload v) (os_outbox s) = Inr ob" and
    vd: "vd = Commit v" and
    s': "s' = s\<lparr>os_orders := ords, os_items := items, os_outbox := ob,
              os_keys := row_update ik_key key (complete_key (json_order v)) (os_keys s)\<rparr>"
    using assms(1) by (auto simp: persist_tx_def andthen_Inr)
  obtain new where new: "items = os_items s @ new" "\<forall>r \<in> set new. ir_order r = od_id v"
      "stored_items (od_items v) new"
    using insert_order_items_rows[OF i assms(2)] by (auto simp: stored_items_def)
  obtain ev where ev: "ob = os_outbox s @ [ev]" "order_says ev ''order.created'' (od_id v) (created_payload v)"
    using emit_Inr[OF ob] assms(2) by auto
  obtain u rid cur where w': "uuid_key (od_user v) = Some u" "uuid_key (od_reservation v) = Some rid"
      "char3 (od_currency v) = Inr cur" "row_find ow_reservation rid (os_orders s) = None"
      "row_find ow_id (od_id v) (os_orders s) = None"
      "ords = os_orders s @ [\<lparr>ow_id = od_id v, ow_user = u, ow_reservation = rid, ow_version = od_version v,
          ow_status = ''created'', ow_total = od_total v, ow_currency = cur, ow_lat = od_lat v,
          ow_lon = od_lon v, ow_created = pg_time (od_created v)\<rparr>]" (is "ords = _ @ [?w]")
    using o assms(2) by (auto simp: insert_order_def andthen_Inr as_uuid_Inr exec_insert_Inr)
  then obtain w where w: "ords = os_orders s @ [w]" "stored_order v w" "ow_id w = od_id v"
      "row_find ow_id (ow_id w) (os_orders s) = None"
      "row_find ow_reservation (ow_reservation w) (os_orders s) = None"
    using assms(2) by (intro that[of ?w]) (simp_all add: stored_order_def)
  show ?thesis
    using that[of w new ev] vd new ev w unfolding s' by (simp add: placed_def)
qed

lemma persistOrder_cases:
  assumes "persistOrder e c key request r lat lon s = (res, s')"
  obtains (same) err where "s' = s" "res = Inl err"
  | (stored) v w items ev where "v = new_order e (format_uuid (rand e ''order'')) request r lat lon"
      "s' = placed w items ev key (json_order v) s" "res = Inr v \<or> (\<exists>err. res = Inl err) \<and> commit_of e = CommitLost"
      "row_find ow_id (ow_id w) (os_orders s) = None"
      "row_find ow_reservation (ow_reservation w) (os_orders s) = None"
      "ow_id w = od_id v" "stored_order v w" "stored_items (od_items v) items"
      "\<forall>r \<in> set items. ir_order r = ow_id w"
      "order_says ev ''order.created'' (ow_id w) (created_payload v)"
proof -
  let ?v = "new_order e (format_uuid (rand e ''order'')) request r lat lon"
  have id: "uuid_key (od_id ?v) = Some (od_id ?v)" by (simp add: new_order_def format_uuid_key)
  obtain x t where tx: "with_tx e id id (persist_tx e c key ?v) s = (x, t)" by fastforce
  show ?thesis
  proof (cases "NewUUID e ''order''")
    case (Inl err)
    then show ?thesis using assms by (auto simp: persistOrder_def intro: same)
  next
    case (Inr u)
    then have u: "u = format_uuid (rand e ''order'')" by (simp add: NewUUID_Inr)
    have s': "s' = t" and res: "res = (case x of Inl err \<Rightarrow> Inl err | Inr (Commit v) \<Rightarrow> Inr v | Inr (Abandon v) \<Rightarrow> Inr v)"
      using assms tx Inr unfolding persistOrder_def u by (auto split: sum.splits verdict.splits)
    show ?thesis
    proof (cases "\<exists>a. persist_tx e c key ?v s = Inr (Commit a, t)")
      case True
      then obtain a where a: "persist_tx e c key ?v s = Inr (Commit a, t)" by blast
      from a id show ?thesis
      proof (rule persist_tx_places)
        fix w items ev
        assume p: "Commit a = Commit ?v" "t = placed w items ev key (json_order ?v) s"
          "row_find ow_id (ow_id w) (os_orders s) = None"
          "row_find ow_reservation (ow_reservation w) (os_orders s) = None"
          "ow_id w = od_id ?v" "stored_order ?v w" "stored_items (od_items ?v) items"
          "\<forall>r \<in> set items. ir_order r = ow_id w"
          "order_says ev ''order.created'' (ow_id w) (created_payload ?v)"
        have "t \<noteq> s" using p(2) by (auto simp: placed_def dest: arg_cong[where f = os_orders])
        then have "res = Inr ?v \<or> (\<exists>err. res = Inl err) \<and> commit_of e = CommitLost"
          using tx a p(1) unfolding res
          by (auto simp: with_tx_def split: if_splits commit_outcome.splits)
        then show ?thesis using p s' by (intro stored[of ?v w items ev]) simp_all
      qed
    next
      case False
      then have "t = s" using tx by (auto elim!: with_tx_cases)
      moreover have "\<exists>err. x = Inl err"
      proof (rule ccontr)
        assume "\<not> ?thesis"
        then obtain y where y: "x = Inr y" by (cases x) auto
        then obtain vd t' where vd: "persist_tx e c key ?v s = Inr (vd, t')" "vd = y" "y = Commit z \<Longrightarrow> t' = t" for z
          using tx by (cases y) (auto simp: with_tx_Commit with_tx_Abandon)
        from vd(1) id show False
          by (rule persist_tx_places) (use vd False in auto)
      qed
      ultimately show ?thesis using same s' res by auto
    qed
  qed
qed

lemma Create_guarded:
  assumes "Create sha e c carts reserve release ttl key request (s, w) = (res, s', w')"
  shows "osteps_if T s s'"
proof (cases "fails e ''acquire connection'' \<or> fails e ''advisory lock''")
  case True
  then show ?thesis using assms by (auto simp: Create_def)
next
  case ok: False
  obtain p s1 where p: "prepareIdempotency e key (requestHash sha request) s = (p, s1)" by fastforce
  then show ?thesis
  proof (cases rule: prepareIdempotency_cases)
    case (refused a)
    then show ?thesis using assms ok p by (auto simp: Create_def)
  next
    case (replayed k v)
    then show ?thesis using assms ok p by (auto simp: Create_def)
  next
    case (passed k)
    show ?thesis
    proof (cases "s' = s1")
      case False
      then obtain r lat lon x where "persistOrder e c key request r lat lon s1 = (x, s')"
        using assms ok p passed(1)
        by (auto simp: Create_def checkout_def split: sum.splits prod.splits if_splits upstream_error.splits)
      then have "osteps_if T s1 s'"
      proof (cases rule: persistOrder_cases)
        case (stored v w items ev)
        have "uuid_key (ow_id w) = Some (ow_id w)"
          using stored(1,6) by (simp add: new_order_def format_uuid_key)
        then have "ostep_if T s1 s'"
          unfolding stored(2) using stored passed(4,5)
          by (intro ostep_if.place) (auto simp: stored_order_def)
        then show ?thesis by simp
      qed simp
      then show ?thesis using passed(2) by (meson rtranclp_trans)
    qed (use passed in simp)
  qed
qed

lemmas Create_steps = Create_guarded[where T = "\<lambda>_ _. True"]

end
