(* ===== verification/OrderHistory.thy ===== *)
theory OrderHistory
  imports OrderRefine
begin

text \<open>
  Histories of the order service and the facts its properties rest on: statuses along a history
  and the round trip of an order through its stored JSON.
\<close>

section \<open>Histories of the service\<close>

text \<open>
  Requests and delivery events in any order; each call brings its own surroundings and its own
  answers of the cart and catalog services.
\<close>

datatype order_op =
    CheckoutOp env ctx "string \<Rightarrow> upstream_error + user_cart"
      "stock_request \<Rightarrow> upstream_error + stock_reservation" duration string http_body
  | CancelOp env ctx "string \<Rightarrow> upstream_error + unit" string
  | EventOp "(string \<times> string) option" env "json option"

fun order_op_step :: "(json \<Rightarrow> byte list) \<Rightarrow> order_op \<Rightarrow> orders \<Rightarrow> orders" where
  "order_op_step sha (CheckoutOp e c carts reserve ttl header body) s =
     fst (snd (create sha e c (\<lambda>u w. (carts u, w)) (\<lambda>r w. (reserve r, w)) (\<lambda>_ w. (Inr (), w))
       ttl header body (s, ())))"
| "order_op_step sha (CancelOp e c release orderID) s =
     fst (snd (cancel e c (\<lambda>i w. (release i, w)) orderID (s, ())))"
| "order_op_step sha (EventOp tracer e bytes) s = snd (handle_event tracer e bytes s)"

definition order_run :: "(json \<Rightarrow> byte list) \<Rightarrow> order_op list \<Rightarrow> orders \<Rightarrow> orders" where
  "order_run sha = fold (order_op_step sha)"

lemma order_op_steps: "osteps s (order_op_step sha op s)"
proof (cases op)
  case (CheckoutOp e c carts reserve ttl header body)
  let ?s' = "order_op_step sha op s"
  show ?thesis
  proof (cases "?s' = s")
    case False
    then obtain key request res w' where
      "Create sha e c (\<lambda>u w. (carts u, w)) (\<lambda>r w. (reserve r, w)) (\<lambda>_ w. (Inr (), w)) ttl key request (s, ()) =
        (res, ?s', w')"
      by (auto simp: CheckoutOp create_def Let_def split: sum.splits prod.splits if_splits)
    then show ?thesis by (rule Create_steps)
  qed simp
next
  case (CancelOp e c release orderID)
  let ?s' = "order_op_step sha op s"
  show ?thesis
  proof (cases "?s' = s")
    case False
    then obtain res w' where "Cancel e c (\<lambda>i w. (release i, w)) orderID (s, ()) = (res, ?s', w')"
      by (auto simp: CancelOp cancel_def split: sum.splits prod.splits if_splits)
    then show ?thesis by (rule Cancel_steps)
  qed simp
next
  case (EventOp tracer e bytes)
  have "handle_event tracer e bytes s = (fst (handle_event tracer e bytes s), order_op_step sha op s)"
    by (simp add: EventOp)
  then show ?thesis by (rule handle_event_steps)
qed

lemma order_run_steps: "osteps s (order_run sha ops s)"
proof (induction ops arbitrary: s)
  case (Cons op ops)
  have "osteps s (order_op_step sha op s)" by (rule order_op_steps)
  also have "osteps \<dots> (order_run sha ops (order_op_step sha op s))" by (rule Cons)
  finally show ?case by (simp add: order_run_def)
qed (simp add: order_run_def)

section \<open>Statuses along a history\<close>

lemma may_moves_stages:
  assumes "may_move\<^sup>*\<^sup>* a b" and "a = stage_name x"
  shows "\<exists>y. b = stage_name y \<and> moves\<^sup>*\<^sup>* x y"
  using assms
proof (induction rule: rtranclp_induct)
  case (step b c)
  then obtain y where y: "b = stage_name y" "moves\<^sup>*\<^sup>* x y" by blast
  then show ?case using step.hyps(2) by (auto simp: may_move_iff intro: rtranclp.rtrancl_into_rtrancl)
qed auto

lemma moves_star_forward: "moves\<^sup>*\<^sup>* x y \<Longrightarrow> x \<le> y"
  by (induction rule: rtranclp_induct) (auto dest: moves_forward)

lemma moves_final: "moves\<^sup>*\<^sup>* x y \<Longrightarrow> x \<in> {Delivered, CancelledOrder} \<Longrightarrow> y = x"
  by (induction rule: converse_rtranclp_induct) (auto simp: moves_from)

lemma rank_moves: "moves x y \<Longrightarrow> rank x < rank y \<and> (y = CancelledOrder \<longrightarrow> rank x \<le> 1)"
  by (induction rule: moves.induct) auto

text \<open>No order changes its status more than four times.\<close>

lemma replay_stage:
  assumes "replay (stage_name x) hs = Some st"
  shows "\<exists>y. st = stage_name y \<and> moves\<^sup>*\<^sup>* x y \<and>
    (y = CancelledOrder \<longrightarrow> x = CancelledOrder \<or> rank x + length hs \<le> 2) \<and>
    (y \<noteq> CancelledOrder \<longrightarrow> rank x + length hs \<le> rank y)"
  using assms
proof (induction hs arbitrary: x)
  case (Cons h hs)
  then obtain z where z: "moves x z" "hs_new h = stage_name z" "replay (stage_name z) hs = Some st"
    by (auto simp: may_move_iff split: if_splits)
  obtain y where y: "st = stage_name y" "moves\<^sup>*\<^sup>* z y"
      "y = CancelledOrder \<longrightarrow> z = CancelledOrder \<or> rank z + length hs \<le> 2"
      "y \<noteq> CancelledOrder \<longrightarrow> rank z + length hs \<le> rank y"
    using Cons.IH[OF z(3)] by blast
  have "hs = []" if "z = CancelledOrder"
    using z(3) that by (cases hs) (auto simp: may_move_iff moves_from split: if_splits, metis moves_from(6) stage_name.simps(6) stage_name_inj)
  then show ?case
    using y z(1) rank_moves[OF z(1)]
    by (intro exI[of _ y]) (auto intro: converse_rtranclp_into_rtranclp)
qed auto

lemma replay_bound:
  assumes "replay ''created'' hs = Some st"
  shows "(\<exists>y. st = stage_name y) \<and> length hs \<le> 4"
proof -
  obtain y where "st = stage_name y" "y = CancelledOrder \<longrightarrow> length hs \<le> 2" "y \<noteq> CancelledOrder \<longrightarrow> length hs \<le> rank y"
    using replay_stage[of Created hs st] assms by auto
  moreover from this have "length hs \<le> 4" by (cases y) auto
  ultimately show ?thesis by blast
qed

section \<open>Round trip of a stored order\<close>

definition order_json_ok :: "order \<Rightarrow> bool" where
  "order_json_ok v \<longleftrightarrow> int64 (od_version v) \<and> int64 (od_total v) \<and>
     (\<forall>i \<in> set (od_items v). int64 (oi_quantity i) \<and> int64 (oi_price i))"

lemma decode_order_item_json:
  "int64 (oi_quantity i) \<Longrightarrow> int64 (oi_price i) \<Longrightarrow> decode_order_item (json_order_item i) = Inr i"
  by (simp add: decode_order_item_def json_order_item_def same_key_def ascii_lower_def del: to_int.simps)

lemma json_order_item_not_null [simp]: "json_order_item i \<noteq> JNull"
  by (simp add: json_order_item_def)

lemma order_fields: "plain_key ''id''" "plain_key ''user_id''" "plain_key ''reservation_id''"
    "plain_key ''cart_version''" "plain_key ''status''" "plain_key ''items''"
    "plain_key ''total_amount_minor''" "plain_key ''currency''" "plain_key ''delivery_latitude''"
    "plain_key ''delivery_longitude''" "plain_key ''created_at''"
  by (code_simp)+

lemma decode_order_json:
  assumes "order_json_ok v"
  shows "decode_order (Some (json_order v)) = Inr v"
proof -
  have items: "to_list (ok \<circ> decode_order_item) zero_order_item (map json_order_item (od_items v)) = Some (od_items v)"
    using assms by (intro to_list_map) (auto simp: order_json_ok_def decode_order_item_json)
  have ints: "to_int (JInt (od_version v)) = Some (od_version v)" "to_int (JInt (od_total v)) = Some (od_total v)"
    using assms by (simp_all add: order_json_ok_def del: to_int.simps)
  show ?thesis
    using items ints
    by (simp add: decode_order_def json_order_def same_key_plain order_fields del: to_int.simps)
qed

end
