(* ===== verification/OrderProps.thy ===== *)
theory OrderProps
  imports OrderHistory
begin

text \<open>
  The properties of the order service: the life of an order along any history, terminal states,
  idempotent checkout, reading one's own order, cancellation, the effect of delivery events and
  the event stream.
\<close>

section \<open>Properties\<close>

definition demo_user :: string where "demo_user = ''00000000-0000-4000-8000-000000000001''"
definition order_1 :: string where "order_1 = ''30000000-0000-4000-8000-000000000001''"
definition reservation_1 :: string where "reservation_1 = ''50000000-0000-4000-8000-000000000001''"
definition product_1 :: string where "product_1 = ''10000000-0000-4000-8000-000000000001''"

definition no_ctx :: ctx where "no_ctx = \<lparr>ctx_correlation = [], ctx_span = None\<rparr>"

text \<open>Surroundings in which nothing fails and the labels used draw different bytes.\<close>

definition label_env :: env where
  "label_env = quiet_env\<lparr>rand := (\<lambda>l i. if i = 0 then of_nat (length l) else 0)\<rparr>"

lemma order_keys: "uuid_key demo_user = Some demo_user" "uuid_key order_1 = Some order_1"
    "uuid_key reservation_1 = Some reservation_1" "uuid_key product_1 = Some product_1"
  by (code_simp)+

text \<open>A database with one user and one confirmed order.\<close>

definition confirmed_row :: order_row where
  "confirmed_row = \<lparr>ow_id = order_1, ow_user = demo_user, ow_reservation = reservation_1, ow_version = 3,
     ow_status = ''confirmed'', ow_total = 49800, ow_currency = ''RUB'', ow_lat = 55, ow_lon = 82,
     ow_created = 0\<rparr>"

definition sample_event :: "string \<Rightarrow> string \<Rightarrow> outbox_row" where
  "sample_event ty eid = \<lparr>ob_event_id = eid, ob_topic = ''freshflow.order.events.v1'', ob_event_key = order_1,
     ob_event_type = ty, ob_aggregate_id = order_1, ob_correlation_id = [], ob_trace_id = [],
     ob_envelope = JNull, ob_occurred_at = 0, ob_attempts = 0, ob_published_at = None,
     ob_last_error = None\<rparr>"

definition order_db :: orders where
  "order_db = \<lparr>os_users = [\<lparr>us_id = demo_user, us_lat = 55, us_lon = 82\<rparr>], os_orders = [confirmed_row],
     os_items = [\<lparr>ir_order = order_1, ir_product = product_1, ir_name = ''Apples'', ir_quantity = 2,
        ir_price = 24900\<rparr>],
     os_history = [\<lparr>hs_order = order_1, hs_previous = ''created'', hs_new = ''confirmed'', hs_at = 0\<rparr>],
     os_keys = [], os_processed = [],
     os_outbox = [sample_event ''order.created'' product_1, sample_event ''order.status_changed'' order_1]\<rparr>"

lemma order_db_ok: "orders_ok order_db"
  by (simp add: orders_ok_def order_db_def order_consistent_def confirmed_row_def sample_event_def
      may_move_def validTransition_def)

text \<open>
  C18 The life of every order, along any history of requests, delivery events, failures, lost
  commits and answers of the other services: its status is what its recorded changes lead to,
  each change is one the state machine allows, there are at most four of them, and the outbox
  holds one \<open>order.created\<close> event and exactly one \<open>order.status_changed\<close> event per change.
\<close>

theorem order_lifecycle:
  assumes "orders_ok s" and "w \<in> set (os_orders (order_run sha ops s))"
  shows "replay ''created'' (changes_of (ow_id w) (os_history (order_run sha ops s))) = Some (ow_status w) \<and>
    (\<exists>st. ow_status w = stage_name st) \<and>
    length (changes_of (ow_id w) (os_history (order_run sha ops s))) \<le> 4 \<and>
    length (events_of ''order.status_changed'' (ow_id w) (os_outbox (order_run sha ops s))) =
      length (changes_of (ow_id w) (os_history (order_run sha ops s))) \<and>
    length (events_of ''order.created'' (ow_id w) (os_outbox (order_run sha ops s))) = 1"
proof -
  have "orders_ok (order_run sha ops s)" using order_run_steps assms(1) by (rule osteps_ok)
  then have c: "order_consistent (os_history (order_run sha ops s)) (os_outbox (order_run sha ops s)) w"
    using assms(2) by (simp add: orders_ok_def)
  then show ?thesis using replay_bound by (auto simp: order_consistent_def)
qed

theorem order_lifecycle_witness:
  "replay ''created'' (changes_of (ow_id confirmed_row) (os_history (order_run (\<lambda>_. []) [] order_db))) =
     Some (ow_status confirmed_row) \<and>
   (\<exists>st. ow_status confirmed_row = stage_name st) \<and>
   length (changes_of (ow_id confirmed_row) (os_history (order_run (\<lambda>_. []) [] order_db))) \<le> 4 \<and>
   length (events_of ''order.status_changed'' (ow_id confirmed_row) (os_outbox (order_run (\<lambda>_. []) [] order_db))) =
     length (changes_of (ow_id confirmed_row) (os_history (order_run (\<lambda>_. []) [] order_db))) \<and>
   length (events_of ''order.created'' (ow_id confirmed_row) (os_outbox (order_run (\<lambda>_. []) [] order_db))) = 1"
  by (rule order_lifecycle[OF order_db_ok]) (simp add: order_run_def order_db_def)

text \<open>
  C19 Orders only move forward: along any history an order keeps its data and its stage never goes
  back, and a delivered or cancelled order never changes again.
\<close>

theorem orders_move_forward:
  assumes "row_find ow_id k (os_orders s) = Some w" and "ow_status w = stage_name a"
  shows "\<exists>w' b. row_find ow_id k (os_orders (order_run sha ops s)) = Some w' \<and>
    ow_status w' = stage_name b \<and> a \<le> b \<and> order_data w' = order_data w \<and>
    (a \<in> {Delivered, CancelledOrder} \<longrightarrow> w' = w)"
proof -
  obtain w' where w': "row_find ow_id k (os_orders (order_run sha ops s)) = Some w'"
      "order_data w' = order_data w" "may_move\<^sup>*\<^sup>* (ow_status w) (ow_status w')"
    using osteps_order_kept[OF order_run_steps assms(1)] by blast
  obtain b where b: "ow_status w' = stage_name b" "moves\<^sup>*\<^sup>* a b"
    using may_moves_stages[OF w'(3) assms(2)] by blast
  have "w' = w" if "a \<in> {Delivered, CancelledOrder}"
  proof -
    have "ow_status w' = ow_status w" using moves_final[OF b(2) that] b(1) assms(2) by simp
    then show ?thesis using w'(2) by (cases w; cases w') (simp add: order_data_def)
  qed
  then show ?thesis using w' b moves_star_forward by blast
qed

theorem orders_move_forward_witness:
  "\<exists>w' b. row_find ow_id order_1 (os_orders (order_run (\<lambda>_. []) [EventOp None quiet_env None] order_db)) = Some w' \<and>
    ow_status w' = stage_name b \<and> Confirmed \<le> b \<and> order_data w' = order_data confirmed_row \<and>
    (Confirmed \<in> {Delivered, CancelledOrder} \<longrightarrow> w' = confirmed_row)"
  by (rule orders_move_forward) (simp_all add: order_db_def confirmed_row_def)

section \<open>Checkout\<close>

text \<open>The numbers of a reservation, decoded from JSON into the client's struct, are \<open>int64\<close>.\<close>

definition int64_reserver :: "'w reserver \<Rightarrow> bool" where
  "int64_reserver reserve \<longleftrightarrow>
     (\<forall>q x r y. reserve q x = (Inr r, y) \<longrightarrow> int64 (sn_total r) \<and>
        (\<forall>i \<in> set (sn_items r). int64 (oi_quantity i) \<and> int64 (oi_price i)))"

text \<open>What a successful \<open>Create\<close> leaves under its key.\<close>

lemma Create_completes:
  assumes "Create sha e c carts reserve release ttl key request (s, w) = (Inr (v, replayed), s', w')"
    and "int64 (cq_version request)"
    and "int64_reserver reserve"
  shows "\<exists>k. row_find ik_key key (os_keys s') = Some k \<and> ik_state k = ''completed'' \<and>
    ik_hash k = requestHash sha request \<and> decode_order (ik_response k) = Inr v"
proof -
  have ok: "\<not> fails e ''acquire connection''" "\<not> fails e ''advisory lock''"
    using assms(1) by (auto simp: Create_def split: if_splits)
  obtain p s1 where p: "prepareIdempotency e key (requestHash sha request) s = (p, s1)" by fastforce
  then show ?thesis
  proof (cases rule: prepareIdempotency_cases)
    case (refused a)
    then show ?thesis using assms(1) ok p by (simp add: Create_def)
  next
    case (replayed k v')
    then show ?thesis using assms(1) ok p by (auto simp: Create_def)
  next
    case (passed k)
    obtain r lat lon q x y where r: "persistOrder e c key request r lat lon s1 = (Inr v, s')" "reserve q x = (Inr r, y)"
      using assms(1) ok p passed(1)
      by (auto simp: Create_def checkout_def split: sum.splits prod.splits if_splits upstream_error.splits)
    from r(1) show ?thesis
    proof (cases rule: persistOrder_cases)
      case (stored v' w items ev)
      then have v: "v' = v" by simp
      have "order_json_ok v" using stored(1) assms(2,3) r(2) unfolding v[symmetric]
        by (auto simp: order_json_ok_def new_order_def int64_reserver_def)
      then show ?thesis
        using passed(3,4) stored(2)
        by (auto simp: placed_def row_find_update complete_key_def decode_order_json v)
    qed simp
  qed
qed

text \<open>
  C20 Idempotent checkout: once a checkout under a key has succeeded, a repeated one with the same
  request, any history later, returns the same order marked as replayed, and one with a different
  request is refused with 409; neither calls the other services or changes anything.
\<close>

theorem Create_idempotent:
  assumes "Create sha e c carts reserve release ttl key request (s, w) = (Inr (v, replayed), s', w')"
    and "int64 (cq_version request)"
    and "int64_reserver reserve"
    and "\<not> fails e2 ''acquire connection''" "\<not> fails e2 ''advisory lock''" "\<not> fails e2 ''find key''"
    and "requestHash sha other \<noteq> requestHash sha request"
  shows "Create sha e2 c2 carts2 reserve2 release2 ttl2 key request (order_run sha ops s', w2) =
      (Inr (v, True), order_run sha ops s', w2) \<and>
    Create sha e2 c2 carts2 reserve2 release2 ttl2 key other (order_run sha ops s', w2) =
      (Inl (Error 409 ''idempotency_key_reused''
        ''Idempotency-Key was already used with a different request'' None), order_run sha ops s', w2)"
proof -
  obtain k where k: "row_find ik_key key (os_keys s') = Some k" "ik_state k = ''completed''"
      "ik_hash k = requestHash sha request" "decode_order (ik_response k) = Inr v"
    using Create_completes[OF assms(1-3)] by blast
  have "row_find ik_key key (os_keys (order_run sha ops s')) = Some k"
    using order_run_steps k(1,2) by (rule osteps_key_kept)
  then show ?thesis using k assms(4-7) by (simp add: Create_def prepareIdempotency_def)
qed

definition demo_carts :: "unit cart_reader" where
  "demo_carts u w = (Inr \<lparr>ca_user = u, ca_version = 3,
     ca_items = [\<lparr>ci_product = product_1, ci_quantity = 2\<rparr>]\<rparr>, w)"

definition reservation_2 :: string where "reservation_2 = ''50000000-0000-4000-8000-000000000002''"

definition demo_reserve :: "unit reserver" where
  "demo_reserve q w = (Inr \<lparr>sn_id = reservation_2, sn_status = ''active'',
     sn_items = [\<lparr>oi_product = product_1, oi_name = ''Apples'', oi_quantity = 2, oi_price = 24900,
       oi_currency = ''RUB''\<rparr>], sn_total = 49800, sn_currency = ''RUB''\<rparr>, w)"

definition demo_release :: "unit releaser" where "demo_release i w = (Inr (), w)"

definition demo_sha :: "json \<Rightarrow> byte list" where
  "demo_sha j = (case j of JObj [_, (_, JInt n)] \<Rightarrow> [word_of_int n] | _ \<Rightarrow> [])"

definition demo_checkout :: checkout_request where
  "demo_checkout = \<lparr>cq_user = demo_user, cq_version = 3\<rparr>"

lemma demo_created:
  "is_ok (fst (Create demo_sha quiet_env no_ctx demo_carts demo_reserve demo_release 900000000000 ''key-1''
     demo_checkout (order_db, ())))"
  by code_simp

lemma demo_reserve_int64: "int64_reserver demo_reserve"
  by (simp add: int64_reserver_def demo_reserve_def int64_def)

theorem Create_idempotent_witness:
  "\<exists>v b s'. Create demo_sha quiet_env no_ctx demo_carts demo_reserve demo_release 900000000000 ''key-1''
     demo_checkout (order_db, ()) = (Inr (v, b), s', ()) \<and>
   Create demo_sha quiet_env no_ctx demo_carts demo_reserve demo_release 0 ''key-1'' demo_checkout
     (order_run demo_sha [] s', ()) = (Inr (v, True), order_run demo_sha [] s', ()) \<and>
   Create demo_sha quiet_env no_ctx demo_carts demo_reserve demo_release 0 ''key-1''
     (demo_checkout\<lparr>cq_version := 4\<rparr>) (order_run demo_sha [] s', ()) =
     (Inl (Error 409 ''idempotency_key_reused''
        ''Idempotency-Key was already used with a different request'' None), order_run demo_sha [] s', ())"
proof -
  obtain v b s' where c: "Create demo_sha quiet_env no_ctx demo_carts demo_reserve demo_release 900000000000
      ''key-1'' demo_checkout (order_db, ()) = (Inr (v, b), s', ())"
    using demo_created by (auto simp: is_ok_iff fst_def split: prod.splits)
  have i: "int64 (cq_version demo_checkout)" by (simp add: demo_checkout_def int64_def)
  have q: "\<not> fails quiet_env l" for l by (simp add: quiet_env_def)
  have "requestHash demo_sha (demo_checkout\<lparr>cq_version := 4\<rparr>) \<noteq> requestHash demo_sha demo_checkout"
    by code_simp
  from Create_idempotent[OF c i demo_reserve_int64 q q q this, of no_ctx demo_carts demo_reserve demo_release 0 "[]" "()"] c
  show ?thesis by blast
qed

section \<open>Reading one's own order\<close>

text \<open>
  What the database makes of an order: UUIDs in their canonical text, the currency padded to three
  characters, the time in microseconds, and the items, which carry the currency of the order, in the
  order of their product ids.
\<close>

definition stored_item :: "string \<Rightarrow> order_item \<Rightarrow> order_item" where
  "stored_item cur i = i\<lparr>oi_product := the (uuid_key (oi_product i)), oi_currency := cur\<rparr>"

definition as_stored :: "order \<Rightarrow> order" where
  "as_stored v =
     (let cur = projr (char3 (od_currency v)) in
      v\<lparr>od_user := the (uuid_key (od_user v)), od_reservation := the (uuid_key (od_reservation v)),
        od_currency := cur, od_items := sort_key oi_product (map (stored_item cur) (od_items v)),
        od_created := pg_time (od_created v)\<rparr>)"

text \<open>An order as the catalog's reservations make them: canonical ids, items sorted by product.\<close>

definition regular_order :: "order \<Rightarrow> bool" where
  "regular_order v \<longleftrightarrow> uuid_key (od_user v) = Some (od_user v) \<and>
     uuid_key (od_reservation v) = Some (od_reservation v) \<and> length (od_currency v) = 3 \<and>
     sorted (map oi_product (od_items v)) \<and>
     list_all (\<lambda>i. uuid_key (oi_product i) = Some (oi_product i) \<and> oi_currency i = od_currency v) (od_items v)"

lemma regular_order_stored:
  assumes "regular_order v"
  shows "as_stored v = v\<lparr>od_created := pg_time (od_created v)\<rparr>"
proof -
  have "map (stored_item (od_currency v)) (od_items v) = od_items v"
    using assms by (intro map_idI) (auto simp: regular_order_def list_all_iff stored_item_def)
  then show ?thesis
    using assms by (cases v) (simp add: as_stored_def regular_order_def char3_def sort_key_id_if_sorted)
qed

lemma sort_key_map: "sort_key k (map f xs) = map f (sort_key (\<lambda>x. k (f x)) xs)"
proof -
  have "insort_key k (f x) (map f ys) = map f (insort_key (\<lambda>x. k (f x)) x ys)" for x ys
    by (induction ys) simp_all
  then show ?thesis by (induction xs) simp_all
qed

lemma stored_items_back:
  assumes "stored_items items rows"
  shows "map (\<lambda>r. \<lparr>oi_product = ir_product r, oi_name = ir_name r, oi_quantity = ir_quantity r,
      oi_price = ir_price r, oi_currency = cur\<rparr>) rows = map (stored_item cur) items"
  using assms unfolding stored_items_def by (induction rule: list_all2_induct) (auto simp: stored_item_def)

lemma order_of_stored:
  assumes "stored_order v w" and "stored_items (od_items v) items"
    and "filter (\<lambda>r. ir_order r = ow_id w) rows = items" and "uuid_key (od_id v) = Some (od_id v)"
    and "od_status v = ''created''"
  shows "order_of w rows = as_stored v"
proof -
  have cur: "projr (char3 (od_currency v)) = ow_currency w" using assms(1) by (simp add: stored_order_def)
  have "items_of w rows = sort_key oi_product (map (stored_item (ow_currency w)) (od_items v))"
    unfolding items_of_def assms(3) using stored_items_back[OF assms(2), of "ow_currency w"]
    by (simp flip: stored_items_back[OF assms(2), of "ow_currency w"] add: sort_key_map)
  then show ?thesis
    using assms(1,4,5) cur by (cases v) (simp add: order_of_def stored_order_def as_stored_def Let_def)
qed

text \<open>What a \<open>Create\<close> that made a new order leaves in the tables.\<close>

lemma Create_places:
  assumes "Create sha e c carts reserve release ttl key request (s, w) = (Inr (v, False), s', w')"
    and "orders_ok s"
  obtains x items where "row_find ow_id (od_id v) (os_orders s') = Some x" "stored_order v x"
    "stored_items (od_items v) items" "filter (\<lambda>r. ir_order r = ow_id x) (os_items s') = items"
    "ow_id x = od_id v" "uuid_key (od_id v) = Some (od_id v)" "orders_ok s'" "od_status v = ''created''"
proof -
  have ok: "\<not> fails e ''acquire connection''" "\<not> fails e ''advisory lock''"
    using assms(1) by (auto simp: Create_def split: if_splits)
  obtain p s1 where p: "prepareIdempotency e key (requestHash sha request) s = (p, s1)" by fastforce
  then show ?thesis
  proof (cases rule: prepareIdempotency_cases)
    case (refused a)
    then show ?thesis using assms(1) ok p by (simp add: Create_def)
  next
    case (replayed k v')
    then show ?thesis using assms(1) ok p by (simp add: Create_def)
  next
    case (passed k)
    obtain r lat lon where r: "persistOrder e c key request r lat lon s1 = (Inr v, s')"
      using assms(1) ok p passed(1)
      by (auto simp: Create_def checkout_def split: sum.splits prod.splits if_splits upstream_error.splits)
    from r show ?thesis
    proof (cases rule: persistOrder_cases)
      case (stored v' x items ev)
      then have v: "v' = v" by simp
      have "orders_ok s1" using passed(2) assms(2) by (rule osteps_ok)
      moreover have "ow_id x \<notin> ow_id ` set (os_orders s1)" using stored(4) by (simp add: row_find_None_iff)
      ultimately have "ir_order r \<noteq> ow_id x" if "r \<in> set (os_items s1)" for r
        using that unfolding orders_ok_def by metis
      then have "filter (\<lambda>r. ir_order r = ow_id x) (os_items s1) = []" by (simp add: filter_empty_conv)
      moreover have "filter (\<lambda>r. ir_order r = ow_id x) items = items" using stored(9) by simp
      ultimately have "filter (\<lambda>r. ir_order r = ow_id x) (os_items s') = items"
        using stored(2) by (simp add: placed_def)
      moreover have "row_find ow_id (od_id v) (os_orders s') = Some x"
        using stored(2,4,6) by (simp add: placed_def v)
      moreover have "uuid_key (od_id v) = Some (od_id v)"
        using stored(1) by (simp add: v new_order_def format_uuid_key)
      moreover have "od_status v = ''created''" using stored(1) by (simp add: v new_order_def)
      moreover have "orders_ok s'"
        using osteps_ok[OF Create_steps[OF assms(1)] assms(2)] .
      ultimately show ?thesis using stored that v by blast
    qed simp
  qed
qed

lemma order_of_data:
  "order_data w' = order_data w \<Longrightarrow> order_of w' rows = (order_of w rows)\<lparr>od_status := ow_status w'\<rparr>"
  by (cases w; cases w') (simp add: order_data_def order_of_def items_of_def)

text \<open>
  C21 Read your own order: after a checkout has created an order, \<open>Get\<close>, any history later, returns
  it as the database stores it: up to its status, which the state machine reaches from \<open>created\<close>,
  every field as created, with the user's, the reservation's and the products' UUIDs in canonical
  text (an upper-case user id comes back in lower case), the currency padded to three characters and
  shared by the items, the items in the order of their products and the time in microseconds. For an
  order that is already written so, as reservations of the catalog for a canonical user are, every
  field but the status and the fraction of the microsecond is as it was created.
\<close>

theorem created_order_is_read:
  assumes "Create sha e c carts reserve release ttl key request (s, w) = (Inr (v, False), s', w')"
    and "orders_ok s"
    and "\<not> fails e2 ''get order''" "\<not> fails e2 ''get items''" "\<not> fails e2 ''scan item''" "\<not> fails e2 ''item rows''"
  shows "\<exists>st. Get e2 (od_id v) (order_run sha ops s') = Inr ((as_stored v)\<lparr>od_status := stage_name st\<rparr>) \<and>
    moves\<^sup>*\<^sup>* Created st \<and>
    (regular_order v \<longrightarrow> as_stored v = v\<lparr>od_created := pg_time (od_created v)\<rparr>)"
proof -
  obtain x items where x: "row_find ow_id (od_id v) (os_orders s') = Some x" "stored_order v x"
    "stored_items (od_items v) items" "filter (\<lambda>r. ir_order r = ow_id x) (os_items s') = items"
    "ow_id x = od_id v" "uuid_key (od_id v) = Some (od_id v)" "orders_ok s'" "od_status v = ''created''"
    using assms(1,2) by (rule Create_places)
  obtain y where y: "row_find ow_id (od_id v) (os_orders (order_run sha ops s')) = Some y"
      "order_data y = order_data x" "may_move\<^sup>*\<^sup>* (ow_status x) (ow_status y)"
    using osteps_order_kept[OF order_run_steps x(1)] by blast
  have "ow_status x = stage_name Created" using x(2) by (simp add: stored_order_def)
  then obtain st where st: "ow_status y = stage_name st" "moves\<^sup>*\<^sup>* Created st"
    using may_moves_stages[OF y(3)] by blast
  have "od_id v \<in> ow_id ` set (os_orders s')" using row_find_SomeD[OF x(1)] by (metis imageI)
  then have "filter (\<lambda>r. ir_order r = ow_id x) (os_items (order_run sha ops s')) = items"
    using osteps_items_kept[OF order_run_steps x(7)] x(4,5) by simp
  then have "order_of x (os_items (order_run sha ops s')) = as_stored v"
    using x(2,3,6,8) by (intro order_of_stored)
  then have "order_of y (os_items (order_run sha ops s')) = (as_stored v)\<lparr>od_status := stage_name st\<rparr>"
    using order_of_data[OF y(2)] st(1) by simp
  then show ?thesis using y(1) x(6) assms(3-6) st(2) regular_order_stored
    by (intro exI[of _ st]) (simp add: Get_def query_row_def as_uuid_def)
qed

text \<open>A checkout by a user whose id is written in upper case.\<close>

definition loud_db :: orders where
  "loud_db = order_db\<lparr>os_users := [\<lparr>us_id = ''a0000000-0000-4000-8000-000000000001'', us_lat = 55, us_lon = 82\<rparr>]\<rparr>"

definition loud_checkout :: checkout_request where
  "loud_checkout = demo_checkout\<lparr>cq_user := ''A0000000-0000-4000-8000-000000000001''\<rparr>"

lemma loud_db_ok: "orders_ok loud_db"
  using order_db_ok by (simp add: orders_ok_def loud_db_def)

lemma regular_created:
  "case Create demo_sha quiet_env no_ctx demo_carts demo_reserve demo_release 900000000000 ''key-1''
     demo_checkout (order_db, ()) of (Inr (v, b), _) \<Rightarrow> \<not> b \<and> regular_order v | _ \<Rightarrow> False"
  by code_simp

lemma loud_created:
  "case Create demo_sha quiet_env no_ctx demo_carts demo_reserve demo_release 900000000000 ''key-1''
     loud_checkout (loud_db, ()) of
       (Inr (v, b), _) \<Rightarrow> \<not> b \<and> od_user v = ''A0000000-0000-4000-8000-000000000001'' \<and>
         od_user (as_stored v) = ''a0000000-0000-4000-8000-000000000001''
     | _ \<Rightarrow> False"
  by code_simp

theorem created_order_is_read_witness:
  "(\<exists>v s' st. Create demo_sha quiet_env no_ctx demo_carts demo_reserve demo_release 900000000000 ''key-1''
      demo_checkout (order_db, ()) = (Inr (v, False), s', ()) \<and>
    Get quiet_env (od_id v) (order_run demo_sha [] s') =
      Inr (v\<lparr>od_status := stage_name st, od_created := pg_time (od_created v)\<rparr>) \<and> moves\<^sup>*\<^sup>* Created st) \<and>
   (\<exists>v s' x. Create demo_sha quiet_env no_ctx demo_carts demo_reserve demo_release 900000000000 ''key-1''
      loud_checkout (loud_db, ()) = (Inr (v, False), s', ()) \<and>
    Get quiet_env (od_id v) (order_run demo_sha [] s') = Inr x \<and>
    od_user v = ''A0000000-0000-4000-8000-000000000001'' \<and> od_user x = ''a0000000-0000-4000-8000-000000000001'')"
proof
  have q: "\<not> fails quiet_env l" for l by (simp add: quiet_env_def)
  obtain v s' where c: "Create demo_sha quiet_env no_ctx demo_carts demo_reserve demo_release 900000000000
      ''key-1'' demo_checkout (order_db, ()) = (Inr (v, False), s', ())" "regular_order v"
    using regular_created by (auto split: prod.splits sum.splits)
  obtain st where "Get quiet_env (od_id v) (order_run demo_sha [] s') = Inr ((as_stored v)\<lparr>od_status := stage_name st\<rparr>)"
      "moves\<^sup>*\<^sup>* Created st" "as_stored v = v\<lparr>od_created := pg_time (od_created v)\<rparr>"
    using created_order_is_read[OF c(1) order_db_ok q q q q, of "[]"] c(2) by blast
  then show "\<exists>v s' st. Create demo_sha quiet_env no_ctx demo_carts demo_reserve demo_release 900000000000 ''key-1''
      demo_checkout (order_db, ()) = (Inr (v, False), s', ()) \<and>
    Get quiet_env (od_id v) (order_run demo_sha [] s') =
      Inr (v\<lparr>od_status := stage_name st, od_created := pg_time (od_created v)\<rparr>) \<and> moves\<^sup>*\<^sup>* Created st"
    using c(1) by (intro exI[of _ v] exI[of _ s'] exI[of _ st]) simp
next
  have q: "\<not> fails quiet_env l" for l by (simp add: quiet_env_def)
  obtain v s' where c: "Create demo_sha quiet_env no_ctx demo_carts demo_reserve demo_release 900000000000
      ''key-1'' loud_checkout (loud_db, ()) = (Inr (v, False), s', ())"
      "od_user v = ''A0000000-0000-4000-8000-000000000001''"
      "od_user (as_stored v) = ''a0000000-0000-4000-8000-000000000001''"
    using loud_created by (auto split: prod.splits sum.splits)
  obtain st where "Get quiet_env (od_id v) (order_run demo_sha [] s') = Inr ((as_stored v)\<lparr>od_status := stage_name st\<rparr>)"
    using created_order_is_read[OF c(1) loud_db_ok q q q q, of "[]"] by blast
  then show "\<exists>v s' x. Create demo_sha quiet_env no_ctx demo_carts demo_reserve demo_release 900000000000 ''key-1''
      loud_checkout (loud_db, ()) = (Inr (v, False), s', ()) \<and>
    Get quiet_env (od_id v) (order_run demo_sha [] s') = Inr x \<and>
    od_user v = ''A0000000-0000-4000-8000-000000000001'' \<and> od_user x = ''a0000000-0000-4000-8000-000000000001''"
    using c by (intro exI[of _ v] exI[of _ s'] exI[of _ "(as_stored v)\<lparr>od_status := stage_name st\<rparr>"]) simp
qed

section \<open>Cancellation\<close>

text \<open>
  C22 Cancellation compensates first: a cancellation that changes anything, or reports success, is
  of an order that was created or confirmed and whose reservation the catalog reported released,
  or of one already cancelled, which it leaves alone; success returns the order as cancelled. An order
  that is being assembled cannot be cancelled, although the state diagram of the architecture
  document draws that transition (see the findings).
\<close>

theorem Cancel_releases_first:
  assumes "Cancel e c release orderID (s, w) = (res, s', w')" and "s' \<noteq> s \<or> res = Inr v"
  shows "\<exists>k row. uuid_key orderID = Some k \<and> row_find ow_id k (os_orders s) = Some row \<and>
    (ow_status row = ''cancelled'' \<and> s' = s \<and> w' = w \<or>
     canCancel (ow_status row) \<and> release (ow_reservation row) w = (Inr (), w') \<and>
       (\<exists>row'. row_find ow_id k (os_orders s') = Some row' \<and> ow_status row' = ''cancelled'')) \<and>
    (res = Inr v \<longrightarrow> od_status v = ''cancelled'')"
proof -
  obtain row k where q: "query_row e ''find order'' ow_id orderID (os_orders s) = Inr row"
      and k: "uuid_key orderID = Some k" "row_find ow_id k (os_orders s) = Some row"
    using assms by (cases "query_row e ''find order'' ow_id orderID (os_orders s)")
      (auto simp: Cancel_def query_row_Inr split: if_splits)
  have b: "\<not> fails e ''begin''" using assms by (auto simp: Cancel_def split: if_splits)
  have read: "od_status v = ''cancelled''"
    if "Get e orderID t = Inr v" "row_find ow_id k (os_orders t) = Some x" "ow_status x = ''cancelled''" for t x
    using that k(1) by (auto simp: Get_def err_simps order_of_def)
  show ?thesis
  proof (cases "ow_status row = ''cancelled''")
    case True
    then have "s' = s" "w' = w" "res = Inr v \<Longrightarrow> Get e orderID s = Inr v"
      using assms(1) q b
      by (auto simp: Cancel_def reread_def finish_def split: commit_outcome.splits sum.splits)
    then show ?thesis using k True read by blast
  next
    case False
    then obtain s1 where s1: "canCancel (ow_status row)" "release (ow_reservation row) w = (Inr (), w')"
        "cancel_tx e c orderID (ow_status row) s = Inr s1" "s' = s1 \<or> s' = s"
        "(res, s') = reread e orderID (finish e s s1)"
      using assms q b
      by (auto simp: Cancel_def reread_def finish_def
          split: if_splits sum.splits prod.splits commit_outcome.splits)
    have "s' = s1" using s1(4,5) assms(2) by (auto simp: reread_def finish_def split: commit_outcome.splits sum.splits)
    obtain row' where row': "row_find ow_id k (os_orders s1) = Some row'" "ow_status row' = ''cancelled''"
      using cancel_tx_moves[OF s1(3) k(1)] k(2) by (auto simp: moves_to_def moved_def row_find_update)
    have "res = Inr v \<Longrightarrow> Get e orderID s1 = Inr v"
      using s1(5) by (auto simp: reread_def finish_def split: commit_outcome.splits sum.splits)
    then show ?thesis using k s1(1,2) row' \<open>s' = s1\<close> read by blast
  qed
qed

theorem Cancel_releases_first_witness:
  "\<exists>v s' k row. Cancel label_env no_ctx demo_release order_1 (order_db, ()) = (Inr v, s', ()) \<and>
     uuid_key order_1 = Some k \<and> row_find ow_id k (os_orders order_db) = Some row \<and>
     (ow_status row = ''cancelled'' \<and> s' = order_db \<and> () = () \<or>
      canCancel (ow_status row) \<and> demo_release (ow_reservation row) () = (Inr (), ()) \<and>
        (\<exists>row'. row_find ow_id k (os_orders s') = Some row' \<and> ow_status row' = ''cancelled'')) \<and>
     (Inr v = (Inr v :: api_error + order) \<longrightarrow> od_status v = ''cancelled'')"
proof -
  have "is_ok (fst (Cancel label_env no_ctx demo_release order_1 (order_db, ())))" by code_simp
  then obtain v s' where c: "Cancel label_env no_ctx demo_release order_1 (order_db, ()) = (Inr v, s', ())"
    by (auto simp: is_ok_iff fst_def split: prod.splits)
  then show ?thesis using Cancel_releases_first[OF c, of v] by blast
qed

section \<open>Delivery events\<close>

lemma emit_total:
  assumes "\<And>l. \<not> fails e l" and "uuid_key orderID = Some k"
    and "format_uuid (rand e ty) \<notin> ob_event_id ` set rows"
  shows "\<exists>ev. emit e c ty orderID payload rows = Inr (rows @ [ev]) \<and> ob_event_id ev = format_uuid (rand e ty)"
proof -
  obtain v where v: "New e c ty ''order-service'' orderID payload = Inr v" "EventID v = format_uuid (rand e ty)"
    using assms(1) by (auto simp: New_Inr)
  have "validSchema ''orders''" by (simp add: validSchema_def)
  then have "Insert e ''orders'' ''freshflow.order.events.v1'' orderID v rows =
      Inr (rows @ [outbox_entry ''freshflow.order.events.v1'' orderID k v])"
    using assms v(2) unfolding Insert_New_Inr[OF v(1)] by (auto simp: row_find_None_iff)
  then show ?thesis using v by (simp add: emit_def outbox_entry_def)
qed

lemma apply_status_total:
  assumes "\<And>l. \<not> fails e l" and "uuid_key (AggregateID v) = Some i"
    and "row_find ow_id i (os_orders s) = Some w" and "target \<in> set order_statuses"
    and "\<And>x. format_uuid (rand e x) \<notin> ob_event_id ` set (os_outbox s)"
    and "format_uuid (rand e ''order.confirmed'') \<noteq> format_uuid (rand e ''order.status_changed'')"
  shows "\<exists>s'. apply_status e c v previous target s = Inr s'"
proof -
  let ?id = "AggregateID v" and ?t = "clock e ''changed''"
  let ?ords = "row_update ow_id i (\<lambda>w. w\<lparr>ow_status := target\<rparr>) (os_orders s)"
  have st: "set_status e ?id target (os_orders s) = Inr ?ords"
    using assms(1,2,4) by (auto simp: set_status_Inr)
  have "row_find ow_id i ?ords \<noteq> None" using assms(3) by (simp add: row_find_update)
  then have "\<exists>hist. add_history e ?id previous target ?t ?ords (os_history s) = Inr hist"
    using assms(1,2) by (auto simp: add_history_def as_uuid_def)
  then obtain hist where hi: "add_history e ?id previous target ?t ?ords (os_history s) = Inr hist" by blast
  obtain ob1 where ob1: "(if EventType v = ''delivery.assigned''
      then emit e c ''order.confirmed'' ?id (JObj [(''order_id'', JStr ?id), (''confirmed_at'', JTime ?t)]) (os_outbox s)
      else Inr (os_outbox s)) = Inr ob1" "format_uuid (rand e ''order.status_changed'') \<notin> ob_event_id ` set ob1"
    using emit_total[OF assms(1,2,5), of c "''order.confirmed''"] assms(5,6) by (cases "EventType v = ''delivery.assigned''") fastforce+
  obtain ob2 where "emit e c ''order.status_changed'' ?id (status_payload ?id previous target ?t) ob1 = Inr ob2"
    using emit_total[OF assms(1,2) ob1(2)] by blast
  then show ?thesis using st hi ob1(1) by (simp add: apply_status_def Let_def)
qed

text \<open>
  C23 What a delivery event does to its order, when no call fails: a new event whose target is the
  order's status, or whose order is cancelled, is only marked; a target the state machine allows
  is applied, with the order's other data kept; any other target is an error and changes nothing.
\<close>

theorem delivery_event_decides:
  assumes "Unmarshal bytes = Inr v" and "target_status v = Inr (Some target)"
    and "uuid_key (EventID v) = Some k" "k \<notin> set (os_processed s)"
    and "uuid_key (AggregateID v) = Some i" "row_find ow_id i (os_orders s) = Some w"
    and "\<And>l. \<not> fails e l" and "commit_of e = CommitOk"
    and "\<And>x. format_uuid (rand e x) \<notin> ob_event_id ` set (os_outbox s)"
    and "format_uuid (rand e ''order.confirmed'') \<noteq> format_uuid (rand e ''order.status_changed'')"
  shows "if ow_status w = target \<or> ow_status w = ''cancelled''
    then handle_event tracer e bytes s = (Inr (), s\<lparr>os_processed := os_processed s @ [k]\<rparr>)
    else if validTransition (ow_status w) target
    then (\<exists>s'. handle_event tracer e bytes s = (Inr (), s') \<and> os_processed s' = os_processed s @ [k] \<and>
      row_find ow_id i (os_orders s') = Some (w\<lparr>ow_status := target\<rparr>))
    else handle_event tracer e bytes s =
      (Inl (Failed (''invalid order transition '' @ ow_status w @ '' -> '' @ target)), s)"
proof -
  let ?c = "consumer_ctx tracer v" and ?s1 = "s\<lparr>os_processed := os_processed s @ [k]\<rparr>"
  have m: "mark_processed e (EventID v) (os_processed s) = Inr (True, os_processed s @ [k])"
    using assms(3,4,7) by (simp add: mark_processed_Inr)
  have q: "query_row e ''find order'' ow_id (AggregateID v) (os_orders s) = Inr w"
    using assms(5-7) by (simp add: query_row_Inr)
  have tx: "handle_event tracer e bytes s =
      (case with_tx e id id (handle_tx e ?c v target) s of
         (Inl err, s') \<Rightarrow> (Inl err, s') | (Inr _, s') \<Rightarrow> (Inr (), s'))"
    using assms(1,2) by (simp add: handle_event_def)
  show ?thesis
  proof (cases "ow_status w = target \<or> ow_status w = ''cancelled''")
    case True
    then have "handle_tx e ?c v target s = Inr (Commit (), ?s1)" using m q by (auto simp: handle_tx_def Let_def)
    then show ?thesis using True assms(7,8) by (simp add: tx with_tx_def)
  next
    case no: False
    show ?thesis
    proof (cases "validTransition (ow_status w) target")
      case True
      then have "target \<in> set order_statuses"
        by (auto simp: validTransition_def order_statuses_def split: if_splits)
      then have "\<exists>s'. apply_status e ?c v (ow_status w) target ?s1 = Inr s'"
        using assms(6,9,10) by (intro apply_status_total[OF assms(7,5)]) auto
      then obtain s' where s': "apply_status e ?c v (ow_status w) target ?s1 = Inr s'" by blast
      then have h: "handle_tx e ?c v target s = Inr (Commit (), s')"
        using m q no True by (simp add: handle_tx_def Let_def)
      have "moves_to i (ow_status w) target ?s1 s'" using s' assms(5) by (rule apply_status_moves)
      then have "os_processed s' = os_processed s @ [k]" "row_find ow_id i (os_orders s') = Some (w\<lparr>ow_status := target\<rparr>)"
        using assms(6) by (auto simp: moves_to_def moved_def row_find_update)
      then show ?thesis using no True h assms(7,8) by (simp add: tx with_tx_def)
    next
      case False
      then have "handle_tx e ?c v target s =
          Inl (Failed (''invalid order transition '' @ ow_status w @ '' -> '' @ target))"
        using m q no by (simp add: handle_tx_def Let_def)
      then show ?thesis using no False assms(7) by (simp add: tx with_tx_def)
    qed
  qed
qed

definition assembling_event :: json where
  "assembling_event = Marshal \<lparr>EventID = product_1, EventType = ''delivery.status_changed'', EventVersion = 1,
     OccurredAt = 0, Producer = ''delivery-service'', CorrelationID = ''c'', TraceID = [], SpanID = [],
     AggregateID = order_1, Payload = Some (JObj [(''status'', JStr ''assembling'')])\<rparr>"

lemma last_hex: "last (hex_of [a, b, c, d, e, f]) = hex_digit (unat f mod 16)"
  by (simp add: hex_of_def hex_byte_def)

lemma last_uuid: "last (format_uuid v) = hex_digit (unat (v 15) mod 16)"
  by (simp add: format_uuid_def Let_def stamp_def last_hex) (simp add: hex_of_def hex_byte_def)

theorem delivery_event_decides_witness:
  "\<exists>s'. handle_event None label_env (Some assembling_event) order_db = (Inr (), s') \<and>
     os_processed s' = os_processed order_db @ [product_1] \<and>
     row_find ow_id order_1 (os_orders s') = Some (confirmed_row\<lparr>ow_status := ''assembling''\<rparr>)"
proof -
  have "case Unmarshal (Some assembling_event) of Inr v \<Rightarrow> target_status v = Inr (Some ''assembling'') \<and>
      uuid_key (EventID v) = Some product_1 \<and> uuid_key (AggregateID v) = Some order_1 | _ \<Rightarrow> False"
    by code_simp
  then obtain v where v: "Unmarshal (Some assembling_event) = Inr v" "target_status v = Inr (Some ''assembling'')"
      "uuid_key (EventID v) = Some product_1" "uuid_key (AggregateID v) = Some order_1"
    by (auto split: sum.splits)
  have seen: "product_1 \<notin> set (os_processed order_db)"
    and row: "row_find ow_id order_1 (os_orders order_db) = Some confirmed_row"
    by (simp_all add: order_db_def confirmed_row_def)
  have q: "\<not> fails label_env l" "commit_of label_env = CommitOk" for l
    by (simp_all add: label_env_def quiet_env_def)
  have "last (format_uuid (rand label_env x)) = CHR ''0''" for x
    by (simp add: last_uuid label_env_def hex_digit_def)
  moreover have "last product_1 \<noteq> CHR ''0''" "last order_1 \<noteq> CHR ''0''"
    by (simp_all add: product_1_def order_1_def)
  ultimately have "format_uuid (rand label_env x) \<noteq> product_1" "format_uuid (rand label_env x) \<noteq> order_1" for x
    by metis+
  then have new: "format_uuid (rand label_env x) \<notin> ob_event_id ` set (os_outbox order_db)" for x
    by (auto simp: order_db_def sample_event_def)
  have "format_uuid (rand label_env ''order.confirmed'') \<noteq> format_uuid (rand label_env ''order.status_changed'')"
    by code_simp
  from delivery_event_decides[OF v(1,2,3) seen v(4) row q new this]
  show ?thesis by (simp add: confirmed_row_def validTransition_def)
qed

section \<open>The event stream\<close>

text \<open>The states a client's stream polls: each is reached from the one before.\<close>

fun successive :: "(env \<times> orders) list \<Rightarrow> bool" where
  "successive [] = True"
| "successive [_] = True"
| "successive ((e, s) # (e', s') # polls) \<longleftrightarrow> osteps s s' \<and> successive ((e', s') # polls)"

definition stage_of :: "string \<Rightarrow> stage" where
  "stage_of st = (if st = ''confirmed'' then Confirmed else if st = ''assembling'' then Assembling
     else if st = ''delivering'' then Delivering else if st = ''delivered'' then Delivered
     else if st = ''cancelled'' then CancelledOrder else Created)"

lemma stage_of_name [simp]: "stage_of (stage_name x) = x"
  by (cases x) (simp_all add: stage_of_def)

lemma Get_status:
  assumes "Get e orderID s = Inr v"
  shows "\<exists>k w. uuid_key orderID = Some k \<and> row_find ow_id k (os_orders s) = Some w \<and> od_status v = ow_status w"
  using assms by (auto simp: Get_def err_simps order_of_def)

text \<open>A later poll of the same order sees a stage that is at least as far.\<close>

lemma Get_forward:
  assumes "Get e orderID s = Inr v" and "Get e' orderID s' = Inr v'" and "osteps s s'"
    and "od_status v = stage_name x"
  shows "\<exists>y. od_status v' = stage_name y \<and> x \<le> y"
proof -
  obtain k w where w: "uuid_key orderID = Some k" "row_find ow_id k (os_orders s) = Some w" "od_status v = ow_status w"
    using Get_status[OF assms(1)] by blast
  obtain w' where w': "row_find ow_id k (os_orders s') = Some w'" "od_status v' = ow_status w'"
    using Get_status[OF assms(2)] w(1) by auto
  have "may_move\<^sup>*\<^sup>* (ow_status w) (ow_status w')"
    using osteps_order_kept[OF assms(3) w(2)] w'(1) by auto
  then obtain y where "ow_status w' = stage_name y" "moves\<^sup>*\<^sup>* x y"
    using may_moves_stages w(3) assms(4) by metis
  then show ?thesis using moves_star_forward w'(2) by metis
qed

lemma Get_stage:
  assumes "Get e orderID s = Inr v" and "orders_ok s"
  shows "\<exists>y. od_status v = stage_name y"
proof -
  obtain k w where w: "row_find ow_id k (os_orders s) = Some w" "od_status v = ow_status w"
    using Get_status[OF assms(1)] by blast
  then have "order_consistent (os_history s) (os_outbox s) w"
    using assms(2) row_find_SomeD by (fastforce simp: orders_ok_def)
  then show ?thesis using w(2) replay_bound by (auto simp: order_consistent_def)
qed

text \<open>What the stream has last sent was read in an earlier state.\<close>

definition seen_before :: "string \<Rightarrow> string \<Rightarrow> orders \<Rightarrow> bool" where
  "seen_before orderID st s \<longleftrightarrow>
     (\<exists>e0 s0 v0. Get e0 orderID s0 = Inr v0 \<and> od_status v0 = st \<and> orders_ok s0 \<and> osteps s0 s)"

lemma stream_loop_forward:
  assumes "stream_loop orderID polls st = (out, how)" and "successive polls"
    and "polls \<noteq> [] \<Longrightarrow> orders_ok (snd (hd polls)) \<and> (st = [] \<or> seen_before orderID st (snd (hd polls)))"
  shows "sorted_wrt (<) (map (\<lambda>v. stage_of (od_status v)) out) \<and>
    (\<forall>v \<in> set out. st \<noteq> [] \<longrightarrow> stage_of st < stage_of (od_status v))"
  using assms
proof (induction polls arbitrary: st out how)
  case (Cons p polls)
  obtain e s where p: "p = (e, s)" by (cases p)
  have ok: "orders_ok s" "st = [] \<or> seen_before orderID st s" using Cons.prems(3) p by auto
  show ?case
  proof (cases "Get e orderID s")
    case (Inr v)
    obtain y where y: "od_status v = stage_name y" using Get_stage[OF Inr ok(1)] by blast
    have le: "stage_of st \<le> y" if "st \<noteq> []"
    proof -
      obtain e0 s0 v0 where b: "Get e0 orderID s0 = Inr v0" "od_status v0 = st" "orders_ok s0" "osteps s0 s"
        using ok(2) \<open>st \<noteq> []\<close> by (auto simp: seen_before_def)
      obtain x where "od_status v0 = stage_name x" using Get_stage[OF b(1,3)] by blast
      then show ?thesis using Get_forward[OF b(1) Inr b(4)] b(2) y by auto
    qed
    obtain rest h where rest: "stream_loop orderID polls (od_status v) = (rest, h)" by fastforce
    have IH: "sorted_wrt (<) (map (\<lambda>v. stage_of (od_status v)) rest) \<and>
        (\<forall>w \<in> set rest. od_status v \<noteq> [] \<longrightarrow> stage_of (od_status v) < stage_of (od_status w))"
    proof (rule Cons.IH[OF rest])
      show "successive polls" using Cons.prems(2) p by (cases polls) auto
      assume "polls \<noteq> []"
      then have st: "osteps s (snd (hd polls))" using Cons.prems(2) p by (cases polls) auto
      then have "seen_before orderID (od_status v) (snd (hd polls))"
        using Inr ok(1) by (auto simp: seen_before_def)
      then show "orders_ok (snd (hd polls)) \<and>
          (od_status v = [] \<or> seen_before orderID (od_status v) (snd (hd polls)))"
        using osteps_ok[OF st ok(1)] by blast
    qed
    have ne: "od_status v \<noteq> []" unfolding y by (cases y) auto
    have out: "out = [] \<or> out = (if od_status v \<noteq> st then [v] else []) \<or>
        out = (if od_status v \<noteq> st then [v] else []) @ rest"
      using Cons.prems(1) p Inr rest by (auto simp: Let_def split: if_splits)
    have gt: "stage_of st < stage_of (od_status v)" if "od_status v \<noteq> st" "st \<noteq> []"
    proof -
      obtain e0 s0 v0 where "Get e0 orderID s0 = Inr v0" "od_status v0 = st" "orders_ok s0"
        using ok(2) \<open>st \<noteq> []\<close> by (auto simp: seen_before_def)
      then obtain x where "st = stage_name x" using Get_stage by blast
      then show ?thesis using le that y by auto
    qed
    have later: "stage_of st < stage_of (od_status w)" if "w \<in> set rest" "st \<noteq> []" for w
      using le[OF that(2)] IH that(1) ne y by (metis stage_of_name order_le_less_trans)
    show ?thesis using out IH ne gt later by (auto split: if_splits)
  qed (use Cons.prems(1) p in auto)
qed simp

text \<open>
  The event stream of an order: polling successive states of the service, it sends strictly
  later stages only, so that a client never sees an order go back or the same stage twice.
\<close>

lemma stream_sends_forward:
  assumes "stream orderID polls = (out, how)" and "successive polls"
    and "polls \<noteq> []" and "orders_ok (snd (hd polls))"
  shows "sorted_wrt (<) (map (\<lambda>v. stage_of (od_status v)) out)"
proof (cases "IsUUID orderID")
  case True
  then have "stream_loop orderID polls [] = (out, how)" using assms(1) by (simp add: stream_def)
  then show ?thesis using stream_loop_forward[OF _ assms(2)] assms(4) by simp
qed (use assms(1) in \<open>simp add: stream_def\<close>)

end
