(* ===== verification/Cart.thy ===== *)
theory Cart
  imports Sql Httpx
begin

text \<open>
  The cart service (services/cart-service/internal/cart): the carts of users with their version,
  the cache of encoded carts in Redis and the HTTP handlers. The state is the schema \<open>cart\<close> of
  db/postgres/migrations/000003_cart and the Redis keys \<open>local:cart:<user>\<close>.
\<close>

section \<open>Data\<close>

record cart_line =
  cl_product :: string
  cl_quantity :: int

record cart =
  cv_user :: string
  cv_version :: int
  cv_items :: "cart_line list"
  cv_updated :: time

record cart_row =
  cw_user :: string
  cw_version :: int
  cw_updated :: time

record line_row =
  cx_user :: string
  cx_product :: string
  cx_quantity :: int

record carts =
  cs_carts :: "cart_row list"
  cs_lines :: "line_row list"
  cs_cache :: "string \<rightharpoonup> json option"

definition json_line :: "cart_line \<Rightarrow> json" where
  "json_line i = JObj [(''product_id'', JStr (cl_product i)), (''quantity'', JInt (cl_quantity i))]"

definition json_cart :: "cart \<Rightarrow> json" where
  "json_cart v = JObj
     [(''user_id'', JStr (cv_user v)), (''version'', JInt (cv_version v)),
      (''items'', JArr (map json_line (cv_items v))), (''updated_at'', JTime (cv_updated v))]"

definition decode_line :: "json \<Rightarrow> go_error + cart_line" where
  "decode_line v =
     andthen (struct_fields (Some v)) (\<lambda>kvs.
     andthen (field to_string ''product_id'' [] kvs) (\<lambda>p.
     andthen (field to_int ''quantity'' 0 kvs) (\<lambda>q.
       Inr \<lparr>cl_product = p, cl_quantity = q\<rparr>)))"

definition decode_cart :: "json option \<Rightarrow> go_error + cart" where
  "decode_cart bytes =
     andthen (struct_fields bytes) (\<lambda>kvs.
     andthen (field to_string ''user_id'' [] kvs) (\<lambda>u.
     andthen (field to_int ''version'' 0 kvs) (\<lambda>ver.
     andthen (field (to_array (ok \<circ> decode_line) \<lparr>cl_product = [], cl_quantity = 0\<rparr>) ''items'' [] kvs) (\<lambda>items.
     andthen (field to_time ''updated_at'' zero_time kvs) (\<lambda>t.
       Inr \<lparr>cv_user = u, cv_version = ver, cv_items = items, cv_updated = t\<rparr>)))))"

text \<open>The body of the request that sets a quantity, decoded strictly.\<close>

definition decode_set_item :: "json \<Rightarrow> go_error + int" where
  "decode_set_item v = andthen (strict_fields [''quantity''] v) (field to_int ''quantity'' 0)"

section \<open>Store\<close>

definition cartCacheKey :: "string \<Rightarrow> string" where
  "cartCacheKey userID = ''local:cart:'' @ userID"

text \<open>\<open>getCart\<close>: the row of the user and the lines in the order of their product ids.\<close>

definition lines_of :: "string \<Rightarrow> line_row list \<Rightarrow> cart_line list" where
  "lines_of k rows =
     map (\<lambda>r. \<lparr>cl_product = cx_product r, cl_quantity = cx_quantity r\<rparr>)
       (sort_key cx_product (filter (\<lambda>r. cx_user r = k) rows))"

definition getCart :: "env \<Rightarrow> string \<Rightarrow> carts \<Rightarrow> go_error + cart" where
  "getCart e userID s =
     (case query_row e ''query cart'' cw_user userID (cs_carts s) of
        Inl err \<Rightarrow>
          (if err = NoRows
           then Inr \<lparr>cv_user = userID, cv_version = 0, cv_items = [], cv_updated = zero_time\<rparr>
           else Inl (Wrapped ''query cart'' err))
      | Inr w \<Rightarrow>
          andthen (wrap ''query cart items'' (io e ''query cart items'')) (\<lambda>_.
          andthen (wrap ''scan cart item'' (io e ''scan cart item'')) (\<lambda>_.
          andthen (io e ''cart rows'') (\<lambda>_.
            Inr \<lparr>cv_user = userID, cv_version = cw_version w, cv_items = lines_of (cw_user w) (cs_lines s),
                 cv_updated = cw_updated w\<rparr>))))"

definition Get :: "env \<Rightarrow> string \<Rightarrow> carts \<Rightarrow> (go_error + cart) \<times> carts" where
  "Get e userID s =
     (case (if fails e ''redis get cart'' then None
            else Option.bind (cs_cache s (cartCacheKey userID)) (\<lambda>bytes. ok (decode_cart bytes))) of
        Some cached \<Rightarrow> (Inr cached, s)
      | None \<Rightarrow>
          (case getCart e userID s of
             Inl err \<Rightarrow> (Inl err, s)
           | Inr v \<Rightarrow>
               (Inr v,
                if fails e ''marshal cart'' \<or> fails e ''redis set cart'' then s
                else s\<lparr>cs_cache := (cs_cache s)(cartCacheKey userID \<mapsto> Some (json_cart v))\<rparr>)))"

text \<open>A \<open>bigint\<close> column that is incremented.\<close>

definition bump :: "time \<Rightarrow> cart_row \<Rightarrow> cart_row" where
  "bump t w = w\<lparr>cw_version := cw_version w + 1, cw_updated := pg_time t\<rparr>"

definition upsert_cart :: "env \<Rightarrow> string \<Rightarrow> cart_row list \<Rightarrow> go_error + cart_row list" where
  "upsert_cart e userID rows =
     wrap ''upsert cart'' (andthen (io e ''upsert cart'') (\<lambda>_.
       andthen (as_uuid userID) (\<lambda>k.
         (case row_find cw_user k rows of
            None \<Rightarrow> Inr (rows @ [\<lparr>cw_user = k, cw_version = 1, cw_updated = pg_time (clock e ''now'')\<rparr>])
          | Some w \<Rightarrow>
              if cw_version w + 1 < 2 ^ 63 then Inr (row_update cw_user k (bump (clock e ''now'')) rows)
              else Inl CallFailed))))"

definition upsert_line ::
  "env \<Rightarrow> string \<Rightarrow> string \<Rightarrow> int \<Rightarrow> line_row list \<Rightarrow> go_error + line_row list" where
  "upsert_line e userID productID quantity rows =
     wrap ''upsert cart item'' (andthen (io e ''upsert cart item'') (\<lambda>_.
       andthen (as_uuid userID) (\<lambda>k.
       andthen (as_uuid productID) (\<lambda>p.
       andthen (int4 quantity) (\<lambda>q.
         if q < 1 \<or> q > 99 then Inl CallFailed
         else (case row_find (\<lambda>r. (cx_user r, cx_product r)) (k, p) rows of
                 None \<Rightarrow> Inr (rows @ [\<lparr>cx_user = k, cx_product = p, cx_quantity = q\<rparr>])
               | Some _ \<Rightarrow>
                   Inr (row_update (\<lambda>r. (cx_user r, cx_product r)) (k, p)
                          (\<lambda>r. r\<lparr>cx_quantity := q\<rparr>) rows)))))))"

definition set_item_tx ::
  "env \<Rightarrow> string \<Rightarrow> string \<Rightarrow> int \<Rightarrow> carts \<Rightarrow> go_error + cart verdict \<times> carts" where
  "set_item_tx e userID productID quantity s =
     andthen (upsert_cart e userID (cs_carts s)) (\<lambda>rows.
     andthen (upsert_line e userID productID quantity (cs_lines s)) (\<lambda>lines.
     (let s' = s\<lparr>cs_carts := rows, cs_lines := lines\<rparr> in
      andthen (getCart e userID s') (\<lambda>v. Inr (Commit v, s')))))"

definition forget_cart :: "env \<Rightarrow> string \<Rightarrow> carts \<Rightarrow> carts" where
  "forget_cart e userID s =
     (if fails e ''redis del cart'' then s
      else s\<lparr>cs_cache := (cs_cache s)(cartCacheKey userID := None)\<rparr>)"

definition cart_tx ::
  "env \<Rightarrow> string \<Rightarrow> (carts \<Rightarrow> go_error + cart verdict \<times> carts) \<Rightarrow> carts \<Rightarrow> (go_error + cart) \<times> carts" where
  "cart_tx e userID body s =
     (case with_tx e (Wrapped ''begin cart transaction'') (Wrapped ''commit cart'') body s of
        (Inl err, s') \<Rightarrow> (Inl err, s')
      | (Inr (Commit v), s') \<Rightarrow> (Inr v, forget_cart e userID s')
      | (Inr (Abandon v), s') \<Rightarrow> (Inr v, s'))"

definition SetItem :: "env \<Rightarrow> string \<Rightarrow> string \<Rightarrow> int \<Rightarrow> carts \<Rightarrow> (go_error + cart) \<times> carts" where
  "SetItem e userID productID quantity s =
     cart_tx e userID (set_item_tx e userID productID quantity) s"

definition delete_item_tx :: "env \<Rightarrow> string \<Rightarrow> string \<Rightarrow> carts \<Rightarrow> go_error + cart verdict \<times> carts" where
  "delete_item_tx e userID productID s =
     andthen (wrap ''delete cart item'' (andthen (io e ''delete cart item'') (\<lambda>_.
                andthen (as_uuid userID) (\<lambda>k. andthen (as_uuid productID) (\<lambda>p. Inr (k, p)))))) (\<lambda>(k, p).
     (let lines = filter (\<lambda>r. (cx_user r, cx_product r) \<noteq> (k, p)) (cs_lines s) in
      andthen
        (if lines = cs_lines s then Inr (cs_carts s)
         else wrap ''update cart version''
                (exec_update e ''update cart version'' cw_user userID
                   (\<lambda>w. cw_version w < 2 ^ 63) (bump (clock e ''now'')) (cs_carts s))) (\<lambda>rows.
      (let s' = s\<lparr>cs_carts := rows, cs_lines := lines\<rparr> in
       andthen (getCart e userID s') (\<lambda>v. Inr (Commit v, s'))))))"

definition DeleteItem :: "env \<Rightarrow> string \<Rightarrow> string \<Rightarrow> carts \<Rightarrow> (go_error + cart) \<times> carts" where
  "DeleteItem e userID productID s = cart_tx e userID (delete_item_tx e userID productID) s"

section \<open>Handlers\<close>

definition cart_reply :: "ctx \<Rightarrow> (go_error + cart) \<times> carts \<Rightarrow> reply \<times> carts" where
  "cart_reply c r =
     (case r of
        (Inl _, s') \<Rightarrow> (WriteError (ctx_correlation c) None, s')
      | (Inr v, s') \<Rightarrow> (WriteJSON 200 (json_cart v), s'))"

definition get :: "env \<Rightarrow> ctx \<Rightarrow> string \<Rightarrow> carts \<Rightarrow> reply \<times> carts" where
  "get e c userID s =
     (if \<not> IsUUID userID
      then (WriteError (ctx_correlation c)
        (Some (Error 400 ''invalid_user_id'' ''user_id must be a UUID'' None)), s)
      else cart_reply c (Get e userID s))"

definition invalid_identifier :: api_error where
  "invalid_identifier =
     Error 400 ''invalid_identifier'' ''user_id and product_id must be UUID values'' None"

definition setItem :: "env \<Rightarrow> ctx \<Rightarrow> string \<Rightarrow> string \<Rightarrow> http_body \<Rightarrow> carts \<Rightarrow> reply \<times> carts" where
  "setItem e c userID productID body s =
     (if \<not> IsUUID userID \<or> \<not> IsUUID productID
      then (WriteError (ctx_correlation c) (Some invalid_identifier), s)
      else case DecodeJSON decode_set_item body of
        Inl a \<Rightarrow> (WriteError (ctx_correlation c) (Some a), s)
      | Inr quantity \<Rightarrow>
          if quantity < 1 \<or> quantity > 99
          then (WriteError (ctx_correlation c)
            (Some (Error 400 ''invalid_quantity'' ''quantity must be between 1 and 99'' None)), s)
          else cart_reply c (SetItem e userID productID quantity s))"

definition deleteItem :: "env \<Rightarrow> ctx \<Rightarrow> string \<Rightarrow> string \<Rightarrow> carts \<Rightarrow> reply \<times> carts" where
  "deleteItem e c userID productID s =
     (if \<not> IsUUID userID \<or> \<not> IsUUID productID
      then (WriteError (ctx_correlation c) (Some invalid_identifier), s)
      else cart_reply c (DeleteItem e userID productID s))"

end
