(* ===== verification/CartProps.thy ===== *)
theory CartProps
  imports Cart
begin

text \<open>
  Correctness of the cart service: the version of a cart identifies its content along every
  history, what setting and deleting an item do, and reading one's own writes through the cache.
\<close>

section \<open>Versions, lines and the invariant\<close>

definition version_of :: "string \<Rightarrow> carts \<Rightarrow> int" where
  "version_of k s = (case row_find cw_user k (cs_carts s) of None \<Rightarrow> 0 | Some w \<Rightarrow> cw_version w)"

abbreviation line_key :: "line_row \<Rightarrow> string \<times> string" where
  "line_key r \<equiv> (cx_user r, cx_product r)"

definition user_lines :: "string \<Rightarrow> carts \<Rightarrow> line_row list" where
  "user_lines k s = filter (\<lambda>r. cx_user r = k) (cs_lines s)"

definition carts_ok :: "carts \<Rightarrow> bool" where
  "carts_ok s \<longleftrightarrow> distinct (map cw_user (cs_carts s)) \<and> distinct (map line_key (cs_lines s)) \<and>
     (\<forall>r \<in> set (cs_lines s). cx_user r \<in> cw_user ` set (cs_carts s) \<and> 1 \<le> cx_quantity r \<and> cx_quantity r \<le> 99) \<and>
     (\<forall>w \<in> set (cs_carts s). 1 \<le> cw_version w \<and> cw_version w < 2 ^ 63)"

text \<open>A change of the cart of user \<open>k\<close>: its version goes up by one, other carts stay.\<close>

definition cart_changes :: "string \<Rightarrow> carts \<Rightarrow> carts \<Rightarrow> bool" where
  "cart_changes k s s' \<longleftrightarrow> version_of k s' = version_of k s + 1 \<and>
     (\<forall>j. j \<noteq> k \<longrightarrow> version_of j s' = version_of j s \<and> user_lines j s' = user_lines j s)"

definition same_carts :: "carts \<Rightarrow> carts \<Rightarrow> bool" where
  "same_carts a b \<longleftrightarrow> cs_carts a = cs_carts b \<and> cs_lines a = cs_lines b"

lemma same_carts_refl [simp]: "same_carts s s"
  by (simp add: same_carts_def)

lemma same_carts_cache [simp]:
  "same_carts (s\<lparr>cs_cache := x\<rparr>) t = same_carts s t" "same_carts (forget_cart e u s) t = same_carts s t"
  by (simp_all add: same_carts_def forget_cart_def)

lemma same_carts_facts:
  assumes "same_carts a b"
  shows "version_of k a = version_of k b" "user_lines k a = user_lines k b" "carts_ok a = carts_ok b"
    "cart_changes k s a = cart_changes k s b" "cs_carts a = cs_carts b" "cs_lines a = cs_lines b"
  using assms by (simp_all add: same_carts_def version_of_def user_lines_def carts_ok_def cart_changes_def)

lemma filter_row_update:
  assumes "\<And>r. P (f r) = P r" and "\<And>r. key r = k \<Longrightarrow> \<not> P r"
  shows "filter P (row_update key k f rows) = filter P rows"
  using assms by (induction rows) auto

text \<open>The abstract cart of a user: a map from products to quantities.\<close>

definition content :: "string \<Rightarrow> line_row list \<Rightarrow> string \<rightharpoonup> int" where
  "content k rows = (\<lambda>p. map_option cx_quantity (row_find line_key (k, p) rows))"

section \<open>The statements\<close>

lemma bump_user [simp]: "cw_user (bump t w) = cw_user w" "cw_version (bump t w) = cw_version w + 1"
  by (simp_all add: bump_def)

lemma upsert_cart_Inr:
  assumes "upsert_cart e userID (cs_carts s) = Inr rows" and "carts_ok s"
  shows "\<exists>k. uuid_key userID = Some k \<and> distinct (map cw_user rows) \<and>
    cw_user ` set rows = insert k (cw_user ` set (cs_carts s)) \<and>
    (\<forall>w \<in> set rows. 1 \<le> cw_version w \<and> cw_version w < 2 ^ 63) \<and>
    (\<forall>lines. version_of k (s\<lparr>cs_carts := rows, cs_lines := lines\<rparr>) = version_of k s + 1) \<and>
    (\<forall>j lines. j \<noteq> k \<longrightarrow> version_of j (s\<lparr>cs_carts := rows, cs_lines := lines\<rparr>) = version_of j s)"
proof -
  obtain k where k: "uuid_key userID = Some k" using assms(1) by (auto simp: upsert_cart_def err_simps)
  have d: "distinct (map cw_user (cs_carts s))" and v: "\<forall>w \<in> set (cs_carts s). 1 \<le> cw_version w \<and> cw_version w < 2 ^ 63"
    using assms(2) by (simp_all add: carts_ok_def)
  show ?thesis
  proof (cases "row_find cw_user k (cs_carts s)")
    case None
    then have "rows = cs_carts s @ [\<lparr>cw_user = k, cw_version = 1, cw_updated = pg_time (clock e ''now'')\<rparr>]"
      using assms(1) k by (auto simp: upsert_cart_def err_simps)
    moreover have "k \<notin> cw_user ` set (cs_carts s)" using None by (simp add: row_find_None_iff)
    ultimately show ?thesis using None k d v by (auto simp: version_of_def split: option.splits)
  next
    case (Some w)
    then have rows: "rows = row_update cw_user k (bump (clock e ''now'')) (cs_carts s)" "cw_version w + 1 < 2 ^ 63"
      using assms(1) k by (auto simp: upsert_cart_def err_simps split: if_splits)
    have w: "w \<in> set (cs_carts s)" "cw_user w = k" using row_find_SomeD[OF Some] by auto
    have ids: "map cw_user rows = map cw_user (cs_carts s)" unfolding rows by (simp add: map_row_update)
    then have "cw_user ` set rows = cw_user ` set (cs_carts s)" by (metis list.set_map)
    moreover have "1 \<le> cw_version x \<and> cw_version x < 2 ^ 63" if x: "x \<in> set rows" for x
    proof -
      consider "x \<in> set (cs_carts s)" | y where "y \<in> set (cs_carts s)" "cw_user y = k" "x = bump (clock e ''now'') y"
        using x unfolding rows set_row_update by blast
      then show ?thesis
      proof cases
        case 2
        then have "y = w" using key_unique[OF d] w by metis
        then show ?thesis using 2 rows(2) v by auto
      qed (use v in auto)
    qed
    moreover have "k \<in> cw_user ` set (cs_carts s)" using w by auto
    ultimately show ?thesis using Some k d ids rows(1)
      by (auto simp: version_of_def row_find_update insert_absorb)
  qed
qed

lemma upsert_line_Inr:
  assumes "upsert_line e userID productID q (cs_lines s) = Inr lines" and "uuid_key userID = Some k"
    and "distinct (map line_key (cs_lines s))"
  shows "distinct (map line_key lines) \<and>
    (\<forall>r \<in> set lines. r \<in> set (cs_lines s) \<or> cx_user r = k \<and> 1 \<le> cx_quantity r \<and> cx_quantity r \<le> 99) \<and>
    (\<forall>j. j \<noteq> k \<longrightarrow> filter (\<lambda>r. cx_user r = j) lines = filter (\<lambda>r. cx_user r = j) (cs_lines s)) \<and>
    (\<exists>p. uuid_key productID = Some p \<and> content k lines = (content k (cs_lines s))(p \<mapsto> q))"
proof -
  obtain p where p: "uuid_key productID = Some p" and q: "1 \<le> q" "q \<le> 99"
    and l: "(case row_find line_key (k, p) (cs_lines s) of
                 None \<Rightarrow> Inr (cs_lines s @ [\<lparr>cx_user = k, cx_product = p, cx_quantity = q\<rparr>])
               | Some _ \<Rightarrow> Inr (row_update line_key (k, p) (\<lambda>r. r\<lparr>cx_quantity := q\<rparr>) (cs_lines s))) = (Inr lines :: go_error + _)"
    using assms(1,2) by (auto simp: upsert_line_def err_simps split: if_splits)
  show ?thesis
  proof (cases "row_find line_key (k, p) (cs_lines s)")
    case None
    then have "lines = cs_lines s @ [\<lparr>cx_user = k, cx_product = p, cx_quantity = q\<rparr>]" using l by simp
    moreover from this have "content k lines = (content k (cs_lines s))(p \<mapsto> q)"
      using None by (auto simp: content_def fun_eq_iff split: option.splits)
    moreover have "(k, p) \<notin> line_key ` set (cs_lines s)" using None by (simp add: row_find_None_iff)
    ultimately show ?thesis using assms(3) p q by auto
  next
    case (Some r)
    then have lines: "lines = row_update line_key (k, p) (\<lambda>r. r\<lparr>cx_quantity := q\<rparr>) (cs_lines s)" using l by simp
    have "map line_key lines = map line_key (cs_lines s)" unfolding lines by (simp add: map_row_update)
    moreover have "\<forall>j. j \<noteq> k \<longrightarrow> filter (\<lambda>r. cx_user r = j) lines = filter (\<lambda>r. cx_user r = j) (cs_lines s)"
      unfolding lines by (auto intro!: filter_row_update)
    moreover have "content k lines = (content k (cs_lines s))(p \<mapsto> q)"
      using Some unfolding lines by (auto simp: content_def fun_eq_iff row_find_update)
    ultimately show ?thesis using assms(3) p q by (auto simp: lines set_row_update)
  qed
qed

section \<open>The operations\<close>

text \<open>A request that changed the tables: of which user, and how its cart looks afterwards.\<close>

definition cart_step :: "string \<Rightarrow> (string \<rightharpoonup> int) \<Rightarrow> carts \<Rightarrow> carts \<Rightarrow> bool" where
  "cart_step k m s s' \<longleftrightarrow> carts_ok s' \<and> cart_changes k s s' \<and> content k (cs_lines s') = m"

lemma set_item_tx_step:
  assumes "set_item_tx e userID productID q s = Inr (vd, s')" and "carts_ok s"
  obtains k p v where "uuid_key userID = Some k" "uuid_key productID = Some p" "vd = Commit v"
    "getCart e userID s' = Inr v" "cart_step k ((content k (cs_lines s))(p \<mapsto> q)) s s'"
    "cs_cache s' = cs_cache s"
proof -
  obtain rows lines v where
    r: "upsert_cart e userID (cs_carts s) = Inr rows" and
    l: "upsert_line e userID productID q (cs_lines s) = Inr lines" and
    s': "s' = s\<lparr>cs_carts := rows, cs_lines := lines\<rparr>" and
    v: "getCart e userID s' = Inr v" "vd = Commit v"
    using assms(1) by (auto simp: set_item_tx_def andthen_Inr Let_def)
  note R = upsert_cart_Inr[OF r assms(2)]
  then obtain k where k: "uuid_key userID = Some k" by blast
  have d: "distinct (map line_key (cs_lines s))" using assms(2) by (simp add: carts_ok_def)
  note L = upsert_line_Inr[OF l k d]
  then obtain p where p: "uuid_key productID = Some p" "content k lines = (content k (cs_lines s))(p \<mapsto> q)" by blast
  have "carts_ok s'" using R L assms(2) k unfolding s' carts_ok_def by fastforce
  moreover have "cart_changes k s s'" using R L k unfolding s' by (auto simp: cart_changes_def user_lines_def)
  ultimately show ?thesis using that[OF k p(1) v(2,1)] p(2) s' by (simp add: cart_step_def)
qed

lemma content_filter:
  "content j (filter (\<lambda>r. line_key r \<noteq> (k, p)) rows) =
     (if j = k then (content k rows)(p := None) else content j rows)"
  by (induction rows) (auto simp: content_def fun_eq_iff split: if_splits)

lemma delete_item_tx_step:
  assumes "delete_item_tx e userID productID s = Inr (vd, s')" and "carts_ok s"
  obtains (absent) v where "vd = Commit v" "same_carts s' s" "getCart e userID s' = Inr v"
    | (deleted) k p v where "uuid_key userID = Some k" "uuid_key productID = Some p" "vd = Commit v"
        "getCart e userID s' = Inr v" "cart_step k ((content k (cs_lines s))(p := None)) s s'"
proof -
  obtain k p where kp: "uuid_key userID = Some k" "uuid_key productID = Some p"
    using assms(1) by (auto simp: delete_item_tx_def err_simps Let_def)
  define lines where "lines = filter (\<lambda>r. line_key r \<noteq> (k, p)) (cs_lines s)"
  obtain rows v where
    r: "(if lines = cs_lines s then Inr (cs_carts s)
         else wrap ''update cart version'' (exec_update e ''update cart version'' cw_user userID
                (\<lambda>w. cw_version w < 2 ^ 63) (bump (clock e ''now'')) (cs_carts s))) = Inr rows" and
    s': "s' = s\<lparr>cs_carts := rows, cs_lines := lines\<rparr>" and
    v: "getCart e userID s' = Inr v" "vd = Commit v"
    using assms(1) kp by (auto simp: delete_item_tx_def andthen_Inr wrap_Inr as_uuid_def Let_def lines_def)
  show ?thesis
  proof (cases "lines = cs_lines s")
    case True
    then show ?thesis using r s' v absent by (simp add: same_carts_def)
  next
    case False
    then have rows: "rows = row_update cw_user k (bump (clock e ''now'')) (cs_carts s)"
      and chk: "\<forall>w \<in> set (cs_carts s). cw_user w = k \<longrightarrow> cw_version w + 1 < 2 ^ 63"
      using r kp by (auto simp: wrap_Inr exec_update_Inr)
    have ids: "map cw_user rows = map cw_user (cs_carts s)" unfolding rows by (simp add: map_row_update)
    then have img: "cw_user ` set rows = cw_user ` set (cs_carts s)" by (metis list.set_map)
    obtain x where x: "x \<in> set (cs_lines s)" "line_key x = (k, p)"
      using False unfolding lines_def by (metis (mono_tags, lifting) filter_True)
    then obtain w where w: "row_find cw_user k (cs_carts s) = Some w"
      using assms(2) by (cases "row_find cw_user k (cs_carts s)") (auto simp: carts_ok_def row_find_None_iff)
    have "carts_ok s'"
      using assms(2) chk ids img distinct_map_filter
      unfolding s' carts_ok_def lines_def rows by (fastforce simp: set_row_update distinct_map_filter)
    moreover have "cart_changes k s s'"
      using w unfolding s' rows lines_def
      by (auto simp: cart_changes_def version_of_def row_find_update user_lines_def intro!: filter_cong)
    moreover have "content k lines = (content k (cs_lines s))(p := None)"
      unfolding lines_def content_filter by (simp only: if_True refl)
    ultimately show ?thesis using deleted[OF kp v(2,1)] s' by (simp add: cart_step_def)
  qed
qed

lemma cart_tx_tables:
  assumes "cart_tx e userID body s = (res, s')"
  obtains "same_carts s' s" | v t where "body s = Inr (Commit v, t)" "same_carts s' t"
proof -
  obtain x t where tx: "with_tx e (Wrapped ''begin cart transaction'') (Wrapped ''commit cart'') body s = (x, t)"
    by fastforce
  then have "same_carts s' t" using assms by (auto simp: cart_tx_def split: sum.splits verdict.splits)
  with tx show ?thesis by (auto elim!: with_tx_cases intro: that)
qed

lemma same_carts_trans: "same_carts a b \<Longrightarrow> same_carts b c \<Longrightarrow> same_carts a c"
  by (simp add: same_carts_def)

lemma SetItem_tables:
  assumes "SetItem e userID productID q s = (res, s')" and "carts_ok s"
  obtains "same_carts s' s" | k m where "uuid_key userID = Some k" "cart_step k m s s'"
proof -
  from assms(1)[unfolded SetItem_def] show ?thesis
  proof (cases rule: cart_tx_tables)
    case (2 v t)
    from 2(1) assms(2) show ?thesis
      by (rule set_item_tx_step) (use 2(2) that(2) same_carts_facts in \<open>auto simp: cart_step_def\<close>)
  qed (rule that(1))
qed

lemma DeleteItem_tables:
  assumes "DeleteItem e userID productID s = (res, s')" and "carts_ok s"
  obtains "same_carts s' s" | k m where "uuid_key userID = Some k" "cart_step k m s s'"
proof -
  from assms(1)[unfolded DeleteItem_def] show ?thesis
  proof (cases rule: cart_tx_tables)
    case (2 v t)
    from 2(1) assms(2) show ?thesis
    proof (rule delete_item_tx_step)
      assume "same_carts t s"
      then show ?thesis using 2(2) that(1) same_carts_trans by blast
    qed (use 2(2) that(2) same_carts_facts in \<open>auto simp: cart_step_def\<close>)
  qed (rule that(1))
qed

section \<open>Histories of the service\<close>

datatype cart_op =
    GetOp env ctx string
  | SetOp env ctx string string http_body
  | DeleteOp env ctx string string
  | ExpireOp string

fun cart_op_step :: "cart_op \<Rightarrow> carts \<Rightarrow> carts" where
  "cart_op_step (GetOp e c u) s = snd (get e c u s)"
| "cart_op_step (SetOp e c u p body) s = snd (setItem e c u p body s)"
| "cart_op_step (DeleteOp e c u p) s = snd (deleteItem e c u p s)"
| "cart_op_step (ExpireOp key) s = s\<lparr>cs_cache := (cs_cache s)(key := None)\<rparr>"

definition cart_run :: "cart_op list \<Rightarrow> carts \<Rightarrow> carts" where
  "cart_run = fold cart_op_step"

lemma cart_reply_state [simp]: "snd (cart_reply c r) = snd r"
  by (auto simp: cart_reply_def split: prod.splits sum.splits)

lemma Get_same: "same_carts (snd (Get e u s)) s"
  by (auto simp: Get_def split: option.splits sum.splits)

lemma cart_op_cases:
  assumes "carts_ok s"
  shows "same_carts (cart_op_step op s) s \<or> (\<exists>k m. cart_step k m s (cart_op_step op s))"
proof (cases op)
  case (GetOp e c u)
  then show ?thesis using Get_same by (auto simp: get_def)
next
  case (SetOp e c u p body)
  then have "cart_op_step op s = s \<or> (\<exists>q. cart_op_step op s = snd (SetItem e u p q s))"
    by (auto simp: setItem_def split: sum.splits)
  then show ?thesis
  proof (elim disjE exE)
    fix q assume q: "cart_op_step op s = snd (SetItem e u p q s)"
    have "SetItem e u p q s = (fst (SetItem e u p q s), cart_op_step op s)" unfolding q by simp
    then show ?thesis using assms by (rule SetItem_tables) auto
  qed simp
next
  case (DeleteOp e c u p)
  then have "cart_op_step op s = s \<or> cart_op_step op s = snd (DeleteItem e u p s)"
    by (auto simp: deleteItem_def)
  then show ?thesis
  proof
    assume q: "cart_op_step op s = snd (DeleteItem e u p s)"
    have "DeleteItem e u p s = (fst (DeleteItem e u p s), cart_op_step op s)" unfolding q by simp
    then show ?thesis using assms by (rule DeleteItem_tables) auto
  qed simp
qed simp

text \<open>Along a history the version of a cart never falls, and while it stays the lines stay.\<close>

lemma cart_run_versions:
  assumes "carts_ok s"
  shows "carts_ok (cart_run ops s) \<and> version_of k s \<le> version_of k (cart_run ops s) \<and>
    (version_of k (cart_run ops s) = version_of k s \<longrightarrow> user_lines k (cart_run ops s) = user_lines k s)"
  using assms
proof (induction ops arbitrary: s)
  case (Cons op ops)
  let ?t = "cart_op_step op s"
  have t: "carts_ok ?t \<and> version_of k s \<le> version_of k ?t \<and>
      (version_of k ?t = version_of k s \<longrightarrow> user_lines k ?t = user_lines k s)"
    using cart_op_cases[OF Cons.prems, of op]
  proof (elim disjE exE)
    fix j m assume "cart_step j m s ?t"
    then show ?thesis by (cases "j = k") (auto simp: cart_step_def cart_changes_def)
  qed (use Cons.prems same_carts_facts in auto)
  then show ?case using Cons.IH[of ?t] by (auto simp: cart_run_def)
qed (simp add: cart_run_def)

section \<open>Reads\<close>

lemma getCart_stable:
  assumes "getCart e u s = Inr a" and "getCart e' u s = Inr b"
  shows "a = b"
  using assms by (auto simp: getCart_def err_simps query_row_NoRows split: sum.splits if_splits)

lemma getCart_same: "same_carts a b \<Longrightarrow> getCart e u a = getCart e u b"
  by (simp add: getCart_def same_carts_def cong: sum.case_cong)

lemma json_line_roundtrip: "int64 (cl_quantity i) \<Longrightarrow> decode_line (json_line i) = Inr i"
  by (simp add: decode_line_def json_line_def same_key_def ascii_lower_def del: to_int.simps)

lemma json_cart_roundtrip:
  assumes "int64 (cv_version v)" and "\<forall>i \<in> set (cv_items v). int64 (cl_quantity i)"
  shows "decode_cart (Some (json_cart v)) = Inr v"
proof -
  have [simp]: "plain_key ''user_id''" "plain_key ''version''" "plain_key ''items''" "plain_key ''updated_at''"
    by code_simp+
  have "to_list (ok \<circ> decode_line) \<lparr>cl_product = [], cl_quantity = 0\<rparr> (map json_line (cv_items v)) = Some (cv_items v)"
    using assms(2) by (intro to_list_map) (auto simp: json_line_roundtrip, simp add: json_line_def)
  with assms(1) show ?thesis
    by (simp add: decode_cart_def json_cart_def same_key_plain del: to_int.simps)
qed

lemma getCart_regular:
  assumes "getCart e u s = Inr v" and "carts_ok s"
  shows "int64 (cv_version v) \<and> (\<forall>i \<in> set (cv_items v). int64 (cl_quantity i))"
proof -
  from assms(1) consider "cv_version v = 0" "cv_items v = []"
    | w where "w \<in> set (cs_carts s)" "cv_version v = cw_version w" "cv_items v = lines_of (cw_user w) (cs_lines s)"
    by (auto simp: getCart_def err_simps split: sum.splits if_splits dest!: row_find_SomeD)
  then show ?thesis
  proof cases
    case 2
    then have "1 \<le> cw_version w" "cw_version w < 2 ^ 63" using assms(2) by (auto simp: carts_ok_def)
    moreover have "int64 (cl_quantity i)" if i: "i \<in> set (cv_items v)" for i
    proof -
      obtain r where "r \<in> set (cs_lines s)" "cl_quantity i = cx_quantity r"
        using i 2(3) by (auto simp: lines_of_def)
      then have "1 \<le> cl_quantity i" "cl_quantity i \<le> 99" using assms(2) by (auto simp: carts_ok_def)
      then show ?thesis by (simp add: int64_def)
    qed
    ultimately show ?thesis using 2(2) by (simp add: int64_def)
  qed (simp add: int64_def)
qed

text \<open>The lines of an answer, read as a map, are the content of the cart.\<close>

definition view_of :: "cart \<Rightarrow> string \<rightharpoonup> int" where
  "view_of v = map_of (map (\<lambda>i. (cl_product i, cl_quantity i)) (cv_items v))"

lemma content_map_of:
  "content k rows = map_of (map (\<lambda>r. (cx_product r, cx_quantity r)) (filter (\<lambda>r. cx_user r = k) rows))"
  by (induction rows) (auto simp: content_def fun_eq_iff)

lemma content_lines_of:
  assumes "distinct (map line_key rows)"
  shows "map_of (map (\<lambda>i. (cl_product i, cl_quantity i)) (lines_of k rows)) = content k rows"
proof -
  let ?us = "filter (\<lambda>r. cx_user r = k) rows" and ?f = "\<lambda>r. (cx_product r, cx_quantity r)"
  have "distinct (map line_key ?us)" using assms by (rule distinct_map_filter)
  then have inj: "inj_on cx_product (set ?us)" "distinct ?us"
    by (auto simp: distinct_map inj_on_def)
  then have "map_of (map ?f (sort_key cx_product ?us)) = map_of (map ?f ?us)"
    by (subst map_of_inject_set) (auto simp: comp_def distinct_map)
  then show ?thesis by (simp add: lines_of_def content_map_of comp_def)
qed

lemma getCart_view:
  assumes "getCart e u s = Inr v" and "carts_ok s" and "uuid_key u = Some k"
  shows "view_of v = content k (cs_lines s) \<and> cv_version v = version_of k s"
proof (cases "row_find cw_user k (cs_carts s)")
  case None
  then have "\<forall>r \<in> set (cs_lines s). cx_user r \<noteq> k"
    using assms(2) by (metis carts_ok_def row_find_None_iff)
  then have "content k (cs_lines s) = Map.empty" by (simp add: content_map_of)
  moreover have "cv_items v = []" "cv_version v = 0"
    using assms(1,3) None by (auto simp: getCart_def err_simps split: sum.splits if_splits)
  ultimately show ?thesis using None by (simp add: view_of_def version_of_def)
next
  case (Some w)
  then have "cw_user w = k" using row_find_SomeD by metis
  then have "cv_items v = lines_of k (cs_lines s)" "cv_version v = cw_version w"
    using assms(1,3) Some by (auto simp: getCart_def err_simps query_row_NoRows split: sum.splits if_splits)
  then show ?thesis
    using assms(2) Some by (simp add: view_of_def content_lines_of carts_ok_def version_of_def)
qed

text \<open>A successful edit: what the transaction did, and the cache afterwards.\<close>

lemma cart_tx_ok:
  assumes "cart_tx e u body s = (Inr v, s')" and "\<And>w t. body s \<noteq> Inr (Abandon w, t)"
  obtains t where "body s = Inr (Commit v, t)" "s' = forget_cart e u t"
  using assms(1)
proof (cases "with_tx e (Wrapped ''begin cart transaction'') (Wrapped ''commit cart'') body s")
  case (Pair x t)
  then show ?thesis
    using assms that by (auto simp: cart_tx_def with_tx_Commit with_tx_Abandon split: sum.splits verdict.splits)
qed

text \<open>An edit of a cart: a quantity for a product, or its removal.\<close>

definition edit ::
  "env \<Rightarrow> string \<Rightarrow> string \<Rightarrow> int option \<Rightarrow> carts \<Rightarrow> (go_error + cart) \<times> carts" where
  "edit e userID productID qo s =
     (case qo of None \<Rightarrow> DeleteItem e userID productID s
      | Some q \<Rightarrow> SetItem e userID productID q s)"

lemma edit_ok:
  assumes "edit e u p qo s = (Inr v, s')" and "carts_ok s"
  obtains k j t where "uuid_key u = Some k" "uuid_key p = Some j" "s' = forget_cart e u t"
    "getCart e u t = Inr v" "carts_ok t" "content k (cs_lines t) = (content k (cs_lines s))(j := qo)"
    "\<forall>i. i \<noteq> k \<longrightarrow> user_lines i t = user_lines i s"
proof (cases qo)
  case (Some q)
  then have "cart_tx e u (set_item_tx e u p q) s = (Inr v, s')" using assms(1) by (simp add: edit_def SetItem_def)
  then obtain t where t: "set_item_tx e u p q s = Inr (Commit v, t)" "s' = forget_cart e u t"
    by (rule cart_tx_ok) (auto simp: set_item_tx_def andthen_Inr Let_def)
  from t(1) assms(2) show ?thesis
    by (rule set_item_tx_step) (use that t(2) Some in \<open>auto simp: cart_step_def cart_changes_def\<close>)
next
  case None
  then have "cart_tx e u (delete_item_tx e u p) s = (Inr v, s')" using assms(1) by (simp add: edit_def DeleteItem_def)
  then obtain t where t: "delete_item_tx e u p s = Inr (Commit v, t)" "s' = forget_cart e u t"
    by (rule cart_tx_ok) (auto simp: delete_item_tx_def andthen_Inr Let_def)
  from t(1) assms(2) show ?thesis
  proof (rule delete_item_tx_step)
    fix w assume a: "Commit v = Commit w" "same_carts t s" "getCart e u t = Inr w"
    obtain k j where kj: "uuid_key u = Some k" "uuid_key p = Some j"
        "t = s\<lparr>cs_carts := cs_carts t, cs_lines := filter (\<lambda>r. line_key r \<noteq> (k, j)) (cs_lines s)\<rparr>"
      using t(1) by (auto simp: delete_item_tx_def andthen_Inr wrap_Inr as_uuid_Inr Let_def)
    have "cs_lines t = filter (\<lambda>r. line_key r \<noteq> (k, j)) (cs_lines s)"
      by (subst kj(3)) simp
    then have "content k (cs_lines t) = (content k (cs_lines s))(j := qo)"
      by (simp only: None content_filter refl if_True)
    then show ?thesis using that[OF kj(1,2) t(2)] a same_carts_facts[OF a(2)] assms(2) by simp
  qed (use that t(2) None in \<open>auto simp: cart_step_def cart_changes_def\<close>)
qed

section \<open>Properties\<close>

text \<open>A cart that is edited and read, and a request that leaves it as it is.\<close>

definition sample_user :: string where "sample_user = ''00000000-0000-4000-8000-000000000001''"
definition sample_product :: string where "sample_product = ''10000000-0000-4000-8000-000000000001''"

definition no_carts :: carts where
  "no_carts = \<lparr>cs_carts = [], cs_lines = [], cs_cache = (\<lambda>_. None)\<rparr>"

definition sample_request :: cart_op where
  "sample_request = SetOp quiet_env \<lparr>ctx_correlation = [], ctx_span = None\<rparr> sample_user sample_product
     \<lparr>bd_size = 14, bd_values = [(Some (JObj [(''quantity'', JInt 2)]), 14)]\<rparr>"

definition sample_edit :: "(go_error + cart) \<times> carts" where
  "sample_edit = edit quiet_env sample_user sample_product (Some 2) no_carts"

lemma no_carts_ok: "carts_ok no_carts"
  by (simp add: carts_ok_def no_carts_def)

lemma sample_edit_ok: "is_ok (fst sample_edit)"
  by code_simp

text \<open>
  C24 The version of a cart identifies its content: along every history of the cart service, if a
  user's cart has the same version at two moments, it has the same lines at both, and versions
  never go back; so the version check of a checkout compares contents.
\<close>

theorem cart_version_identifies_content:
  assumes "carts_ok s"
    and "version_of k (cart_run ops2 (cart_run ops1 s)) = version_of k (cart_run ops1 s)"
  shows "user_lines k (cart_run ops2 (cart_run ops1 s)) = user_lines k (cart_run ops1 s) \<and>
    version_of k s \<le> version_of k (cart_run ops1 s)"
proof -
  have ok: "carts_ok (cart_run ops1 s)" using cart_run_versions[OF assms(1)] by blast
  then show ?thesis using cart_run_versions[OF ok] cart_run_versions[OF assms(1)] assms(2) by blast
qed

theorem cart_version_identifies_content_witness:
  "\<exists>ops1 ops2. ops2 \<noteq> [] \<and> cart_run ops1 no_carts \<noteq> no_carts \<and>
     user_lines sample_user (cart_run ops2 (cart_run ops1 no_carts)) =
     user_lines sample_user (cart_run ops1 no_carts)"
proof (intro exI conjI)
  let ?again = "[DeleteOp quiet_env \<lparr>ctx_correlation = [], ctx_span = None\<rparr> sample_user sample_user]"
  have "version_of sample_user (cart_run ?again (cart_run [sample_request] no_carts)) =
      version_of sample_user (cart_run [sample_request] no_carts)" by code_simp
  from cart_version_identifies_content[OF no_carts_ok this]
  show "user_lines sample_user (cart_run ?again (cart_run [sample_request] no_carts)) =
      user_lines sample_user (cart_run [sample_request] no_carts)" ..
  have "length (cs_lines (cart_run [sample_request] no_carts)) = 1" by code_simp
  then show "cart_run [sample_request] no_carts \<noteq> no_carts" by (auto simp: no_carts_def)
qed simp

text \<open>
  C25 Editing a cart is updating a map: a successful SetItem stores the quantity under the
  product, a successful DeleteItem removes the product, all other lines and all other carts stay,
  and the answer shows the new content and the new version.
\<close>

theorem cart_edits_refine_map:
  assumes "carts_ok s" and "edit e userID productID qo s = (Inr v, s')"
  shows "\<exists>k p. uuid_key userID = Some k \<and> uuid_key productID = Some p \<and>
    content k (cs_lines s') = (content k (cs_lines s))(p := qo) \<and>
    (\<forall>i. i \<noteq> k \<longrightarrow> user_lines i s' = user_lines i s) \<and>
    view_of v = content k (cs_lines s') \<and> cv_version v = version_of k s'"
  using assms(2,1)
proof (rule edit_ok)
  fix k j t assume t: "uuid_key userID = Some k" "uuid_key productID = Some j" "s' = forget_cart e userID t"
    "getCart e userID t = Inr v" "carts_ok t" "content k (cs_lines t) = (content k (cs_lines s))(j := qo)"
    "\<forall>i. i \<noteq> k \<longrightarrow> user_lines i t = user_lines i s"
  have "same_carts s' t" unfolding t(3) by simp
  from same_carts_facts[OF this] getCart_view[OF t(4,5,1)] t show ?thesis by simp
qed

theorem cart_edits_refine_map_witness:
  "\<exists>v k p. fst sample_edit = Inr v \<and> view_of v p = Some 2 \<and> content k (cs_lines (snd sample_edit)) p = Some 2"
proof -
  obtain v where v: "fst sample_edit = Inr v" using sample_edit_ok by (auto simp: is_ok_iff)
  then have "edit quiet_env sample_user sample_product (Some 2) no_carts = (Inr v, snd sample_edit)"
    by (metis sample_edit_def prod.collapse)
  from cart_edits_refine_map[OF no_carts_ok this] obtain k p where
    "content k (cs_lines (snd sample_edit)) = (content k (cs_lines no_carts))(p := Some 2)"
    "view_of v = content k (cs_lines (snd sample_edit))" by blast
  then have "view_of v p = Some 2 \<and> content k (cs_lines (snd sample_edit)) p = Some 2" by simp
  with v show ?thesis by blast
qed

text \<open>
  C26 Reading one's writes through the cache: after a successful edit that could drop the cached
  cart, the next read and the read after it, which may be answered from the cache, return the
  cart the edit returned, for every clock and every failure of Redis.
\<close>

theorem cart_reads_see_writes:
  assumes "carts_ok s" and "edit e userID productID qo s = (Inr v, s')"
    and "\<not> fails e ''redis del cart''"
    and "Get e1 userID s' = (Inr a, s1)" and "Get e2 userID s1 = (Inr b, s2)"
  shows "a = v \<and> b = v"
  using assms(2,1)
proof (rule edit_ok)
  fix k j t assume t: "s' = forget_cart e userID t" "getCart e userID t = Inr v" "carts_ok t"
  have miss: "cs_cache s' (cartCacheKey userID) = None" using assms(3) t(1) by (simp add: forget_cart_def)
  have v: "getCart e userID s' = Inr v" using getCart_same[of s' t] t(1,2) by simp
  have av: "a = v" and s1: "s1 = s' \<or> s1 = s'\<lparr>cs_cache := (cs_cache s')(cartCacheKey userID \<mapsto> Some (json_cart v))\<rparr>"
    using assms(4) miss getCart_stable[OF v] by (auto simp: Get_def split: sum.splits if_splits)
  have rt: "decode_cart (Some (json_cart v)) = Inr v"
    using getCart_regular[OF t(2,3)] json_cart_roundtrip by blast
  have "same_carts s1 s'" using s1 by auto
  then have v1: "getCart e' userID s1 = Inr x \<Longrightarrow> x = v" for e' x
    using getCart_same getCart_stable v by metis
  have "b = v"
    using s1 assms(5) miss rt v1 by (auto simp: Get_def split: sum.splits if_splits)
  with av show ?thesis ..
qed

theorem cart_reads_see_writes_witness:
  "\<exists>v a b s1. fst sample_edit = Inr v \<and> Get quiet_env sample_user (snd sample_edit) = (Inr a, s1) \<and>
     fst (Get quiet_env sample_user s1) = Inr b \<and> a = v \<and> b = v"
proof -
  obtain v where v: "fst sample_edit = Inr v" using sample_edit_ok by (auto simp: is_ok_iff)
  have "is_ok (fst (Get quiet_env sample_user (snd sample_edit)))" by code_simp
  then obtain a s1 where a: "Get quiet_env sample_user (snd sample_edit) = (Inr a, s1)"
    by (metis is_ok_iff prod.collapse)
  have "is_ok (fst (Get quiet_env sample_user (snd (Get quiet_env sample_user (snd sample_edit)))))" by code_simp
  then obtain b s2 where b: "Get quiet_env sample_user s1 = (Inr b, s2)"
    using a by (metis is_ok_iff prod.collapse snd_conv)
  have "edit quiet_env sample_user sample_product (Some 2) no_carts = (Inr v, snd sample_edit)"
    using v by (metis sample_edit_def prod.collapse)
  from cart_reads_see_writes[OF no_carts_ok this _ a b] v a b show ?thesis
    by (simp add: quiet_env_def)
qed

end
