(* ===== verification/Clients.thy ===== *)
theory Clients
  imports StockProps OrderProps CartProps
begin

text \<open>
  The order service's clients of the cart and catalog services
  (services/order-service/internal/order/client.go), composed with the handlers of those services.
  The world of a checkout is the state of both. Each call has surroundings of its own on the side
  of the client (\<open>ec\<close>) and of the server (\<open>es\<close>): the request may not arrive, and the answer may
  be lost after the server has done its work. \<open>len\<close> is the length of an encoded body.
\<close>

type_synonym world = "carts \<times> catalog"

text \<open>One HTTP exchange: the reply, or nothing, and what the server did meanwhile.\<close>

definition exchange :: "env \<Rightarrow> ('s \<Rightarrow> reply \<times> 's) \<Rightarrow> 's \<Rightarrow> reply option \<times> 's" where
  "exchange ec handler s =
     (if fails ec ''new request'' \<or> fails ec ''send request'' then (None, s)
      else case handler s of (r, s') \<Rightarrow> (if fails ec ''read response'' then None else Some r, s'))"

definition decode_cart_item :: "json \<Rightarrow> go_error + cart_item" where
  "decode_cart_item v =
     andthen (struct_fields (Some v)) (\<lambda>kvs.
     andthen (field to_string ''product_id'' [] kvs) (\<lambda>p.
     andthen (field to_int ''quantity'' 0 kvs) (\<lambda>q.
       Inr \<lparr>ci_product = p, ci_quantity = q\<rparr>)))"

definition decode_user_cart :: "json option \<Rightarrow> go_error + user_cart" where
  "decode_user_cart bytes =
     andthen (struct_fields bytes) (\<lambda>kvs.
     andthen (field to_string ''user_id'' [] kvs) (\<lambda>u.
     andthen (field to_int ''version'' 0 kvs) (\<lambda>ver.
     andthen (field (to_array (ok \<circ> decode_cart_item) \<lparr>ci_product = [], ci_quantity = 0\<rparr>) ''items'' [] kvs) (\<lambda>items.
       Inr \<lparr>ca_user = u, ca_version = ver, ca_items = items\<rparr>))))"

definition CartClient_Get :: "env \<Rightarrow> env \<Rightarrow> ctx \<Rightarrow> world cart_reader" where
  "CartClient_Get ec es c userID w =
     (case exchange ec (Cart.get es c userID) (fst w) of
        (None, crt) \<Rightarrow> (Inl Unreachable, crt, snd w)
      | (Some r, crt) \<Rightarrow>
          (if rp_status r \<noteq> 200 then Inl (UpstreamError (rp_status r) ''cart_unavailable'')
           else case decode_user_cart (rp_body r) of Inl _ \<Rightarrow> Inl Unreachable | Inr v \<Rightarrow> Inr v, crt, snd w))"

definition json_cart_item :: "cart_item \<Rightarrow> json" where
  "json_cart_item i = JObj [(''product_id'', JStr (ci_product i)), (''quantity'', JInt (ci_quantity i))]"

definition json_stock_request :: "stock_request \<Rightarrow> json" where
  "json_stock_request q = JObj
     [(''checkout_attempt_id'', JStr (sq_attempt q)), (''items'', JArr (map json_cart_item (sq_items q))),
      (''ttl_seconds'', JInt (sq_ttl q))]"

definition decode_reservation :: "json option \<Rightarrow> go_error + stock_reservation" where
  "decode_reservation bytes =
     andthen (struct_fields bytes) (\<lambda>kvs.
     andthen (field to_string ''reservation_id'' [] kvs) (\<lambda>i.
     andthen (field to_string ''status'' [] kvs) (\<lambda>st.
     andthen (field (to_array (ok \<circ> decode_order_item) zero_order_item) ''items'' [] kvs) (\<lambda>items.
     andthen (field to_int ''total_amount_minor'' 0 kvs) (\<lambda>total.
     andthen (field to_string ''currency'' [] kvs) (\<lambda>cur.
       Inr \<lparr>sn_id = i, sn_status = st, sn_items = items, sn_total = total, sn_currency = cur\<rparr>))))))"

definition CatalogClient_Reserve :: "(json \<Rightarrow> int) \<Rightarrow> env \<Rightarrow> env \<Rightarrow> ctx \<Rightarrow> world reserver" where
  "CatalogClient_Reserve len ec es c q w =
     (let v = json_stock_request q; body = \<lparr>bd_size = len v, bd_values = [(Some v, len v)]\<rparr> in
      if fails ec ''marshal request'' then (Inl Unreachable, w)
      else case exchange ec (Catalog.reserve es c body) (snd w) of
        (None, cat) \<Rightarrow> (Inl Unreachable, fst w, cat)
      | (Some r, cat) \<Rightarrow>
          (if rp_status r = 409 then Inl (UpstreamError 409 ''inventory_insufficient'')
           else if rp_status r \<noteq> 201 then Inl (UpstreamError (rp_status r) ''catalog_unavailable'')
           else case decode_reservation (rp_body r) of Inl _ \<Rightarrow> Inl Unreachable | Inr x \<Rightarrow> Inr x, fst w, cat))"

definition CatalogClient_Release :: "env \<Rightarrow> env \<Rightarrow> ctx \<Rightarrow> world releaser" where
  "CatalogClient_Release ec es c reservationID w =
     (case exchange ec (Catalog.release es c reservationID) (snd w) of
        (None, cat) \<Rightarrow> (Inl Unreachable, fst w, cat)
      | (Some r, cat) \<Rightarrow>
          (if rp_status r \<noteq> 204 then Inl (UpstreamError (rp_status r) ''reservation_release_failed'')
           else Inr (), fst w, cat))"

section \<open>Lemmas\<close>

text \<open>Whatever is decoded into an \<open>int\<close> field is an \<open>int64\<close>.\<close>

lemma to_int_range: "to_int v = Some x \<Longrightarrow> int64 x"
  by (cases v) (auto simp: int64_def split: if_splits)

lemma field_to_int_range: "field to_int name z kvs = Inr x \<Longrightarrow> int64 z \<Longrightarrow> int64 x"
  by (induction to_int name z kvs rule: field.induct) (auto split: if_splits option.splits dest: to_int_range)

lemma int64_zero [simp]: "int64 0"
  by (simp add: int64_def)

lemma decode_order_item_range: "decode_order_item v = Inr i \<Longrightarrow> int64 (oi_quantity i) \<and> int64 (oi_price i)"
  by (auto simp: decode_order_item_def andthen_Inr dest: field_to_int_range)

lemma to_list_all:
  assumes "to_list conv z vs = Some xs" and "\<And>v x. conv v = Some x \<Longrightarrow> P x" and "P z"
  shows "\<forall>x \<in> set xs. P x"
  using assms(1) by (induction vs arbitrary: xs) (auto simp: assms(2,3) split: if_splits option.splits)

lemma field_array_all:
  assumes "field (to_array conv z) name d kvs = Inr xs" and "\<And>v x. conv v = Some x \<Longrightarrow> P x" and "P z"
    and "\<forall>x \<in> set d. P x"
  shows "\<forall>x \<in> set xs. P x"
  using assms(1,4)
proof (induction kvs arbitrary: d)
  case (Cons kv kvs)
  obtain k v where kv: "kv = (k, v)" by (cases kv)
  show ?case
  proof (cases "same_key k name \<and> v \<noteq> JNull")
    case True
    then obtain ys where "to_array conv z v = Some ys" "field (to_array conv z) name ys kvs = Inr xs"
      using Cons.prems kv by (auto split: option.splits)
    moreover obtain vs where "to_list conv z vs = Some ys" using calculation(1) by (cases v) auto
    then have "\<forall>x \<in> set ys. P x" by (rule to_list_all) (use assms(2,3) in auto)
    ultimately show ?thesis using Cons.IH by blast
  next
    case False
    then show ?thesis using Cons kv by (auto split: if_splits)
  qed
qed simp

lemma decode_reservation_range:
  assumes "decode_reservation bytes = Inr r"
  shows "int64 (sn_total r) \<and> (\<forall>i \<in> set (sn_items r). int64 (oi_quantity i) \<and> int64 (oi_price i))"
proof -
  obtain kvs where
    t: "field to_int ''total_amount_minor'' 0 kvs = Inr (sn_total r)" and
    i: "field (to_array (ok \<circ> decode_order_item) zero_order_item) ''items'' [] kvs = Inr (sn_items r)"
    using assms by (auto simp: decode_reservation_def andthen_Inr)
  have "\<forall>x \<in> set (sn_items r). int64 (oi_quantity x) \<and> int64 (oi_price x)"
    by (rule field_array_all[OF i])
      (auto simp: ok_def zero_order_item_def dest: decode_order_item_range split: sum.splits)
  then show ?thesis using field_to_int_range[OF t] by simp
qed

text \<open>The JSON of a reservation as the order service reads it.\<close>

definition order_item_of :: "reserved_item \<Rightarrow> order_item" where
  "order_item_of v = \<lparr>oi_product = rv_product v, oi_name = rv_name v, oi_quantity = rv_quantity v,
     oi_price = rv_price v, oi_currency = rv_currency v\<rparr>"

lemma json_reserved_item: "json_reserved v = json_order_item (order_item_of v)"
  by (simp add: json_reserved_def json_order_item_def order_item_of_def)

lemma decode_reservation_json:
  assumes "response_ok r"
  shows "decode_reservation (Some (json_response r)) =
    Inr \<lparr>sn_id = rr_id r, sn_status = rr_status r, sn_items = map order_item_of (rr_items r),
         sn_total = rr_total r, sn_currency = rr_currency r\<rparr>"
proof -
  have items: "to_list (ok \<circ> decode_order_item) zero_order_item (map json_reserved (rr_items r)) =
      Some (map order_item_of (rr_items r))"
  proof -
    have "map json_reserved (rr_items r) = map json_order_item (map order_item_of (rr_items r))"
      by (simp add: json_reserved_item)
    moreover have "to_list (ok \<circ> decode_order_item) zero_order_item
        (map json_order_item (map order_item_of (rr_items r))) = Some (map order_item_of (rr_items r))"
    proof (rule to_list_map)
      fix x assume "x \<in> set (map order_item_of (rr_items r))"
      then have "int64 (oi_quantity x)" "int64 (oi_price x)"
        using assms by (auto simp: response_ok_def order_item_of_def)
      then show "json_order_item x \<noteq> JNull \<and> (ok \<circ> decode_order_item) (json_order_item x) = Some x"
        by (simp add: decode_order_item_json json_order_item_not_null)
    qed
    ultimately show ?thesis by metis
  qed
  have total: "to_int (JInt (rr_total r)) = Some (rr_total r)"
    using assms by (intro to_int_int64) (simp add: response_ok_def)
  show ?thesis
    using items total
    by (simp add: decode_reservation_def json_response_def field_append same_key_def ascii_lower_def
          del: to_int.simps split: option.splits)
qed

end
