(* ===== verification/Saga.thy ===== *)
theory Saga
  imports Clients
begin

text \<open>
  A checkout across the services: what the order service's \<open>Create\<close> promises about the stock of
  the catalog service. The order service relies on an interface, the locale \<open>inventory\<close>: what a
  reservation takes and that it is remembered. The interpretation discharges it for the clients of
  client.go talking to the handlers of the cart and catalog services.
\<close>

section \<open>The interface\<close>

text \<open>The quantities a list of items sells.\<close>

definition sold :: "order_item list \<Rightarrow> string \<Rightarrow> int" where
  "sold items k = (\<Sum>i\<leftarrow>items. if oi_product i = k then oi_quantity i else 0)"

locale inventory =
  fixes carts :: "'w cart_reader" and reserve :: "'w reserver"
    and sound :: "'w \<Rightarrow> bool"
    and available :: "'w \<Rightarrow> string \<Rightarrow> int"
    and knows :: "'w \<Rightarrow> string \<Rightarrow> bool"
    and holds :: "'w \<Rightarrow> string \<Rightarrow> bool"
  assumes carts_keep: "carts u w = (x, w1) \<Longrightarrow>
      sound w1 = sound w \<and> available w1 = available w \<and> knows w1 = knows w \<and> holds w1 = holds w"
    and reserve_numbers: "reserve q w = (Inr r, w1) \<Longrightarrow>
      int64 (sn_total r) \<and> (\<forall>i \<in> set (sn_items r). int64 (oi_quantity i) \<and> int64 (oi_price i))"
    and reserve_takes: "sound w \<Longrightarrow> reserve q w = (Inr r, w1) \<Longrightarrow> \<not> knows w (sq_attempt q) \<Longrightarrow>
      holds w1 (sn_id r) \<and> (\<forall>k. available w1 k = available w k - sold (sn_items r) k)"
begin

text \<open>A first checkout that succeeds has reserved what it sells.\<close>

lemma int64_reserves: "int64_reserver reserve"
  using reserve_numbers by (auto simp: int64_reserver_def)

lemma first_checkout:
  assumes "Create sha e c carts reserve rel ttl key request (s, w) = (Inr (v, False), s', w')"
    and "row_find ik_key key (os_keys s) = None"
    and "sound w" and "\<not> knows w (format_uuid (rand e ''attempt''))"
  shows "holds w' (od_reservation v) \<and> (\<forall>k. available w' k = available w k - sold (od_items v) k)"
proof -
  have prep: "prepareIdempotency e key h s = (Inr (a, y), s1) \<Longrightarrow> a = format_uuid (rand e ''attempt'') \<and> y = None"
    for h a y s1
    using assms(2) by (auto simp: prepareIdempotency_def NewUUID_def andthen_def wrap_def io_def Let_def
        split: sum.splits if_splits)
  obtain s1 lat lon where
    co: "checkout e c carts reserve rel ttl key request (format_uuid (rand e ''attempt'')) lat lon (s1, w) =
      (Inr (v, False), s', w')"
    using assms(1) prep
    by (fastforce simp: Create_def split: prod.splits sum.splits option.splits if_splits)
  obtain cart w1 r w2 where
    ca: "carts (cq_user request) w = (Inr cart, w1)" and
    re: "reserve \<lparr>sq_attempt = format_uuid (rand e ''attempt''), sq_items = ca_items cart, sq_ttl = whole_seconds ttl\<rparr> w1 =
      (Inr r, w2)" and
    pe: "persistOrder e c key request r lat lon s1 = (Inr v, s')" and w': "w' = w2"
    using co by (auto simp: checkout_def split: prod.splits sum.splits if_splits upstream_error.splits)
  have v: "od_reservation v = sn_id r" "od_items v = sn_items r"
    using pe by (cases rule: persistOrder_cases; simp add: new_order_def)+
  note k = carts_keep[OF ca]
  show ?thesis using reserve_takes[OF _ re] k assms(3,4) unfolding v w' by simp
qed

end

section \<open>The provider\<close>

lemma refusals_400:
  "check_items items seen = Some a \<Longrightarrow> ae_status a = 400"
  by (induction items seen rule: check_items.induct) (auto simp: Error_def split: if_splits)

lemma validate_400: "validateReserve req = Some a \<Longrightarrow> ae_status a = 400"
  by (auto simp: validateReserve_def Error_def dest: refusals_400 split: if_splits)

lemma decode_400: "DecodeJSON dec body = Inl a \<Longrightarrow> ae_status a = 400"
  by (auto simp: DecodeJSON_def Error_def split: list.splits option.splits sum.splits if_splits)

lemma WriteError_status [simp]:
  "rp_status (WriteError c None) = 500" "rp_status (WriteError c (Some a)) = ae_status a"
  by (simp_all add: WriteError_def WriteJSON_def internalError_def Error_def)

lemma WriteJSON_simps [simp]: "rp_status (WriteJSON st v) = st" "rp_body (WriteJSON st v) = Some v"
  by (simp_all add: WriteJSON_def)

lemma Error_status [simp]: "ae_status (Error st code msg d) = st"
  by (simp add: Error_def)

lemma reserve_reply_201:
  assumes "Catalog.reserve e c body cat = (r, cat')" and "rp_status r = 201"
  obtains req resp where "DecodeJSON decode_request body = Inr req" "validateReserve req = None"
    "Reserve e c req cat = (Inr resp, cat')" "rr_status resp \<noteq> ''failed''" "rp_body r = Some (json_response resp)"
proof (cases "DecodeJSON decode_request body")
  case (Inl a)
  then show ?thesis using assms decode_400[OF Inl] by (auto simp: Catalog.reserve_def)
next
  case (Inr req)
  show ?thesis
  proof (cases "validateReserve req")
    case None
    then show ?thesis using assms Inr that
      by (cases "Reserve e c req cat") (auto simp: Catalog.reserve_def split: sum.splits if_splits)
  next
    case (Some a)
    then show ?thesis using assms Inr validate_400[OF Some] by (auto simp: Catalog.reserve_def)
  qed
qed

lemma decode_request_attempt:
  assumes "decode_request (json_stock_request q) = Inr req"
  shows "rq_attempt req = sq_attempt q"
proof -
  have [simp]: "plain_key ''checkout_attempt_id''" "plain_key ''items''" "plain_key ''ttl_seconds''"
    by code_simp+
  show ?thesis
    using assms
    by (auto simp: decode_request_def json_stock_request_def strict_fields_def andthen_Inr same_key_plain
        simp del: to_array.simps to_int.simps split: if_splits option.splits)
qed

lemma Reserve_built:
  assumes "Reserve e c req cat = (Inr resp, cat')" and "catalog_ok cat" and "validateReserve req = None"
    and "uuid_key (rq_attempt req) \<notin> Some ` rs_attempt ` set (ct_reservations cat)"
  shows "recorded req resp cat cat' \<and> built (ct_products cat) resp \<and> rr_status resp \<in> {''active'', ''failed''}"
proof -
  have small: "small_items (rq_items req)" using validateReserve_items[OF assms(3)] by blast
  obtain v t where w: "with_tx e (Wrapped ''begin reserve transaction'') (Wrapped ''commit reservation'')
      (reserve_tx e c req) cat = (v, t)" by fastforce
  then have v: "(v = Inr (Abandon resp) \<or> v = Inr (Commit resp)) \<and> same_tables cat' t"
    using assms(1) by (auto simp: Reserve_def split: sum.splits verdict.splits option.splits if_splits)
  have no: "reserve_tx e c req cat \<noteq> Inr (Abandon x, y)" for x y
  proof
    assume "reserve_tx e c req cat = Inr (Abandon x, y)"
    then show False
    proof (cases rule: reserve_tx_cases)
      case (found k r resp)
      then show False using assms(4) row_find_SomeD by (metis imageI)
    qed simp
  qed
  then have "reserve_tx e c req cat = Inr (Commit resp, t)"
    using w v by (auto simp: with_tx_Commit with_tx_Abandon)
  then show ?thesis
  proof (cases rule: reserve_tx_cases)
    case (fresh b k)
    have bt: "built (ct_products cat) resp"
      using fresh assms(2) small by (auto intro!: response_built simp: catalog_ok_def)
    have "recorded req resp cat t"
      using fresh bt assms(2) by (auto intro!: record_reservation_recorded simp: catalog_ok_def)
    moreover have "rr_status resp \<in> {''active'', ''failed''}" using fresh(4) by (simp add: response_of_def)
    ultimately show ?thesis using bt v same_tables_facts by blast
  qed simp
qed

definition holds_reservation :: "world \<Rightarrow> string \<Rightarrow> bool" where
  "holds_reservation w rid \<longleftrightarrow> (\<exists>r \<in> set (ct_reservations (snd w)). rs_id r = rid \<and> rs_status r = ''active'')"

definition knows_attempt :: "world \<Rightarrow> string \<Rightarrow> bool" where
  "knows_attempt w a \<longleftrightarrow> uuid_key a \<in> Some ` rs_attempt ` set (ct_reservations (snd w))"

interpretation shop_stock: inventory "CartClient_Get ec es c" "CatalogClient_Reserve len ec' es' c'"
  "\<lambda>w. catalog_ok (snd w)" "\<lambda>w. stock (ct_products (snd w))" knows_attempt holds_reservation
  for ec es c len ec' es' c'
proof unfold_locales
  fix u and w w1 :: world and x
  assume "CartClient_Get ec es c u w = (x, w1)"
  then have "snd w1 = snd w"
    by (auto simp: CartClient_Get_def split: prod.splits option.splits)
  then show "catalog_ok (snd w1) = catalog_ok (snd w) \<and> stock (ct_products (snd w1)) = stock (ct_products (snd w)) \<and>
      knows_attempt w1 = knows_attempt w \<and> holds_reservation w1 = holds_reservation w"
    by (simp add: fun_eq_iff knows_attempt_def holds_reservation_def)
next
  fix q r and w w1 :: world
  assume "CatalogClient_Reserve len ec' es' c' q w = (Inr r, w1)"
  then show "int64 (sn_total r) \<and> (\<forall>i \<in> set (sn_items r). int64 (oi_quantity i) \<and> int64 (oi_price i))"
    using decode_reservation_range
    by (auto simp: CatalogClient_Reserve_def Let_def split: prod.splits option.splits sum.splits if_splits)
next
  fix q r and w w1 :: world
  assume ok: "catalog_ok (snd w)" and re: "CatalogClient_Reserve len ec' es' c' q w = (Inr r, w1)"
    and new: "\<not> knows_attempt w (sq_attempt q)"
  let ?v = "json_stock_request q"
  let ?body = "\<lparr>bd_size = len ?v, bd_values = [(Some ?v, len ?v)]\<rparr>"
  obtain p where p: "Catalog.reserve es' c' ?body (snd w) = (p, snd w1)" "rp_status p = 201"
    "decode_reservation (rp_body p) = Inr r"
    using re by (auto simp: CatalogClient_Reserve_def exchange_def Let_def
        split: prod.splits option.splits sum.splits if_splits)
  obtain req resp where d: "DecodeJSON decode_request ?body = Inr req" "validateReserve req = None"
    "Reserve es' c' req (snd w) = (Inr resp, snd w1)" "rr_status resp \<noteq> ''failed''"
    "rp_body p = Some (json_response resp)"
    using reserve_reply_201[OF p(1,2)] by blast
  have "rq_attempt req = sq_attempt q"
    using d(1) decode_request_attempt by (auto simp: DecodeJSON_def split: sum.splits if_splits)
  then have "uuid_key (rq_attempt req) \<notin> Some ` rs_attempt ` set (ct_reservations (snd w))"
    using new by (simp add: knows_attempt_def)
  note rb = Reserve_built[OF d(3) ok d(2) this]
  then have rk: "response_ok resp" by (simp add: built_def)
  have r: "sn_id r = rr_id resp" "sn_items r = map order_item_of (rr_items resp)"
    using p(3) d(5) decode_reservation_json[OF rk] by auto
  have "sold (sn_items r) k = taken (rr_items resp) k" for k
    by (simp add: r sold_def taken_def order_item_of_def comp_def cong: if_cong)
  then show "holds_reservation w1 (sn_id r) \<and>
      (\<forall>k. stock (ct_products (snd w1)) k = stock (ct_products (snd w)) k - sold (sn_items r) k)"
    using rb d(4) r(1) by (auto simp: recorded_def holds_reservation_def)
qed

section \<open>A sample world\<close>

definition cart_db :: carts where
  "cart_db = \<lparr>cs_carts = [\<lparr>cw_user = demo_user, cw_version = 3, cw_updated = 0\<rparr>],
     cs_lines = [\<lparr>cx_user = demo_user, cx_product = apples, cx_quantity = 2\<rparr>], cs_cache = (\<lambda>_. None)\<rparr>"

definition order_request :: checkout_request where
  "order_request = \<lparr>cq_user = demo_user, cq_version = 3\<rparr>"

definition place :: "env \<Rightarrow> orders \<times> world \<Rightarrow> (api_error + order \<times> bool) \<times> orders \<times> world" where
  "place e = Create demo_sha e no_ctx (CartClient_Get label_env label_env no_ctx)
     (CatalogClient_Reserve (\<lambda>_. 100) label_env label_env no_ctx) (CatalogClient_Release label_env label_env no_ctx)
     (900 * second) ''key-7'' order_request"

text \<open>
  A checkout whose commit fails, and the client's retry under the same key. The first call
  releases its reservation; the second one is given the same reservation again by the catalog
  service, which answers a known attempt from its stored response, and records an order whose
  stock nobody holds (service.go, lines 79 to 83, and store.go of the catalog, lines 73 to 81).
\<close>

definition failed_try :: "(api_error + order \<times> bool) \<times> orders \<times> world" where
  "failed_try = place (label_env\<lparr>commit_of := CommitAborted\<rparr>) (order_db, cart_db, shop)"

definition retried :: "(api_error + order \<times> bool) \<times> orders \<times> world" where
  "retried = place label_env (snd failed_try)"

section \<open>Properties\<close>

text \<open>
  C32 A first checkout sells only what it has reserved: when the checkout of a new key succeeds,
  through the clients and the handlers of the cart and catalog services and whatever answers were
  lost on the way, the order's reservation is active in the catalog, and the stock of every product
  has fallen by exactly the quantity the order sells.
\<close>

theorem checkout_sells_reserved_stock:
  assumes "Create sha e c (CartClient_Get ec es cc) (CatalogClient_Reserve len ec' es' cc') rel ttl key request
      (s, crt, cat) = (Inr (v, False), s', crt', cat')"
    and "row_find ik_key key (os_keys s) = None" and "catalog_ok cat"
    and "format_uuid (rand e ''attempt'') \<notin> rs_attempt ` set (ct_reservations cat)"
  shows "(\<exists>r \<in> set (ct_reservations cat'). rs_id r = od_reservation v \<and> rs_status r = ''active'') \<and>
    (\<forall>k. stock (ct_products cat') k = stock (ct_products cat) k - sold (od_items v) k)"
  using shop_stock.first_checkout[OF assms(1,2)] assms(3,4)
  by (auto simp: holds_reservation_def knows_attempt_def format_uuid_key)

theorem checkout_sells_reserved_stock_witness:
  "\<exists>v. fst (place label_env (order_db, cart_db, shop)) = Inr (v, False) \<and>
     stock (ct_products (snd (snd (snd (place label_env (order_db, cart_db, shop)))))) apples =
       stock (ct_products shop) apples - sold (od_items v) apples"
proof -
  obtain r s' crt' cat' where p: "place label_env (order_db, cart_db, shop) = (r, s', crt', cat')"
    by (metis prod_cases4)
  have "(case place label_env (order_db, cart_db, shop) of (Inl _, _) \<Rightarrow> False | (Inr (x, y), _) \<Rightarrow> \<not> y)" by code_simp
  then obtain v where v: "r = Inr (v, False)" using p by (auto split: sum.splits)
  have "row_find ik_key ''key-7'' (os_keys order_db) = None" by (simp add: order_db_def)
  moreover have "format_uuid (rand label_env ''attempt'') \<notin> rs_attempt ` set (ct_reservations shop)"
    by (simp add: shop_def)
  ultimately show ?thesis
    using checkout_sells_reserved_stock[OF p[unfolded v place_def] _ shop_ok] p v by simp
qed

text \<open>
  A retried checkout can sell stock that is no longer reserved: the first try reserves two
  units, fails to commit the order and releases them; the retry with the same key finds the released
  reservation under the same checkout attempt, takes it as active and creates the order, while the
  two units are back on the shelf.
\<close>

theorem retry_after_compensation:
  "\<exists>v. fst failed_try = Inl internalError \<and> fst retried = Inr (v, False) \<and>
     \<not> holds_reservation (snd (snd retried)) (od_reservation v) \<and>
     stock (ct_products (snd (snd (snd retried)))) apples = stock (ct_products shop) apples \<and>
     sold (od_items v) apples = 2"
proof -
  have "(case failed_try of (r, sw) \<Rightarrow>
      r = Inl internalError \<and>
      (case place label_env sw of (Inl _, _) \<Rightarrow> False
       | (Inr (v, b), _, _, cat) \<Rightarrow> \<not> b \<and> sold (od_items v) apples = 2 \<and>
           map rs_status (ct_reservations cat) = [''released''] \<and>
           stock (ct_products cat) apples = stock (ct_products shop) apples))"
    by code_simp
  then obtain sw v x y cat where f: "failed_try = (Inl internalError, sw)" and
    p: "place label_env sw = (Inr (v, False), x, y, cat)" and
    r: "sold (od_items v) apples = 2" "map rs_status (ct_reservations cat) = [''released'']"
      "stock (ct_products cat) apples = stock (ct_products shop) apples"
    by (auto split: prod.splits sum.splits)
  have rt: "retried = (Inr (v, False), x, y, cat)" unfolding retried_def f using p by simp
  have "\<not> holds_reservation (y, cat) i" for i using r(2) by (auto simp: holds_reservation_def)
  then show ?thesis unfolding rt f using r by simp
qed

end
