(* ===== verification/Delivery.thy ===== *)
theory Delivery
  imports Outbox Httpx Inbox
begin

text \<open>
  The delivery service's consumer (services/delivery-service/internal/delivery, consumer.go and
  model.go): assigning the nearest available courier to a created order, cancelling a delivery,
  and following the couriers' locations and phases. The state is the schema \<open>delivery\<close> of
  db/postgres/migrations and the Redis geo index of couriers; how Redis orders the couriers around
  a point (\<open>geo_search\<close>) is a parameter.
\<close>

section \<open>Data\<close>

record order_created =
  oc_order :: string
  oc_lat :: real
  oc_lon :: real
  oc_items :: int

record location =
  lp_courier :: string
  lp_delivery :: string
  lp_lat :: real
  lp_lon :: real
  lp_heading :: real
  lp_speed :: real
  lp_recorded :: time
  lp_sequence :: int
  lp_phase :: string

text \<open>Rows of the tables couriers, deliveries and eta_predictions.\<close>

record courier_row =
  cr_id :: string
  cr_name :: string
  cr_status :: string
  cr_lat :: real
  cr_lon :: real
  cr_sequence :: int
  cr_seen :: time

record delivery_row =
  dr_id :: string
  dr_order :: string
  dr_courier :: string
  dr_status :: string
  dr_pickup_lat :: real
  dr_pickup_lon :: real
  dr_dest_lat :: real
  dr_dest_lon :: real
  dr_correlation :: string
  dr_assigned :: time
  dr_started :: "time option"
  dr_completed :: "time option"
  dr_items :: int
  dr_eta :: "int option"
  dr_model :: "string option"
  dr_eta_at :: "time option"
  dr_trace :: string
  dr_span :: string
  dr_delay :: int

record prediction_row =
  pr_id :: string
  pr_delivery :: string
  pr_order :: string
  pr_stage :: string
  pr_distance :: real
  pr_items :: int
  pr_load :: real
  pr_couriers :: int
  pr_predicted :: int
  pr_actual :: "int option"
  pr_model :: string
  pr_at :: time
  pr_completed :: "time option"

type_synonym geo_index = "(string \<times> real \<times> real) list"

record deliveries =
  ds_couriers :: "courier_row list"
  ds_deliveries :: "delivery_row list"
  ds_predictions :: "prediction_row list"
  ds_processed :: "string list"
  ds_outbox :: "outbox_row list"
  ds_geo :: geo_index

text \<open>The \<open>Consumer\<close>: the point of departure, Redis' search and the tracer it works with.\<close>

record dispatcher =
  pickup_lat :: real
  pickup_lon :: real
  geo_search :: "geo_index \<Rightarrow> real \<Rightarrow> real \<Rightarrow> string list"
  span_of :: "string \<Rightarrow> (string \<times> string) option"

definition decode_order_created :: "json option \<Rightarrow> go_error + order_created" where
  "decode_order_created bytes =
     andthen (struct_fields bytes) (\<lambda>kvs.
     andthen (field to_string ''order_id'' [] kvs) (\<lambda>i.
     andthen (field to_float ''delivery_latitude'' 0 kvs) (\<lambda>lat.
     andthen (field to_float ''delivery_longitude'' 0 kvs) (\<lambda>lon.
     andthen (field to_int ''item_count'' 0 kvs) (\<lambda>n.
       Inr \<lparr>oc_order = i, oc_lat = lat, oc_lon = lon, oc_items = n\<rparr>)))))"

definition decode_location :: "json option \<Rightarrow> go_error + location" where
  "decode_location bytes =
     andthen (struct_fields bytes) (\<lambda>kvs.
     andthen (field to_string ''courier_id'' [] kvs) (\<lambda>c.
     andthen (field to_string ''delivery_id'' [] kvs) (\<lambda>d.
     andthen (field to_float ''latitude'' 0 kvs) (\<lambda>lat.
     andthen (field to_float ''longitude'' 0 kvs) (\<lambda>lon.
     andthen (field to_float ''heading_degrees'' 0 kvs) (\<lambda>h.
     andthen (field to_float ''speed_mps'' 0 kvs) (\<lambda>sp.
     andthen (field to_time ''recorded_at'' zero_time kvs) (\<lambda>t.
     andthen (field to_int ''sequence'' 0 kvs) (\<lambda>sq.
     andthen (field to_string ''phase'' [] kvs) (\<lambda>ph.
       Inr \<lparr>lp_courier = c, lp_delivery = d, lp_lat = lat, lp_lon = lon, lp_heading = h,
            lp_speed = sp, lp_recorded = t, lp_sequence = sq, lp_phase = ph\<rparr>))))))))))"

section \<open>Statements\<close>

text \<open>\<open>events.New\<close> followed by \<open>outbox.Insert\<close>, as this service emits every event.\<close>

definition emit ::
  "env \<Rightarrow> ctx \<Rightarrow> string \<Rightarrow> string \<Rightarrow> json \<Rightarrow> outbox_row list \<Rightarrow> go_error + outbox_row list" where
  "emit e c eventType orderID payload rows =
     andthen (New e c eventType ''delivery-service'' orderID payload)
       (\<lambda>v. Insert e ''delivery'' ''freshflow.delivery.events.v1'' orderID v rows)"

definition delivery_statuses :: "string list" where
  "delivery_statuses = [''assigned'', ''assembling'', ''delivering'', ''completed'', ''cancelled'']"

definition terminal :: "string \<Rightarrow> bool" where
  "terminal status \<longleftrightarrow> status = ''completed'' \<or> status = ''cancelled''"

definition courier_statuses :: "string list" where
  "courier_statuses = [''available'', ''assigned'', ''offline'']"

definition set_courier ::
  "env \<Rightarrow> string \<Rightarrow> string \<Rightarrow> string \<Rightarrow> courier_row list \<Rightarrow> go_error + courier_row list" where
  "set_courier e lbl courierID status rows =
     exec_update e lbl cr_id courierID (\<lambda>r. cr_status r \<in> set courier_statuses)
       (\<lambda>r. r\<lparr>cr_status := status\<rparr>) rows"

definition set_delivery ::
  "env \<Rightarrow> string \<Rightarrow> string \<Rightarrow> (delivery_row \<Rightarrow> delivery_row) \<Rightarrow> delivery_row list \<Rightarrow>
   go_error + delivery_row list" where
  "set_delivery e lbl deliveryID f rows =
     exec_update e lbl dr_id deliveryID (\<lambda>r. dr_status r \<in> set delivery_statuses) f rows"

section \<open>Assignment\<close>

text \<open>
  The loop over the candidates, nearest first: the first courier that is available. No courier is
  the empty string, as in the code.
\<close>

fun choose_courier :: "env \<Rightarrow> courier_row list \<Rightarrow> string list \<Rightarrow> go_error + string" where
  "choose_courier e rows [] = Inr []"
| "choose_courier e rows (candidate # cs) =
     (case query_row e (''lock courier '' @ candidate) cr_id candidate rows of
        Inl err \<Rightarrow> (if is_no_rows err then choose_courier e rows cs else Inl err)
      | Inr r \<Rightarrow> (if cr_status r = ''available'' then Inr candidate else choose_courier e rows cs))"

definition insert_delivery ::
  "env \<Rightarrow> dispatcher \<Rightarrow> envelope \<Rightarrow> order_created \<Rightarrow> string \<Rightarrow> string \<Rightarrow> time \<Rightarrow> courier_row list \<Rightarrow>
   delivery_row list \<Rightarrow> go_error + delivery_row list" where
  "insert_delivery e con v payload deliveryID courierID assignedAt couriers rows =
     andthen (as_uuid deliveryID) (\<lambda>i.
     andthen (as_uuid (oc_order payload)) (\<lambda>o_id.
     andthen (as_uuid courierID) (\<lambda>c.
     andthen (int4 (oc_items payload)) (\<lambda>n.
       exec_insert e ''insert delivery'' dr_id
         (\<lambda>d. row_find dr_order (dr_order d) rows = None \<and>
              row_find cr_id (dr_courier d) couriers \<noteq> None \<and> 0 < dr_items d)
         \<lparr>dr_id = i, dr_order = o_id, dr_courier = c, dr_status = ''assigned'',
          dr_pickup_lat = pickup_lat con, dr_pickup_lon = pickup_lon con,
          dr_dest_lat = oc_lat payload, dr_dest_lon = oc_lon payload,
          dr_correlation = CorrelationID v, dr_assigned = pg_time assignedAt, dr_started = None,
          dr_completed = None, dr_items = n, dr_eta = None, dr_model = None, dr_eta_at = None,
          dr_trace = TraceID v, dr_span = SpanID v, dr_delay = 0\<rparr> rows))))"

definition assigned_payload :: "string \<Rightarrow> string \<Rightarrow> string \<Rightarrow> time \<Rightarrow> json" where
  "assigned_payload deliveryID orderID courierID t = JObj
     [(''delivery_id'', JStr deliveryID), (''order_id'', JStr orderID),
      (''courier_id'', JStr courierID), (''assigned_at'', JTime t)]"

definition assign_tx ::
  "dispatcher \<Rightarrow> env \<Rightarrow> ctx \<Rightarrow> envelope \<Rightarrow> order_created \<Rightarrow> string list \<Rightarrow> deliveries \<Rightarrow>
   go_error + unit verdict \<times> deliveries" where
  "assign_tx con e c v payload candidates s =
     andthen (mark_processed e (EventID v) (ds_processed s)) (\<lambda>(inserted, seen).
     if \<not> inserted then Inr (Commit (), s)
     else
       (let s1 = s\<lparr>ds_processed := seen\<rparr>; assignedAt = clock e ''assigned'' in
        andthen (choose_courier e (ds_couriers s1) candidates) (\<lambda>courierID.
        if courierID = [] then Inl (Failed ''all nearby couriers are busy'')
        else
          andthen (NewUUID e ''delivery'') (\<lambda>deliveryID.
          andthen (set_courier e ''assign courier'' courierID ''assigned'' (ds_couriers s1)) (\<lambda>couriers.
          andthen (insert_delivery e con v payload deliveryID courierID assignedAt couriers (ds_deliveries s1)) (\<lambda>dels.
          andthen (emit e c ''delivery.assigned'' (oc_order payload)
                     (assigned_payload deliveryID (oc_order payload) courierID assignedAt) (ds_outbox s1)) (\<lambda>ob.
            Inr (Commit (), s1\<lparr>ds_couriers := couriers, ds_deliveries := dels, ds_outbox := ob\<rparr>))))))))"

text \<open>How a handler answers when its transaction is its last step: \<open>return tx.Commit(ctx)\<close>.\<close>

definition tx_error :: "(go_error + 'a verdict) \<times> 's \<Rightarrow> (go_error + unit) \<times> 's" where
  "tx_error r = (case r of (Inl err, s') \<Rightarrow> (Inl err, s') | (Inr _, s') \<Rightarrow> (Inr (), s'))"

definition assign ::
  "dispatcher \<Rightarrow> env \<Rightarrow> ctx \<Rightarrow> envelope \<Rightarrow> order_created \<Rightarrow> deliveries \<Rightarrow> (go_error + unit) \<times> deliveries" where
  "assign con e c v payload0 s =
     (let payload = (if oc_items payload0 < 1 then payload0\<lparr>oc_items := 1\<rparr> else payload0);
          candidates = geo_search con (ds_geo s) (pickup_lat con) (pickup_lon con) in
      if fails e ''geo search'' then (Inl (Wrapped ''find nearest couriers'' CallFailed), s)
      else if candidates = [] then (Inl (Failed ''no courier locations available''), s)
      else tx_error (with_tx e id id (assign_tx con e c v payload candidates) s))"

section \<open>Cancellation\<close>

definition cancelled_payload :: "string \<Rightarrow> string \<Rightarrow> string \<Rightarrow> time \<Rightarrow> json" where
  "cancelled_payload deliveryID orderID courierID t = JObj
     [(''delivery_id'', JStr deliveryID), (''order_id'', JStr orderID),
      (''courier_id'', JStr courierID), (''cancelled_at'', JTime t)]"

definition cancel_tx ::
  "env \<Rightarrow> ctx \<Rightarrow> envelope \<Rightarrow> deliveries \<Rightarrow> go_error + unit verdict \<times> deliveries" where
  "cancel_tx e c v s =
     andthen (mark_processed e (EventID v) (ds_processed s)) (\<lambda>(inserted, seen).
     if \<not> inserted then Inr (Commit (), s)
     else
       (let s1 = s\<lparr>ds_processed := seen\<rparr>; cancelledAt = clock e ''cancelled'' in
        case query_row e ''find delivery'' dr_order (AggregateID v) (ds_deliveries s1) of
          Inl err \<Rightarrow> (if is_no_rows err then Inr (Commit (), s1) else Inl err)
        | Inr d \<Rightarrow>
            if terminal (dr_status d) then Inr (Commit (), s1)
            else
              andthen (set_delivery e ''cancel delivery'' (dr_id d) (\<lambda>r. r\<lparr>dr_status := ''cancelled''\<rparr>)
                         (ds_deliveries s1)) (\<lambda>dels.
              andthen (set_courier e ''free courier'' (dr_courier d) ''available'' (ds_couriers s1)) (\<lambda>couriers.
              andthen (emit e c ''delivery.cancelled'' (AggregateID v)
                         (cancelled_payload (dr_id d) (AggregateID v) (dr_courier d) cancelledAt)
                         (ds_outbox s1)) (\<lambda>ob.
                Inr (Commit (), s1\<lparr>ds_couriers := couriers, ds_deliveries := dels, ds_outbox := ob\<rparr>))))))"

definition cancel :: "env \<Rightarrow> ctx \<Rightarrow> envelope \<Rightarrow> deliveries \<Rightarrow> (go_error + unit) \<times> deliveries" where
  "cancel e c v s = tx_error (with_tx e id id (cancel_tx e c v) s)"

section \<open>Locations and phases\<close>

text \<open>The lookup in a Go map yields the empty string for a key that is not there.\<close>

definition validDeliveryTransition :: "string \<Rightarrow> string \<Rightarrow> bool" where
  "validDeliveryTransition current target \<longleftrightarrow>
     (if current = ''assigned'' then ''assembling''
      else if current = ''assembling'' then ''delivering''
      else if current = ''delivering'' then ''completed''
      else []) = target"

text \<open>\<open>Time.Sub\<close> saturates at the bounds of a duration.\<close>

definition time_sub :: "time \<Rightarrow> time \<Rightarrow> duration" where
  "time_sub a b = max (- (2 ^ 63)) (min (2 ^ 63 - 1) (a - b))"

text \<open>\<open>EXTRACT(EPOCH FROM d)::integer\<close> rounds to the nearest second, halves away from zero.\<close>

definition epoch_seconds :: "duration \<Rightarrow> int" where
  "epoch_seconds d = sgn d * ((\<bar>d\<bar> + 500000000) div 1000000000)"

definition actual_of :: "time \<Rightarrow> prediction_row \<Rightarrow> go_error + int" where
  "actual_of t p = andthen (int4 (epoch_seconds (t - pr_at p))) (\<lambda>x. Inr (max 0 x))"

definition record_actual ::
  "env \<Rightarrow> string \<Rightarrow> time \<Rightarrow> prediction_row list \<Rightarrow> go_error + prediction_row list" where
  "record_actual e deliveryID now rows =
     andthen (io e ''record actual'') (\<lambda>_.
     andthen (as_uuid deliveryID) (\<lambda>k.
       if list_all (\<lambda>p. pr_delivery p = k \<longrightarrow> is_ok (actual_of (pg_time now) p)) rows
       then Inr (map (\<lambda>p. if pr_delivery p = k
                          then p\<lparr>pr_actual := ok (actual_of (pg_time now) p), pr_completed := Some (pg_time now)\<rparr>
                          else p) rows)
       else Inl CallFailed))"

text \<open>The columns a phase sets, and the courier it frees.\<close>

definition phase_update :: "env \<Rightarrow> location \<Rightarrow> string \<Rightarrow> deliveries \<Rightarrow> go_error + deliveries" where
  "phase_update e p courierID s =
     (let now = pg_time (lp_recorded p) in
      if lp_phase p = ''assembling'' then
        andthen (set_delivery e ''set assembling'' (lp_delivery p) (\<lambda>d. d\<lparr>dr_status := ''assembling''\<rparr>)
                   (ds_deliveries s)) (\<lambda>dels. Inr (s\<lparr>ds_deliveries := dels\<rparr>))
      else if lp_phase p = ''delivering'' then
        andthen (set_delivery e ''set delivering'' (lp_delivery p)
                   (\<lambda>d. d\<lparr>dr_status := ''delivering'',
                          dr_started := (case dr_started d of None \<Rightarrow> Some now | Some t \<Rightarrow> Some t)\<rparr>)
                   (ds_deliveries s)) (\<lambda>dels. Inr (s\<lparr>ds_deliveries := dels\<rparr>))
      else if lp_phase p = ''completed'' then
        andthen (set_delivery e ''set completed'' (lp_delivery p)
                   (\<lambda>d. d\<lparr>dr_status := ''completed'', dr_completed := Some now\<rparr>) (ds_deliveries s)) (\<lambda>dels.
        andthen (set_courier e ''free courier'' courierID ''available'' (ds_couriers s)) (\<lambda>couriers.
          Inr (s\<lparr>ds_deliveries := dels, ds_couriers := couriers\<rparr>)))
      else Inr s)"

text \<open>What a completion adds to its event: the actual time, and the forecast when there is one.\<close>

definition completion ::
  "env \<Rightarrow> string \<Rightarrow> time \<Rightarrow> time \<Rightarrow> prediction_row list \<Rightarrow> go_error + fields \<times> prediction_row list" where
  "completion e deliveryID assignedAt now rows =
     (let actualETA = whole_seconds (time_sub now assignedAt);
          base = [(''assigned_at'', JTime assignedAt), (''completed_at'', JTime now),
                  (''actual_eta_seconds'', JInt actualETA)] in
      andthen (record_actual e deliveryID now rows) (\<lambda>rows'.
      andthen (io e ''find prediction'') (\<lambda>_.
      andthen (as_uuid deliveryID) (\<lambda>k.
        (case row_find (\<lambda>p. (pr_delivery p, pr_stage p)) (k, ''confirmed'') rows' of
           None \<Rightarrow> Inr (base, rows')
         | Some p \<Rightarrow>
             Inr (base @ [(''predicted_eta_seconds'', JInt (pr_predicted p)),
                          (''eta_model_version'', JStr (pr_model p)),
                          (''on_time'', JBool (actualETA \<le> pr_predicted p))], rows'))))))"

definition applyPhase :: "dispatcher \<Rightarrow> env \<Rightarrow> location \<Rightarrow> deliveries \<Rightarrow> go_error + deliveries" where
  "applyPhase con e p s =
     (case query_row e ''find phase delivery'' dr_id (lp_delivery p) (ds_deliveries s) of
        Inl err \<Rightarrow> (if is_no_rows err then Inr s else Inl err)
      | Inr d \<Rightarrow>
          (let target = lp_phase p; now = lp_recorded p;
               c = \<lparr>ctx_correlation = dr_correlation d, ctx_span = span_of con (''delivery.phase.'' @ target)\<rparr>;
               base = [(''delivery_id'', JStr (lp_delivery p)), (''order_id'', JStr (dr_order d)),
                       (''courier_id'', JStr (dr_courier d)), (''status'', JStr target),
                       (''changed_at'', JTime now)] in
           if dr_courier d \<noteq> lp_courier p then Inl (Failed ''delivery courier mismatch'')
           else if target = ''available'' \<or> target = dr_status d then Inr s
           else if \<not> validDeliveryTransition (dr_status d) target
           then Inl (Failed (''invalid delivery transition '' @ dr_status d @ '' -> '' @ target))
           else
             andthen (phase_update e p (dr_courier d) s) (\<lambda>s1.
             if target = ''completed'' then
               andthen (completion e (lp_delivery p) (dr_assigned d) now (ds_predictions s1)) (\<lambda>(extra, preds).
               andthen (emit e c ''delivery.completed'' (dr_order d) (JObj (base @ extra)) (ds_outbox s1)) (\<lambda>ob.
                 Inr (s1\<lparr>ds_predictions := preds, ds_outbox := ob\<rparr>)))
             else
               andthen (emit e c ''delivery.status_changed'' (dr_order d) (JObj base) (ds_outbox s1)) (\<lambda>ob.
                 Inr (s1\<lparr>ds_outbox := ob\<rparr>)))))"

text \<open>
  The update of a courier's position: only a later sequence number moves it. The flag says
  whether a row was affected.
\<close>

definition move_courier :: "env \<Rightarrow> location \<Rightarrow> courier_row list \<Rightarrow> go_error + bool \<times> courier_row list" where
  "move_courier e p rows =
     andthen (io e ''update location'') (\<lambda>_.
     andthen (as_uuid (lp_courier p)) (\<lambda>k.
       (case row_find cr_id k rows of
          None \<Rightarrow> Inr (False, rows)
        | Some r \<Rightarrow>
            if cr_sequence r < lp_sequence p
            then Inr (True, row_update cr_id k
                   (\<lambda>r. r\<lparr>cr_lat := lp_lat p, cr_lon := lp_lon p, cr_sequence := lp_sequence p,
                          cr_seen := pg_time (lp_recorded p)\<rparr>) rows)
            else Inr (False, rows))))"

definition location_tx ::
  "dispatcher \<Rightarrow> env \<Rightarrow> envelope \<Rightarrow> location \<Rightarrow> deliveries \<Rightarrow> go_error + bool verdict \<times> deliveries" where
  "location_tx con e v p s =
     andthen (mark_processed e (EventID v) (ds_processed s)) (\<lambda>(inserted, seen).
     if \<not> inserted then Inr (Commit False, s)
     else
       (let s1 = s\<lparr>ds_processed := seen\<rparr> in
        andthen (move_courier e p (ds_couriers s1)) (\<lambda>(affected, couriers).
        if \<not> affected then Inr (Commit False, s1)
        else
          (let s2 = s1\<lparr>ds_couriers := couriers\<rparr> in
           andthen (if lp_delivery p = [] then Inr s2 else applyPhase con e p s2) (\<lambda>s3.
             Inr (Commit True, s3))))))"

definition geo_add :: "string \<Rightarrow> real \<Rightarrow> real \<Rightarrow> geo_index \<Rightarrow> geo_index" where
  "geo_add name lat lon g = filter (\<lambda>x. fst x \<noteq> name) g @ [(name, lat, lon)]"

definition updateLocation ::
  "dispatcher \<Rightarrow> env \<Rightarrow> envelope \<Rightarrow> location \<Rightarrow> deliveries \<Rightarrow> (go_error + unit) \<times> deliveries" where
  "updateLocation con e v p s =
     (case with_tx e id id (location_tx con e v p) s of
        (Inl err, s') \<Rightarrow> (Inl err, s')
      | (Inr (Commit True), s') \<Rightarrow>
          (Inr (), if fails e ''geo add'' then s'
                   else s'\<lparr>ds_geo := geo_add (lp_courier p) (lp_lat p) (lp_lon p) (ds_geo s')\<rparr>)
      | (Inr _, s') \<Rightarrow> (Inr (), s'))"

section \<open>The consumer\<close>

definition handle_event ::
  "dispatcher \<Rightarrow> env \<Rightarrow> json option \<Rightarrow> deliveries \<Rightarrow> (go_error + unit) \<times> deliveries" where
  "handle_event con e value s =
     (case wrap ''decode event envelope'' (Unmarshal value) of
        Inl err \<Rightarrow> (Inl err, s)
      | Inr v \<Rightarrow>
          (let c = consumer_ctx (span_of con (EventType v)) v in
           if EventType v = ''order.created'' then
             (case decode_order_created (Payload v) of
                Inl err \<Rightarrow> (Inl err, s)
              | Inr payload \<Rightarrow> assign con e c v payload s)
           else if EventType v = ''order.cancelled'' then cancel e c v s
           else if EventType v = ''courier.location_updated'' then
             (case decode_location (Payload v) of
                Inl err \<Rightarrow> (Inl err, s)
              | Inr payload \<Rightarrow> updateLocation con e v payload s)
           else (Inr (), s)))"

end
