(* ===== verification/DeliveryHttp.thy ===== *)
theory DeliveryHttp
  imports Delivery
begin

text \<open>
  The HTTP side of the delivery service (handler.go): the delivery of an order and its stream, the
  active assignments the simulator follows, and the operators' view and actions.
\<close>

section \<open>Data\<close>

record delivery =
  dl_row :: delivery_row
  dl_courier :: courier_row

text \<open>A pointer field of \<open>Delivery\<close>, left out of the JSON when it is \<open>nil\<close>.\<close>

definition omit_none :: "string \<Rightarrow> ('a \<Rightarrow> json) \<Rightarrow> 'a option \<Rightarrow> fields" where
  "omit_none name enc x = (case x of None \<Rightarrow> [] | Some y \<Rightarrow> [(name, enc y)])"

definition delivery_fields :: "delivery \<Rightarrow> fields" where
  "delivery_fields v =
     (let d = dl_row v; c = dl_courier v in
      [(''id'', JStr (dr_id d)), (''order_id'', JStr (dr_order d)), (''courier_id'', JStr (dr_courier d)),
       (''courier_name'', JStr (cr_name c)), (''status'', JStr (dr_status d)),
       (''pickup_latitude'', JFloat (dr_pickup_lat d)), (''pickup_longitude'', JFloat (dr_pickup_lon d)),
       (''destination_latitude'', JFloat (dr_dest_lat d)), (''destination_longitude'', JFloat (dr_dest_lon d)),
       (''assigned_at'', JTime (dr_assigned d))] @
      omit_none ''started_at'' JTime (dr_started d) @ omit_none ''completed_at'' JTime (dr_completed d) @
      [(''courier_latitude'', JFloat (cr_lat c)), (''courier_longitude'', JFloat (cr_lon c))] @
      omit_none ''predicted_eta_seconds'' JInt (dr_eta d) @ omit_none ''eta_model_version'' JStr (dr_model d) @
      omit_none ''eta_updated_at'' JTime (dr_eta_at d) @ [(''simulation_delay_seconds'', JInt (dr_delay d))])"

definition json_delivery :: "delivery \<Rightarrow> json" where
  "json_delivery v = JObj (delivery_fields v)"

definition json_assignment :: "delivery \<Rightarrow> json" where
  "json_assignment v = JObj (delivery_fields v @ [(''correlation_id'', JStr (dr_correlation (dl_row v)))])"

text \<open>A row of the operators' list: a courier, and an active delivery of theirs if there is one.\<close>

definition json_courier :: "courier_row \<times> delivery_row option \<Rightarrow> json" where
  "json_courier cd =
     (case cd of (c, od) \<Rightarrow> JObj
       ([(''id'', JStr (cr_id c)), (''name'', JStr (cr_name c)), (''status'', JStr (cr_status c)),
         (''latitude'', JFloat (cr_lat c)), (''longitude'', JFloat (cr_lon c)),
         (''last_seen_at'', JTime (cr_seen c))] @
        omit_none ''active_delivery_id'' JStr (map_option dr_id od) @
        omit_none ''active_order_id'' JStr (map_option dr_order od) @
        omit_none ''delivery_status'' JStr (map_option dr_status od)))"

section \<open>Queries\<close>

text \<open>The join with the couriers: a delivery whose courier is missing has no row.\<close>

definition with_courier :: "courier_row list \<Rightarrow> delivery_row \<Rightarrow> delivery option" where
  "with_courier couriers d =
     map_option (\<lambda>c. \<lparr>dl_row = d, dl_courier = c\<rparr>) (row_find cr_id (dr_courier d) couriers)"

definition read_delivery :: "env \<Rightarrow> (delivery_row \<Rightarrow> string) \<Rightarrow> string \<Rightarrow> deliveries \<Rightarrow> go_error + delivery" where
  "read_delivery e key arg s =
     andthen (query_row e ''query delivery'' key arg (ds_deliveries s)) (\<lambda>d.
       (case with_courier (ds_couriers s) d of None \<Rightarrow> Inl NoRows | Some v \<Rightarrow> Inr v))"

definition deliveryByOrder :: "env \<Rightarrow> string \<Rightarrow> deliveries \<Rightarrow> go_error + delivery" where
  "deliveryByOrder e orderID s = read_delivery e dr_order orderID s"

definition deliveryByID :: "env \<Rightarrow> string \<Rightarrow> deliveries \<Rightarrow> go_error + delivery" where
  "deliveryByID e deliveryID s = read_delivery e dr_id deliveryID s"

definition active :: "delivery_row list \<Rightarrow> delivery_row list" where
  "active rows = filter (\<lambda>d. \<not> terminal (dr_status d)) rows"

text \<open>The couriers by name in the order of the database's collation (\<open>collate\<close> gives its sort keys).\<close>

definition courier_list :: "(string \<Rightarrow> string) \<Rightarrow> deliveries \<Rightarrow> (courier_row \<times> delivery_row option) list" where
  "courier_list collate s =
     concat (map (\<lambda>c. case filter (\<lambda>d. dr_courier d = cr_id c) (active (ds_deliveries s)) of
                       [] \<Rightarrow> [(c, None)]
                     | ds \<Rightarrow> map (\<lambda>d. (c, Some d)) ds)
       (sort_key (\<lambda>c. collate (cr_name c)) (ds_couriers s)))"

definition assignment_list :: "deliveries \<Rightarrow> delivery list" where
  "assignment_list s =
     List.map_filter (with_courier (ds_couriers s)) (sort_key dr_assigned (active (ds_deliveries s)))"

text \<open>A listing: the query, every row's \<open>Scan\<close> and \<open>rows.Err\<close> may fail.\<close>

definition listing :: "env \<Rightarrow> ctx \<Rightarrow> string \<Rightarrow> json list \<Rightarrow> reply" where
  "listing e c name rows =
     (if fails e (''query '' @ name) \<or> (rows \<noteq> [] \<and> fails e (''scan '' @ name)) \<or> fails e (''rows '' @ name)
      then WriteError (ctx_correlation c) None
      else WriteJSON 200 (JObj [(name, JArr rows)]))"

definition couriers :: "(string \<Rightarrow> string) \<Rightarrow> env \<Rightarrow> ctx \<Rightarrow> deliveries \<Rightarrow> reply" where
  "couriers collate e c s = listing e c ''couriers'' (map json_courier (courier_list collate s))"

definition assignments :: "env \<Rightarrow> ctx \<Rightarrow> deliveries \<Rightarrow> reply" where
  "assignments e c s = listing e c ''assignments'' (map json_assignment (assignment_list s))"

definition invalid_order :: api_error where
  "invalid_order = Error 400 ''invalid_order_id'' ''order_id must be a UUID'' None"

definition not_found :: api_error where
  "not_found = Error 404 ''delivery_not_found'' ''delivery was not found'' None"

definition getByOrder :: "env \<Rightarrow> ctx \<Rightarrow> string \<Rightarrow> deliveries \<Rightarrow> reply" where
  "getByOrder e c orderID s =
     (if \<not> IsUUID orderID then WriteError (ctx_correlation c) (Some invalid_order)
      else case deliveryByOrder e orderID s of
        Inl err \<Rightarrow> WriteError (ctx_correlation c) (if is_no_rows err then Some not_found else None)
      | Inr v \<Rightarrow> WriteJSON 200 (json_delivery v))"

section \<open>The stream of a delivery\<close>

text \<open>
  What is written: a pending event until there is a delivery, then a snapshot of it each second.
  Every poll reads the state of its moment; the list ends when the client goes away.
\<close>

datatype stream_item = PendingEvent | DeliveryEvent delivery
datatype stream_end = ClientGone | Ended | Refusal api_error

fun stream_loop :: "string \<Rightarrow> (env \<times> deliveries) list \<Rightarrow> stream_item list \<times> stream_end" where
  "stream_loop orderID [] = ([], ClientGone)"
| "stream_loop orderID ((e, s) # polls) =
     (case deliveryByOrder e orderID s of
        Inl err \<Rightarrow>
          (if \<not> is_no_rows err then ([], Ended)
           else if fails e ''flush'' then ([PendingEvent], Ended)
           else (case stream_loop orderID polls of (rest, how) \<Rightarrow> (PendingEvent # rest, how)))
      | Inr v \<Rightarrow>
          (if fails e ''marshal delivery'' then ([], Ended)
           else if fails e ''flush'' \<or> terminal (dr_status (dl_row v)) then ([DeliveryEvent v], Ended)
           else (case stream_loop orderID polls of (rest, how) \<Rightarrow> (DeliveryEvent v # rest, how))))"

definition streamByOrder :: "string \<Rightarrow> (env \<times> deliveries) list \<Rightarrow> stream_item list \<times> stream_end" where
  "streamByOrder orderID polls =
     (if \<not> IsUUID orderID then ([], Refusal invalid_order) else stream_loop orderID polls)"

section \<open>Operators' actions\<close>

definition decode_action :: "json \<Rightarrow> go_error + string" where
  "decode_action v = andthen (strict_fields [''action''] v) (field to_string ''action'' [])"

definition errTerminalDelivery :: go_error where
  "errTerminalDelivery = Failed ''terminal delivery''"

definition delay_row :: "time \<Rightarrow> delivery_row \<Rightarrow> delivery_row" where
  "delay_row t d = d\<lparr>dr_delay := min 600 (dr_delay d + 10), dr_eta := map_option (\<lambda>x. x + 10) (dr_eta d),
                     dr_eta_at := Some (pg_time t)\<rparr>"

definition delay_row_ok :: "delivery_row \<Rightarrow> bool" where
  "delay_row_ok d = (case dr_eta d of None \<Rightarrow> True | Some x \<Rightarrow> 0 < x \<and> x < 2 ^ 31)"

definition delay_tx :: "env \<Rightarrow> ctx \<Rightarrow> string \<Rightarrow> deliveries \<Rightarrow> go_error + unit verdict \<times> deliveries" where
  "delay_tx e c deliveryID s =
     andthen (query_row e ''find delivery'' dr_id deliveryID (ds_deliveries s)) (\<lambda>d.
     if terminal (dr_status d) then Inl errTerminalDelivery
     else
       andthen (exec_update e ''delay delivery'' dr_id deliveryID delay_row_ok
                  (delay_row (clock e ''now'')) (ds_deliveries s)) (\<lambda>dels.
       andthen (emit e c ''delivery.delay_injected'' (dr_order d)
                  (JObj [(''delivery_id'', JStr deliveryID), (''order_id'', JStr (dr_order d)),
                         (''delay_seconds'', JInt 10), (''changed_at'', JTime (clock e ''changed''))])
                  (ds_outbox s)) (\<lambda>ob.
         Inr (Commit (), s\<lparr>ds_deliveries := dels, ds_outbox := ob\<rparr>))))"

definition delay :: "env \<Rightarrow> ctx \<Rightarrow> string \<Rightarrow> deliveries \<Rightarrow> (go_error + unit) \<times> deliveries" where
  "delay e c deliveryID s = tx_error (with_tx e id id (delay_tx e c deliveryID) s)"

definition complete_tx :: "env \<Rightarrow> ctx \<Rightarrow> string \<Rightarrow> deliveries \<Rightarrow> go_error + unit verdict \<times> deliveries" where
  "complete_tx e c deliveryID s =
     andthen (query_row e ''find delivery'' dr_id deliveryID (ds_deliveries s)) (\<lambda>d.
     if terminal (dr_status d) then Inl errTerminalDelivery
     else
       (let now = clock e ''now''; actualETA = whole_seconds (time_sub now (dr_assigned d)) in
        andthen (set_delivery e ''complete delivery'' deliveryID
                   (\<lambda>r. r\<lparr>dr_status := ''completed'', dr_completed := Some (pg_time now)\<rparr>) (ds_deliveries s)) (\<lambda>dels.
        andthen (set_courier e ''free courier'' (dr_courier d) ''available'' (ds_couriers s)) (\<lambda>crs.
        andthen (record_actual e deliveryID now (ds_predictions s)) (\<lambda>preds.
        andthen (emit e (c\<lparr>ctx_correlation := dr_correlation d\<rparr>) ''delivery.completed'' (dr_order d)
                   (JObj [(''delivery_id'', JStr deliveryID), (''order_id'', JStr (dr_order d)),
                          (''courier_id'', JStr (dr_courier d)), (''assigned_at'', JTime (dr_assigned d)),
                          (''completed_at'', JTime now), (''actual_eta_seconds'', JInt actualETA),
                          (''completed_by'', JStr ''operator'')]) (ds_outbox s)) (\<lambda>ob.
          Inr (Commit (), s\<lparr>ds_deliveries := dels, ds_couriers := crs, ds_predictions := preds,
                            ds_outbox := ob\<rparr>)))))))"

definition complete :: "env \<Rightarrow> ctx \<Rightarrow> string \<Rightarrow> deliveries \<Rightarrow> (go_error + unit) \<times> deliveries" where
  "complete e c deliveryID s = tx_error (with_tx e id id (complete_tx e c deliveryID) s)"

definition action_reply :: "env \<Rightarrow> ctx \<Rightarrow> string \<Rightarrow> (go_error + unit) \<times> deliveries \<Rightarrow> reply \<times> deliveries" where
  "action_reply e c deliveryID r =
     (case r of
        (Inl err, s') \<Rightarrow>
          (WriteError (ctx_correlation c)
             (if is_no_rows err then Some not_found
              else if err = errTerminalDelivery
              then Some (Error 409 ''delivery_not_actionable'' ''delivery is already terminal'' None)
              else None), s')
      | (Inr _, s') \<Rightarrow>
          (case deliveryByID e deliveryID s' of
             Inl _ \<Rightarrow> (WriteError (ctx_correlation c) None, s')
           | Inr v \<Rightarrow> (WriteJSON 200 (json_delivery v), s')))"

definition action :: "env \<Rightarrow> ctx \<Rightarrow> string \<Rightarrow> http_body \<Rightarrow> deliveries \<Rightarrow> reply \<times> deliveries" where
  "action e c deliveryID body s =
     (if \<not> IsUUID deliveryID
      then (WriteError (ctx_correlation c)
        (Some (Error 400 ''invalid_delivery_id'' ''delivery_id must be a UUID'' None)), s)
      else case DecodeJSON decode_action body of
        Inl a \<Rightarrow> (WriteError (ctx_correlation c) (Some a), s)
      | Inr act \<Rightarrow>
          if act = ''delay'' then action_reply e c deliveryID (delay e c deliveryID s)
          else if act = ''complete'' then action_reply e c deliveryID (complete e c deliveryID s)
          else (WriteError (ctx_correlation c)
            (Some (Error 400 ''invalid_operation_action'' ''action must be delay or complete'' None)), s))"

end
