(* ===== verification/Eta.thy ===== *)
theory Eta
  imports DeliveryHttp
begin

text \<open>
  Forecasts of delivery times (services/delivery-service/internal/delivery/eta.go): the client of
  the ETA service, whose answer is a parameter, and the worker that predicts each stage of each
  active delivery once. \<open>float64\<close> arithmetic is read as real arithmetic.
\<close>

record eta_features =
  ef_distance :: real
  ef_items :: int
  ef_stage :: string
  ef_load :: real
  ef_couriers :: int

record eta_prediction =
  ep_seconds :: int
  ep_model :: string
  ep_computed :: time

definition json_features :: "eta_features \<Rightarrow> json" where
  "json_features f = JObj
     [(''distance_km'', JFloat (ef_distance f)), (''item_count'', JInt (ef_items f)),
      (''stage'', JStr (ef_stage f)), (''district_load'', JFloat (ef_load f)),
      (''available_couriers'', JInt (ef_couriers f))]"

definition decode_prediction :: "json option \<Rightarrow> go_error + eta_prediction" where
  "decode_prediction bytes =
     andthen (struct_fields bytes) (\<lambda>kvs.
     andthen (field to_int ''predicted_eta_seconds'' 0 kvs) (\<lambda>n.
     andthen (field to_string ''model_version'' [] kvs) (\<lambda>m.
     andthen (field to_time ''computed_at'' zero_time kvs) (\<lambda>t.
       Inr \<lparr>ep_seconds = n, ep_model = m, ep_computed = t\<rparr>))))"

text \<open>
  \<open>Predict\<close>: \<open>post\<close> answers the request with a status and a body, or not at all.
\<close>

type_synonym eta_service = "json \<Rightarrow> (int \<times> json option) option"

definition Predict :: "env \<Rightarrow> eta_service \<Rightarrow> eta_features \<Rightarrow> go_error + eta_prediction" where
  "Predict e post features =
     andthen (io e ''marshal features'') (\<lambda>_.
     andthen (io e ''new request'') (\<lambda>_.
       (case post (json_features features) of
          None \<Rightarrow> Inl (Wrapped ''call ETA service'' CallFailed)
        | Some (status, body) \<Rightarrow>
            if status \<noteq> 200 then Inl (Failed ''ETA service status'')
            else andthen (wrap ''decode ETA response'' (decode_prediction body)) (\<lambda>p.
              if ep_seconds p \<le> 0 \<or> ep_model p = []
              then Inl (Failed ''ETA service returned an invalid prediction'')
              else Inr p))))"

definition Ready :: "env \<Rightarrow> int option \<Rightarrow> go_error + unit" where
  "Ready e status =
     andthen (io e ''new request'') (\<lambda>_.
       (case status of
          None \<Rightarrow> Inl CallFailed
        | Some st \<Rightarrow> if st \<noteq> 200 then Inl (Failed ''ETA readiness status'') else Inr ()))"

section \<open>Distance\<close>

text \<open>\<open>math.Atan2 y x\<close> is the argument of the complex number \<open>x + iy\<close>.\<close>

definition haversine_a :: "real \<Rightarrow> real \<Rightarrow> real \<Rightarrow> real \<Rightarrow> real" where
  "haversine_a lat1 lon1 lat2 lon2 =
     (let r = pi / 180; dLat = (lat2 - lat1) * r; dLon = (lon2 - lon1) * r in
      sin (dLat / 2) * sin (dLat / 2) + cos (lat1 * r) * cos (lat2 * r) * sin (dLon / 2) * sin (dLon / 2))"

definition haversineKM :: "real \<Rightarrow> real \<Rightarrow> real \<Rightarrow> real \<Rightarrow> real" where
  "haversineKM lat1 lon1 lat2 lon2 =
     (let a = haversine_a lat1 lon1 lat2 lon2 in 6371 * 2 * Arg (Complex (sqrt (1 - a)) (sqrt a)))"

section \<open>The worker\<close>

record prediction_job =
  pj_delivery :: string
  pj_order :: string
  pj_stage :: string
  pj_row :: delivery_row
  pj_courier :: courier_row

definition stage_of :: "string \<Rightarrow> string" where
  "stage_of status = (if status = ''assigned'' then ''confirmed'' else status)"

definition job_of :: "delivery \<Rightarrow> prediction_job" where
  "job_of v = \<lparr>pj_delivery = dr_id (dl_row v), pj_order = dr_order (dl_row v),
     pj_stage = stage_of (dr_status (dl_row v)), pj_row = dl_row v, pj_courier = dl_courier v\<rparr>"

abbreviation stage_key :: "prediction_row \<Rightarrow> string \<times> string" where
  "stage_key p \<equiv> (pr_delivery p, pr_stage p)"

text \<open>The oldest 50 active deliveries without a forecast for their stage.\<close>

definition missing_jobs :: "deliveries \<Rightarrow> prediction_job list" where
  "missing_jobs s =
     take 50 (map job_of (List.map_filter (with_courier (ds_couriers s))
       (sort_key dr_assigned
         (filter (\<lambda>d. row_find stage_key (dr_id d, stage_of (dr_status d)) (ds_predictions s) = None)
           (active (ds_deliveries s))))))"

definition district_load :: "deliveries \<Rightarrow> real" where
  "district_load s = min 3 (1 + real (length (active (ds_deliveries s))) * 0.1)"

definition available_couriers :: "deliveries \<Rightarrow> int" where
  "available_couriers s = int (length (filter (\<lambda>c. cr_status c = ''available'') (ds_couriers s)))"

definition job_distance :: "prediction_job \<Rightarrow> real" where
  "job_distance j =
     (let d = pj_row j; c = pj_courier j in
      if pj_stage j \<noteq> ''delivering''
      then haversineKM (cr_lat c) (cr_lon c) (dr_pickup_lat d) (dr_pickup_lon d) +
           haversineKM (dr_pickup_lat d) (dr_pickup_lon d) (dr_dest_lat d) (dr_dest_lon d)
      else haversineKM (cr_lat c) (cr_lon c) (dr_dest_lat d) (dr_dest_lon d))"

definition features_of :: "real \<Rightarrow> int \<Rightarrow> prediction_job \<Rightarrow> eta_features" where
  "features_of ld avail j =
     \<lparr>ef_distance = job_distance j, ef_items = dr_items (pj_row j), ef_stage = pj_stage j,
      ef_load = ld, ef_couriers = avail\<rparr>"

definition prediction_stages :: "string list" where
  "prediction_stages = [''created'', ''confirmed'', ''assembling'', ''delivering'']"

definition prediction_ok :: "prediction_row \<Rightarrow> bool" where
  "prediction_ok p \<longleftrightarrow> pr_stage p \<in> set prediction_stages \<and> 0 \<le> pr_distance p \<and> 0 < pr_items p \<and>
     0.5 \<le> pr_load p \<and> pr_load p \<le> 3 \<and> 0 \<le> pr_couriers p \<and> 0 < pr_predicted p"

text \<open>
  The \<open>INSERT ... SELECT\<close>: no row when the delivery is gone or has a forecast for the stage.
\<close>

definition forecast_row ::
  "string \<Rightarrow> string \<Rightarrow> prediction_job \<Rightarrow> eta_features \<Rightarrow> eta_prediction \<Rightarrow> delivery_row \<Rightarrow> go_error + prediction_row" where
  "forecast_row i o_id j f p d =
     andthen (int4 (ef_items f)) (\<lambda>n.
     andthen (int4 (ef_couriers f)) (\<lambda>avail.
     andthen (int4 (ep_seconds p)) (\<lambda>secs.
     andthen (case dr_completed d of
                None \<Rightarrow> Inr None
              | Some t \<Rightarrow> andthen (int4 (epoch_seconds (t - pg_time (ep_computed p))))
                            (\<lambda>x. Inr (Some (max 0 x)))) (\<lambda>act.
       Inr \<lparr>pr_id = i, pr_delivery = dr_id d, pr_order = o_id, pr_stage = pj_stage j,
            pr_distance = ef_distance f, pr_items = n, pr_load = ef_load f,
            pr_couriers = avail, pr_predicted = secs, pr_actual = act,
            pr_model = ep_model p, pr_at = pg_time (ep_computed p),
            pr_completed = dr_completed d\<rparr>))))"

definition insert_prediction ::
  "env \<Rightarrow> string \<Rightarrow> prediction_job \<Rightarrow> eta_features \<Rightarrow> eta_prediction \<Rightarrow> deliveries \<Rightarrow>
   go_error + bool \<times> prediction_row list" where
  "insert_prediction e predictionID j f p s =
     andthen (io e ''insert prediction'') (\<lambda>_.
     andthen (as_uuid predictionID) (\<lambda>i.
     andthen (as_uuid (pj_delivery j)) (\<lambda>k.
     andthen (as_uuid (pj_order j)) (\<lambda>o_id.
       (case row_find dr_id k (ds_deliveries s) of
          None \<Rightarrow> Inr (False, ds_predictions s)
        | Some d \<Rightarrow>
            andthen (forecast_row i o_id j f p d) (\<lambda>row.
              if \<not> prediction_ok row then Inl CallFailed
              else if row_find stage_key (stage_key row) (ds_predictions s) \<noteq> None
              then Inr (False, ds_predictions s)
              else andthen (row_insert pr_id row (ds_predictions s)) (\<lambda>rows. Inr (True, rows))))))))"

definition save_tx ::
  "env \<Rightarrow> string \<Rightarrow> prediction_job \<Rightarrow> eta_features \<Rightarrow> eta_prediction \<Rightarrow> deliveries \<Rightarrow>
   go_error + unit verdict \<times> deliveries" where
  "save_tx e predictionID j f p s =
     andthen (insert_prediction e predictionID j f p s) (\<lambda>(inserted, preds).
     (let s1 = s\<lparr>ds_predictions := preds\<rparr> in
      if inserted then
        andthen (exec_update e ''update forecast'' dr_id (pj_delivery j)
                   (\<lambda>d. case dr_eta d of None \<Rightarrow> True | Some x \<Rightarrow> 0 < x)
                   (\<lambda>d. d\<lparr>dr_eta := Some (ep_seconds p), dr_model := Some (ep_model p),
                          dr_eta_at := Some (pg_time (ep_computed p))\<rparr>) (ds_deliveries s1)) (\<lambda>dels.
          Inr (Commit (), s1\<lparr>ds_deliveries := dels\<rparr>))
      else Inr (Commit (), s1)))"

definition save ::
  "env \<Rightarrow> prediction_job \<Rightarrow> eta_features \<Rightarrow> eta_prediction \<Rightarrow> deliveries \<Rightarrow> (go_error + unit) \<times> deliveries" where
  "save e j f p0 s =
     (case NewUUID e ''prediction'' of
        Inl err \<Rightarrow> (Inl err, s)
      | Inr predictionID \<Rightarrow>
          (let p = (if ep_computed p0 = zero_time then p0\<lparr>ep_computed := clock e ''computed''\<rparr> else p0) in
           tx_error (with_tx e id id (save_tx e predictionID j f p) s)))"

text \<open>
  The loop over the jobs: a failed forecast is skipped, a failed save ends the round. Each job
  meets surroundings and an answer of its own.
\<close>

fun predict_jobs ::
  "(prediction_job \<Rightarrow> env) \<Rightarrow> (prediction_job \<Rightarrow> eta_service) \<Rightarrow> real \<Rightarrow> int \<Rightarrow> prediction_job list \<Rightarrow>
   deliveries \<Rightarrow> (go_error + unit) \<times> deliveries" where
  "predict_jobs es post ld avail [] s = (Inr (), s)"
| "predict_jobs es post ld avail (j # js) s =
     (let f = features_of ld avail j in
      case Predict (es j) (post j) f of
        Inl _ \<Rightarrow> predict_jobs es post ld avail js s
      | Inr p \<Rightarrow>
          (case save (es j) j f p s of
             (Inl err, s') \<Rightarrow> (Inl err, s')
           | (Inr _, s') \<Rightarrow> predict_jobs es post ld avail js s'))"

definition predictMissing ::
  "env \<Rightarrow> (prediction_job \<Rightarrow> env) \<Rightarrow> (prediction_job \<Rightarrow> eta_service) \<Rightarrow> deliveries \<Rightarrow>
   (go_error + unit) \<times> deliveries" where
  "predictMissing e es post s =
     (if fails e ''query jobs'' \<or> (missing_jobs s \<noteq> [] \<and> fails e ''scan job'') \<or> fails e ''job rows''
      then (Inl CallFailed, s)
      else if missing_jobs s = [] then (Inr (), s)
      else if fails e ''count deliveries'' \<or> fails e ''count couriers'' then (Inl CallFailed, s)
      else predict_jobs es post (district_load s) (available_couriers s) (missing_jobs s) s)"

end
