(* ===== verification/DeliverySteps.thy ===== *)
theory DeliverySteps
  imports Eta
begin

text \<open>
  The fleet as the delivery service sees it: couriers that are free or out on exactly one
  delivery. The abstract steps are what a transaction may do to the tables of couriers and
  deliveries; the invariant \<open>fleet_ok\<close> ties the status of a courier to the active deliveries.
\<close>

section \<open>Steps\<close>

text \<open>What never changes about a delivery.\<close>

definition trip_data :: "delivery_row \<Rightarrow> delivery_row" where
  "trip_data d = d\<lparr>dr_status := [], dr_started := None, dr_completed := None, dr_eta := None,
                   dr_model := None, dr_eta_at := None, dr_delay := 0\<rparr>"

lemma trip_dataD:
  assumes "trip_data a = trip_data b"
  shows "dr_id a = dr_id b" "dr_order a = dr_order b" "dr_courier a = dr_courier b"
  using assms by (cases a; cases b; simp add: trip_data_def)+

text \<open>The ids of a stored row are in the form in which the database renders them.\<close>

definition keyed :: "delivery_row \<Rightarrow> bool" where
  "keyed d \<longleftrightarrow> uuid_key (dr_id d) = Some (dr_id d) \<and> uuid_key (dr_order d) = Some (dr_order d) \<and>
     uuid_key (dr_courier d) = Some (dr_courier d)"

text \<open>The order of the statuses: a delivery goes one phase on, or ends.\<close>

inductive phase_next :: "string \<Rightarrow> string \<Rightarrow> bool" where
  assemble: "phase_next ''assigned'' ''assembling''"
| deliver: "phase_next ''assembling'' ''delivering''"

inductive_cases phase_next_cases: "phase_next a b"

lemma phase_next_iff:
  "phase_next a b \<longleftrightarrow> a = ''assigned'' \<and> b = ''assembling'' \<or> a = ''assembling'' \<and> b = ''delivering''"
  by (auto elim: phase_next_cases intro: phase_next.intros)

lemma phase_next_open: "phase_next a b \<Longrightarrow> \<not> terminal a \<and> \<not> terminal b \<and> b \<in> set delivery_statuses"
  by (auto elim: phase_next_cases simp: terminal_def delivery_statuses_def)

abbreviation "busy \<equiv> cr_status_update (\<lambda>_. ''assigned'')"
abbreviation "free \<equiv> cr_status_update (\<lambda>_. ''available'')"

text \<open>How far a delivery has come at least, and what a row of the outbox says about its delivery.\<close>

definition reached :: "string \<Rightarrow> string \<Rightarrow> bool" where
  "reached status goal \<longleftrightarrow>
     (goal = ''assembling'' \<longrightarrow> status \<in> {''assembling'', ''delivering'', ''completed'', ''cancelled''}) \<and>
     (goal = ''delivering'' \<longrightarrow> status \<in> {''delivering'', ''completed'', ''cancelled''}) \<and>
     (goal = ''completed'' \<longrightarrow> status = ''completed'')"

lemma reached_onward: "reached a g \<Longrightarrow> phase_next a b \<Longrightarrow> reached b g"
proof -
  assume r: "reached a g" and "phase_next a b"
  from this(2) show ?thesis
  proof cases
    case assemble
    then have "g \<noteq> ''assembling'' \<and> g \<noteq> ''delivering'' \<and> g \<noteq> ''completed''"
      using r by (auto simp: reached_def)
    then show ?thesis by (simp add: reached_def)
  next
    case deliver
    then have "g \<noteq> ''delivering'' \<and> g \<noteq> ''completed''" using r by (auto simp: reached_def)
    then show ?thesis using deliver(2) by (simp add: reached_def)
  qed
qed

lemma reached_end: "reached a g \<Longrightarrow> \<not> terminal a \<Longrightarrow> terminal b \<Longrightarrow> reached b g"
proof -
  assume a: "reached a g" "\<not> terminal a" "terminal b"
  then have "g \<noteq> ''completed''" unfolding reached_def terminal_def by blast
  then show ?thesis using a(3) unfolding reached_def terminal_def by blast
qed

definition event_status :: "json \<Rightarrow> go_error + string" where
  "event_status p = andthen (struct_fields (Some p)) (field to_string ''status'' [])"

abbreviation "delivery_says \<equiv> announces ''freshflow.delivery.events.v1''"

definition reports :: "deliveries \<Rightarrow> outbox_row \<Rightarrow> bool" where
  "reports s r \<longleftrightarrow>
     (\<exists>ty k p d. delivery_says r ty k p \<and> row_find dr_order k (ds_deliveries s) = Some d \<and>
       (\<forall>st. ty = ''delivery.status_changed'' \<longrightarrow> event_status p = Inr st \<longrightarrow> reached (dr_status d) st) \<and>
       (ty = ''delivery.completed'' \<longrightarrow> dr_status d = ''completed''))"

definition tells :: "deliveries \<Rightarrow> deliveries \<Rightarrow> bool" where
  "tells s s' \<longleftrightarrow> (\<exists>new. ds_outbox s' = ds_outbox s @ new \<and> (\<forall>r \<in> set new. reports s' r))"

lemma tells_nothing: "ds_outbox s' = ds_outbox s \<Longrightarrow> tells s s'"
  by (simp add: tells_def)

text \<open>\<open>D\<close> says which deliveries may be dispatched, \<open>C\<close> which may be cancelled.\<close>

inductive dstep_if ::
  "(delivery_row \<Rightarrow> bool) \<Rightarrow> (delivery_row \<Rightarrow> bool) \<Rightarrow> deliveries \<Rightarrow> deliveries \<Rightarrow> bool" for D C where
  rest: "ds_couriers s' = ds_couriers s \<Longrightarrow>
    map (\<lambda>d. (trip_data d, dr_status d)) (ds_deliveries s') =
    map (\<lambda>d. (trip_data d, dr_status d)) (ds_deliveries s) \<Longrightarrow> tells s s' \<Longrightarrow> dstep_if D C s s'"
| locate: "row_find cr_id k (ds_couriers s) = Some r \<Longrightarrow> cr_sequence r < n \<Longrightarrow>
    ds_couriers s' = row_update cr_id k
      (\<lambda>r. r\<lparr>cr_lat := lat, cr_lon := lon, cr_sequence := n, cr_seen := t\<rparr>) (ds_couriers s) \<Longrightarrow>
    ds_deliveries s' = ds_deliveries s \<Longrightarrow> tells s s' \<Longrightarrow> dstep_if D C s s'"
| dispatch: "row_find cr_id (dr_courier d) (ds_couriers s) = Some r \<Longrightarrow> cr_status r = ''available'' \<Longrightarrow>
    row_find dr_id (dr_id d) (ds_deliveries s) = None \<Longrightarrow>
    row_find dr_order (dr_order d) (ds_deliveries s) = None \<Longrightarrow> dr_status d = ''assigned'' \<Longrightarrow>
    keyed d \<Longrightarrow>
    ds_couriers s' = row_update cr_id (dr_courier d) busy (ds_couriers s) \<Longrightarrow>
    ds_deliveries s' = ds_deliveries s @ [d] \<Longrightarrow> tells s s' \<Longrightarrow> D d \<Longrightarrow> dstep_if D C s s'"
| advance: "row_find dr_id k (ds_deliveries s) = Some d \<Longrightarrow> phase_next (dr_status d) st \<Longrightarrow>
    (\<And>x. trip_data (f x) = trip_data x \<and> dr_status (f x) = st) \<Longrightarrow>
    ds_couriers s' = ds_couriers s \<Longrightarrow>
    ds_deliveries s' = row_update dr_id k f (ds_deliveries s) \<Longrightarrow> tells s s' \<Longrightarrow> dstep_if D C s s'"
| close: "row_find dr_id k (ds_deliveries s) = Some d \<Longrightarrow> \<not> terminal (dr_status d) \<Longrightarrow> terminal st \<Longrightarrow>
    (\<And>x. trip_data (f x) = trip_data x \<and> dr_status (f x) = st) \<Longrightarrow>
    ds_couriers s' = row_update cr_id (dr_courier d) free (ds_couriers s) \<Longrightarrow>
    ds_deliveries s' = row_update dr_id k f (ds_deliveries s) \<Longrightarrow> tells s s' \<Longrightarrow>
    (st = ''cancelled'' \<Longrightarrow> C d) \<Longrightarrow> dstep_if D C s s'"

lemma dstep_if_mono:
  assumes "dstep_if D C s s'" and "\<And>d. D d \<Longrightarrow> D' d" and "\<And>d. C d \<Longrightarrow> C' d"
  shows "dstep_if D' C' s s'"
  using assms(1)
proof (cases rule: dstep_if.cases)
  case dispatch
  then show ?thesis using assms(2) by (intro dstep_if.dispatch)
next
  case close
  then show ?thesis using assms(3) close(8) by (intro dstep_if.close[OF close(1-7)]) blast
qed (rule dstep_if.rest dstep_if.locate dstep_if.advance, assumption+)+

abbreviation "dsteps_if D C \<equiv> (dstep_if D C)\<^sup>*\<^sup>*"
abbreviation "dstep \<equiv> dstep_if (\<lambda>_. True) (\<lambda>_. True)"
abbreviation "dsteps \<equiv> dstep\<^sup>*\<^sup>*"

lemma dsteps_if_mono:
  assumes "dsteps_if D C s s'" and "\<And>d. D d \<Longrightarrow> D' d" and "\<And>d. C d \<Longrightarrow> C' d"
  shows "dsteps_if D' C' s s'"
  using assms(1)
proof (induction rule: rtranclp_induct)
  case (step t u)
  have "dstep_if D' C' t u" using step.hyps(2) assms(2,3) by (rule dstep_if_mono)
  with step.IH show ?case by (rule rtranclp.rtrancl_into_rtrancl)
qed simp

section \<open>The invariant\<close>

definition working :: "deliveries \<Rightarrow> string list" where
  "working s = map dr_courier (active (ds_deliveries s))"

definition regular :: "delivery_row \<Rightarrow> bool" where
  "regular d \<longleftrightarrow> dr_status d \<in> set delivery_statuses \<and> keyed d"

lemma regular_trip:
  "trip_data a = trip_data b \<Longrightarrow> dr_status a \<in> set delivery_statuses \<Longrightarrow> regular b \<Longrightarrow> regular a"
  using trip_dataD[of a b] by (simp add: regular_def keyed_def)

definition fleet_ok :: "deliveries \<Rightarrow> bool" where
  "fleet_ok s \<longleftrightarrow> distinct (map cr_id (ds_couriers s)) \<and> distinct (map dr_id (ds_deliveries s)) \<and>
     distinct (map dr_order (ds_deliveries s)) \<and> distinct (working s) \<and>
     set (working s) \<subseteq> cr_id ` set (ds_couriers s) \<and>
     (\<forall>d \<in> set (ds_deliveries s). regular d) \<and>
     (\<forall>c \<in> set (ds_couriers s). cr_status c = ''assigned'' \<longleftrightarrow> cr_id c \<in> set (working s))"

lemma active_append [simp]: "active (xs @ ys) = active xs @ active ys"
  by (simp add: active_def)

lemma active_cong:
  assumes "map (\<lambda>d. (trip_data d, dr_status d)) xs = map (\<lambda>d. (trip_data d, dr_status d)) ys"
  shows "map dr_courier (active xs) = map dr_courier (active ys) \<and> map dr_id xs = map dr_id ys \<and>
    map dr_order xs = map dr_order ys \<and> map dr_status xs = map dr_status ys"
  using assms
proof (induction xs arbitrary: ys)
  case (Cons x xs)
  then obtain y zs where "ys = y # zs" "trip_data x = trip_data y" "dr_status x = dr_status y"
      "map (\<lambda>d. (trip_data d, dr_status d)) xs = map (\<lambda>d. (trip_data d, dr_status d)) zs" by auto
  then show ?case using Cons.IH[of zs] trip_dataD[of x y] by (auto simp: active_def)
qed simp

lemma active_advance:
  assumes "\<And>x. trip_data (f x) = trip_data x \<and> dr_status (f x) = st" and "\<not> terminal st"
    and "\<And>x. x \<in> set rows \<Longrightarrow> dr_id x = k \<Longrightarrow> \<not> terminal (dr_status x)"
  shows "map dr_courier (active (row_update dr_id k f rows)) = map dr_courier (active rows)"
  using assms(3)
proof (induction rows)
  case (Cons x rows)
  then show ?case using assms(1)[of x] assms(2) trip_dataD[of "f x" x] by (auto simp: active_def)
qed (simp add: active_def)

lemma active_close:
  assumes "\<And>x. trip_data (f x) = trip_data x \<and> dr_status (f x) = st" and "terminal st"
  shows "active (row_update dr_id k f rows) = filter (\<lambda>x. dr_id x \<noteq> k) (active rows)"
  using assms by (induction rows) (auto simp: active_def)

lemma row_update_ids:
  assumes "\<And>x. trip_data (f x) = trip_data x \<and> dr_status (f x) = st"
  shows "map dr_id (row_update dr_id k f rows) = map dr_id rows"
    "map dr_order (row_update dr_id k f rows) = map dr_order rows"
  by (rule map_row_update, rule trip_dataD, simp add: assms)+

lemma in_active: "row_find dr_id k rows = Some d \<Longrightarrow> \<not> terminal (dr_status d) \<Longrightarrow> d \<in> set (active rows)"
  by (auto simp: active_def dest: row_find_SomeD)

lemma map_dr_id_active: "distinct (map dr_id rows) \<Longrightarrow> distinct (map dr_id (active rows))"
  by (simp add: active_def distinct_map_filter)

lemma image_row_update:
  assumes "\<And>x. key (f x) = key x"
  shows "key ` set (row_update key k f rows) = key ` set rows"
  using map_row_update[of key f, OF assms] by (metis list.set_map)

lemma regular_update:
  assumes "\<And>x. trip_data (f x) = trip_data x \<and> dr_status (f x) = st" and "st \<in> set delivery_statuses"
    and "\<forall>x \<in> set rows. regular x"
  shows "\<forall>x \<in> set (row_update dr_id k f rows). regular x"
proof -
  have "regular (f x)" if "x \<in> set rows" for x
    using that assms(1)[of x] assms(2,3) by (intro regular_trip[of "f x" x]) auto
  then show ?thesis using assms(3) by (auto simp: set_row_update)
qed

lemma regular_same:
  assumes "map (\<lambda>d. (trip_data d, dr_status d)) xs = map (\<lambda>d. (trip_data d, dr_status d)) ys"
    and "\<forall>x \<in> set ys. regular x"
  shows "\<forall>x \<in> set xs. regular x"
proof
  fix x assume "x \<in> set xs"
  then have "(trip_data x, dr_status x) \<in> set (map (\<lambda>d. (trip_data d, dr_status d)) xs)" by auto
  then obtain y where "y \<in> set ys" "trip_data x = trip_data y" "dr_status x = dr_status y"
    unfolding assms(1) by auto
  then show "regular x" using assms(2) regular_trip[of x y] by (auto simp: regular_def)
qed

lemma dstep_ok:
  assumes "dstep_if D C s s'" and "fleet_ok s"
  shows "fleet_ok s'"
  using assms
proof (cases rule: dstep_if.cases)
  case rest
  have "\<forall>x \<in> set (ds_deliveries s'). regular x"
    using assms(2) by (intro regular_same[OF rest(2)]) (simp add: fleet_ok_def)
  then show ?thesis using assms(2) rest(1) active_cong[OF rest(2)] by (simp add: fleet_ok_def working_def)
next
  case (locate k r n lat lon t)
  have im: "cr_id ` set (ds_couriers s') = cr_id ` set (ds_couriers s)"
    "map cr_id (ds_couriers s') = map cr_id (ds_couriers s)"
    unfolding locate(3) by (rule image_row_update, simp) (rule map_row_update, simp)
  have "cr_status c = ''assigned'' \<longleftrightarrow> cr_id c \<in> set (working s)" if c: "c \<in> set (ds_couriers s')" for c
  proof -
    obtain b where "b \<in> set (ds_couriers s)" "cr_id c = cr_id b" "cr_status c = cr_status b"
      using c unfolding locate(3) set_row_update by auto
    then show ?thesis using assms(2) by (simp add: fleet_ok_def)
  qed
  moreover have "working s' = working s" using locate(4) by (simp add: working_def)
  ultimately show ?thesis using assms(2) im locate(4) by (auto simp: fleet_ok_def)
next
  case (dispatch d r)
  have d: "distinct (map cr_id (ds_couriers s))" using assms(2) by (simp add: fleet_ok_def)
  have r: "r \<in> set (ds_couriers s)" "cr_id r = dr_courier d" using row_find_SomeD[OF dispatch(1)] by auto
  have w: "working s' = working s @ [dr_courier d]"
    using dispatch(5,8) by (simp add: working_def active_def terminal_def)
  have new: "dr_courier d \<notin> set (working s)" using assms(2) r dispatch(2) by (auto simp: fleet_ok_def)
  have "cr_status c = ''assigned'' \<longleftrightarrow> cr_id c \<in> set (working s')" if c: "c \<in> set (ds_couriers s')" for c
  proof -
    consider (old) "c \<in> set (ds_couriers s)" "cr_id c \<noteq> dr_courier d"
      | (upd) b where "cr_id b = dr_courier d" "c = busy b"
      using c unfolding dispatch(7) set_row_update by auto
    then show ?thesis using assms(2) by cases (auto simp: w fleet_ok_def)
  qed
  moreover have ids: "map cr_id (ds_couriers s') = map cr_id (ds_couriers s)"
    "cr_id ` set (ds_couriers s') = cr_id ` set (ds_couriers s)"
    unfolding dispatch(7) by (rule map_row_update, simp) (rule image_row_update, simp)
  moreover have "dr_courier d \<in> cr_id ` set (ds_couriers s)" using r by force
  ultimately show ?thesis using assms(2) dispatch(3-6,8) w new ids
    by (auto simp: fleet_ok_def row_find_None_iff delivery_statuses_def regular_def)
next
  case (advance k d st f)
  note open_st = phase_next_open[OF advance(2)]
  have d: "distinct (map dr_id (ds_deliveries s))" using assms(2) by (simp add: fleet_ok_def)
  have "x = d" if "x \<in> set (ds_deliveries s)" "dr_id x = k" for x
    using that key_unique[OF d] row_find_SomeD[OF advance(1)] by metis
  then have w: "working s' = working s"
    unfolding working_def advance(5) using active_advance[OF advance(3)] open_st by metis
  have "\<forall>x \<in> set (ds_deliveries s'). regular x"
    using assms(2) open_st unfolding advance(5)
    by (intro regular_update[OF advance(3)]) (simp_all add: fleet_ok_def)
  then show ?thesis using assms(2) w row_update_ids[OF advance(3)] unfolding fleet_ok_def advance(4,5) by simp
next
  case (close k d st f)
  have di: "distinct (map dr_id (ds_deliveries s))" using assms(2) by (simp add: fleet_ok_def)
  have dk: "dr_id d = k" using row_find_SomeD[OF close(1)] by simp
  have act: "active (ds_deliveries s') = filter (\<lambda>x. dr_id x \<noteq> k) (active (ds_deliveries s))"
    unfolding close(6) by (rule active_close[OF close(4,3)])
  have "distinct (map dr_courier (active (ds_deliveries s)))" using assms(2) by (simp add: fleet_ok_def working_def)
  note uniq = key_unique[OF this _ in_active[OF close(1,2)]]
  have w: "set (working s') = set (working s) - {dr_courier d}"
    using uniq dk key_unique[OF map_dr_id_active[OF di] _ in_active[OF close(1,2)]]
    unfolding working_def act by auto
  have dw: "distinct (working s')"
    using assms(2) unfolding working_def act fleet_ok_def by (auto intro: distinct_map_filter)
  have ids: "map cr_id (ds_couriers s') = map cr_id (ds_couriers s)"
    "cr_id ` set (ds_couriers s') = cr_id ` set (ds_couriers s)"
    unfolding close(5) by (rule map_row_update, simp) (rule image_row_update, simp)
  have "\<forall>x \<in> set (ds_deliveries s'). regular x"
    using assms(2) close(3) unfolding close(6)
    by (intro regular_update[OF close(4)]) (auto simp: fleet_ok_def terminal_def delivery_statuses_def)
  moreover have "cr_status c = ''assigned'' \<longleftrightarrow> cr_id c \<in> set (working s')" if c: "c \<in> set (ds_couriers s')" for c
  proof -
    consider (old) "c \<in> set (ds_couriers s)" "cr_id c \<noteq> dr_courier d"
      | (upd) b where "cr_id b = dr_courier d" "c = free b"
      using c unfolding close(5) set_row_update by auto
    then show ?thesis using assms(2) by cases (auto simp: w fleet_ok_def)
  qed
  ultimately show ?thesis using assms(2) w dw ids row_update_ids[OF close(4)]
    unfolding fleet_ok_def close(6) by auto
qed

lemma dsteps_ok: "dsteps_if D C s s' \<Longrightarrow> fleet_ok s \<Longrightarrow> fleet_ok s'"
  by (induction rule: rtranclp_induct) (auto intro: dstep_ok)

end
