(* ===== verification/DeliveryRefine.thy ===== *)
theory DeliveryRefine
  imports DeliverySteps
begin

text \<open>
  Every operation of the delivery service is a sequence of the abstract steps of the fleet,
  whatever fails on the way and whatever Redis and the ETA service answer; and the consumer keeps
  the contract of an inbox.
\<close>

lemma tx_error_state [simp]: "snd (tx_error r) = snd r"
  by (auto simp: tx_error_def split: prod.splits sum.splits)

lemma set_courier_Inr:
  "set_courier e lbl i st rows = Inr rows' \<Longrightarrow>
     \<exists>k. uuid_key i = Some k \<and> rows' = row_update cr_id k (\<lambda>r. r\<lparr>cr_status := st\<rparr>) rows"
  by (auto simp: set_courier_def exec_update_Inr)

lemma set_delivery_Inr:
  "set_delivery e lbl i f rows = Inr rows' \<Longrightarrow> \<exists>k. uuid_key i = Some k \<and> rows' = row_update dr_id k f rows"
  by (auto simp: set_delivery_def exec_update_Inr)

section \<open>What is announced\<close>

lemma emit_reports:
  assumes "emit e c ty orderID payload rows = Inr rows'"
  shows "\<exists>k ev. uuid_key orderID = Some k \<and> rows' = rows @ [ev] \<and> delivery_says ev ty k payload"
  using assms Insert_New_announces by (auto simp: emit_def andthen_Inr)

text \<open>One event about a delivery that is there, which says no more than what has been reached.\<close>

lemma tells_one:
  assumes "emit e c ty orderID payload (ds_outbox s) = Inr (ds_outbox s')" and "uuid_key orderID = Some k"
    and "row_find dr_order k (ds_deliveries s') = Some d"
    and "\<And>st. ty = ''delivery.status_changed'' \<Longrightarrow> event_status payload = Inr st \<Longrightarrow> reached (dr_status d) st"
    and "ty = ''delivery.completed'' \<Longrightarrow> dr_status d = ''completed''"
  shows "tells s s'"
proof -
  obtain ev where "ds_outbox s' = ds_outbox s @ [ev]" "delivery_says ev ty k payload"
    using emit_reports[OF assms(1)] assms(2) by auto
  moreover from this assms(3-5) have "reports s' ev" unfolding reports_def by blast
  ultimately show ?thesis by (simp add: tells_def)
qed

lemma fleet_order:
  assumes "fleet_ok s" and "row_find dr_id k (ds_deliveries s) = Some d"
  shows "row_find dr_order (dr_order d) (ds_deliveries s) = Some d" "uuid_key (dr_order d) = Some (dr_order d)"
proof -
  have d: "d \<in> set (ds_deliveries s)" using row_find_SomeD[OF assms(2)] by simp
  then show "row_find dr_order (dr_order d) (ds_deliveries s) = Some d"
    using assms(1) by (intro row_find_in_set) (auto simp: fleet_ok_def)
  show "uuid_key (dr_order d) = Some (dr_order d)"
    using assms(1) d by (auto simp: fleet_ok_def regular_def keyed_def)
qed

lemma order_after_update:
  assumes "row_find dr_order o_id rows = Some d" and "\<And>x. dr_order (f x) = dr_order x"
  shows "row_find dr_order o_id (row_update dr_id k f rows) = Some (if dr_id d = k then f d else d)"
  using assms by (induction rows) (auto split: if_splits)

section \<open>Assignment\<close>

text \<open>A candidate the loop passes over: unknown, or not available.\<close>

definition unavailable :: "courier_row list \<Rightarrow> string \<Rightarrow> bool" where
  "unavailable rows x \<longleftrightarrow>
     (\<exists>k. uuid_key x = Some k \<and> (\<forall>r. row_find cr_id k rows = Some r \<longrightarrow> cr_status r \<noteq> ''available''))"

text \<open>The nearest available courier among the candidates.\<close>

definition nearest :: "courier_row list \<Rightarrow> string list \<Rightarrow> string \<Rightarrow> bool" where
  "nearest rows cs c \<longleftrightarrow>
     (\<exists>pre post k r. cs = pre @ c # post \<and> list_all (unavailable rows) pre \<and>
        uuid_key c = Some k \<and> row_find cr_id k rows = Some r \<and> cr_status r = ''available'')"

lemma nearest_here:
  "uuid_key c = Some k \<Longrightarrow> row_find cr_id k rows = Some r \<Longrightarrow> cr_status r = ''available'' \<Longrightarrow>
     nearest rows (c # cs) c"
  unfolding nearest_def by (rule exI[of _ "[]"], rule exI[of _ cs]) simp

lemma nearest_later:
  assumes "unavailable rows x" and "nearest rows cs c"
  shows "nearest rows (x # cs) c"
proof -
  obtain pre post where "cs = pre @ c # post" "list_all (unavailable rows) pre"
    "\<exists>k r. uuid_key c = Some k \<and> row_find cr_id k rows = Some r \<and> cr_status r = ''available''"
    using assms(2) unfolding nearest_def by blast
  then show ?thesis
    using assms(1) unfolding nearest_def by (intro exI[of _ "x # pre"] exI[of _ post]) simp
qed

lemma uuid_key_nonempty: "uuid_key x = Some k \<Longrightarrow> x \<noteq> []"
  by (auto simp: uuid_key_def key_pattern_list)

lemma query_row_missing:
  "query_row e lbl key arg rows = Inl err \<Longrightarrow> is_no_rows err \<Longrightarrow>
     \<exists>k. uuid_key arg = Some k \<and> row_find key k rows = None"
  by (auto simp: query_row_def as_uuid_def io_def split: if_splits option.splits)

lemma choose_courier_cases:
  "choose_courier e rows cs = Inr c \<Longrightarrow>
     c = [] \<and> list_all (unavailable rows) cs \<or> c \<noteq> [] \<and> nearest rows cs c"
proof (induction cs)
  case (Cons x cs)
  show ?case
  proof (cases "query_row e (''lock courier '' @ x) cr_id x rows")
    case (Inl err)
    then have nr: "is_no_rows err" and rest: "choose_courier e rows cs = Inr c"
      using Cons.prems by (simp_all split: if_splits)
    have "unavailable rows x" using query_row_missing[OF Inl nr] by (auto simp: unavailable_def)
    then show ?thesis using Cons.IH[OF rest] nearest_later by auto
  next
    case (Inr r)
    then obtain k where k: "uuid_key x = Some k" "row_find cr_id k rows = Some r" by (auto simp: query_row_Inr)
    show ?thesis
    proof (cases "cr_status r = ''available''")
      case True
      then have "c = x" using Cons.prems Inr by simp
      then show ?thesis using nearest_here[OF k True] uuid_key_nonempty[OF k(1)] by simp
    next
      case False
      then have rest: "choose_courier e rows cs = Inr c" using Cons.prems Inr by simp
      have "unavailable rows x" using k False by (auto simp: unavailable_def)
      then show ?thesis using Cons.IH[OF rest] nearest_later by auto
    qed
  qed
qed simp

lemma insert_delivery_Inr:
  assumes "insert_delivery e con v p deliveryID courierID t crs rows = Inr rows'"
  shows "\<exists>d i o_id c. rows' = rows @ [d] \<and> uuid_key deliveryID = Some i \<and> uuid_key (oc_order p) = Some o_id \<and>
    uuid_key courierID = Some c \<and> dr_id d = i \<and> dr_order d = o_id \<and> dr_courier d = c \<and>
    dr_status d = ''assigned'' \<and> dr_dest_lat d = oc_lat p \<and> dr_dest_lon d = oc_lon p \<and> dr_delay d = 0 \<and>
    dr_eta d = None \<and> dr_completed d = None \<and> 0 < dr_items d \<and> keyed d \<and>
    row_find dr_id i rows = None \<and> row_find dr_order o_id rows = None"
  using assms uuid_key_idem by (auto simp: insert_delivery_def andthen_Inr as_uuid_Inr int4_Inr exec_insert_Inr keyed_def)

text \<open>The delivery an order asks for.\<close>

definition for_order :: "order_created \<Rightarrow> delivery_row \<Rightarrow> bool" where
  "for_order p d \<longleftrightarrow> uuid_key (oc_order p) = Some (dr_order d) \<and> dr_dest_lat d = oc_lat p \<and> dr_dest_lon d = oc_lon p"

text \<open>An assignment that did something: the new delivery and its courier.\<close>

definition assigned_to :: "string \<Rightarrow> deliveries \<Rightarrow> deliveries \<Rightarrow> string list \<Rightarrow> delivery_row \<Rightarrow> bool" where
  "assigned_to orderID s s' candidates d \<longleftrightarrow> ds_deliveries s' = ds_deliveries s @ [d] \<and>
     uuid_key orderID = Some (dr_order d) \<and> dr_status d = ''assigned'' \<and>
     ds_couriers s' = row_update cr_id (dr_courier d) busy (ds_couriers s) \<and>
     (\<exists>c. nearest (ds_couriers s) candidates c \<and> uuid_key c = Some (dr_courier d)) \<and>
     (\<exists>ev c did t. ds_outbox s' = ds_outbox s @ [ev] \<and> uuid_key c = Some (dr_courier d) \<and>
        delivery_says ev ''delivery.assigned'' (dr_order d) (assigned_payload did orderID c t))"

lemma assign_tx_cases:
  assumes "assign_tx con e c v p candidates s = Inr (vd, s')"
  obtains (seen) "s' = s" "the (uuid_key (EventID v)) \<in> set (ds_processed s)"
  | (assigned) d where "assigned_to (oc_order p) s s' candidates d" "dstep_if (for_order p) (\<lambda>_. False) s s'"
    "ds_processed s' = ds_processed s @ [the (uuid_key (EventID v))]" "uuid_key (EventID v) \<noteq> None"
    "the (uuid_key (EventID v)) \<notin> set (ds_processed s)"
    "dr_dest_lat d = oc_lat p \<and> dr_dest_lon d = oc_lon p" "ds_predictions s' = ds_predictions s"
    "dr_delay d = 0 \<and> dr_eta d = None"
proof -
  obtain b seen where m: "mark_processed e (EventID v) (ds_processed s) = Inr (b, seen)"
    using assms by (auto simp: assign_tx_def andthen_Inr)
  show ?thesis
  proof (cases b)
    case False
    then show ?thesis using assms m that(1) by (auto simp: assign_tx_def mark_processed_Inr split: if_splits)
  next
    case True
    then obtain courierID couriers dels ob did where
      ch: "choose_courier e (ds_couriers s) candidates = Inr courierID" "courierID \<noteq> []" and
      sc: "set_courier e ''assign courier'' courierID ''assigned'' (ds_couriers s) = Inr couriers" and
      ins: "insert_delivery e con v p did courierID (clock e ''assigned'') couriers (ds_deliveries s) = Inr dels" and
      em: "emit e c ''delivery.assigned'' (oc_order p)
        (assigned_payload did (oc_order p) courierID (clock e ''assigned'')) (ds_outbox s) = Inr ob" and
      s': "s' = s\<lparr>ds_processed := seen, ds_couriers := couriers, ds_deliveries := dels, ds_outbox := ob\<rparr>"
      using assms m by (auto simp: assign_tx_def andthen_Inr Let_def split: if_splits)
    have nc: "nearest (ds_couriers s) candidates courierID" using choose_courier_cases[OF ch(1)] ch(2) by blast
    then obtain k r where c: "uuid_key courierID = Some k"
      "row_find cr_id k (ds_couriers s) = Some r" "cr_status r = ''available''"
      unfolding nearest_def by blast
    obtain d where d: "dels = ds_deliveries s @ [d]" "uuid_key (oc_order p) = Some (dr_order d)"
      "dr_courier d = k" "dr_status d = ''assigned''" "keyed d"
      "row_find dr_id (dr_id d) (ds_deliveries s) = None" "row_find dr_order (dr_order d) (ds_deliveries s) = None"
      "dr_dest_lat d = oc_lat p \<and> dr_dest_lon d = oc_lon p" "dr_delay d = 0 \<and> dr_eta d = None"
      using insert_delivery_Inr[OF ins] c(1) by auto
    have cu: "couriers = row_update cr_id k busy (ds_couriers s)" using set_courier_Inr[OF sc] c(1) by auto
    have ob: "ds_outbox s' = ob" "ds_deliveries s' = dels" using s' by simp_all
    have "tells s s'"
      using d(1,2,7) by (intro tells_one[OF em[folded ob(1)] d(2)]) (simp_all add: ob(2))
    then have "dstep_if (for_order p) (\<lambda>_. False) s s'"
      using c d s' cu by (intro dstep_if.dispatch[of d s r s']) (simp_all add: for_order_def)
    moreover have "assigned_to (oc_order p) s s' candidates d"
      using c(1) nc cu d(1-4) emit_reports[OF em] s' unfolding assigned_to_def by auto
    moreover have "ds_processed s' = ds_processed s @ [the (uuid_key (EventID v))]"
      "uuid_key (EventID v) \<noteq> None" "the (uuid_key (EventID v)) \<notin> set (ds_processed s)"
      using m True s' by (auto simp: mark_processed_Inr split: if_splits)
    ultimately show ?thesis using that(2) d(8,9) s' by simp
  qed
qed

lemma assign_tx_commits: "assign_tx con e c v p candidates s = Inr (vd, s') \<Longrightarrow> vd = Commit ()"
  by (auto simp: assign_tx_def andthen_Inr Let_def split: if_splits prod.splits)

section \<open>Cancellation and phases\<close>

lemma rest_step:
  "ds_couriers s' = ds_couriers s \<Longrightarrow> ds_deliveries s' = ds_deliveries s \<Longrightarrow> ds_outbox s' = ds_outbox s \<Longrightarrow>
     dstep_if D C s s'"
  by (rule dstep_if.rest) (simp_all add: tells_nothing)

lemma cancel_tx_step:
  assumes "cancel_tx e c v s = Inr (vd, s')" and "fleet_ok s"
  shows "dstep_if (\<lambda>_. False) (\<lambda>d. uuid_key (AggregateID v) = Some (dr_order d)) s s'"
proof -
  obtain b seen where m: "mark_processed e (EventID v) (ds_processed s) = Inr (b, seen)"
    using assms by (auto simp: cancel_tx_def andthen_Inr)
  let ?s1 = "s\<lparr>ds_processed := seen\<rparr>"
  show ?thesis
  proof (cases "s' = s \<or> s' = ?s1")
    case False
    then obtain d dels couriers ob where
      q: "query_row e ''find delivery'' dr_order (AggregateID v) (ds_deliveries s) = Inr d" "\<not> terminal (dr_status d)" and
      u: "set_delivery e ''cancel delivery'' (dr_id d) (\<lambda>r. r\<lparr>dr_status := ''cancelled''\<rparr>) (ds_deliveries s) = Inr dels"
      "set_courier e ''free courier'' (dr_courier d) ''available'' (ds_couriers s) = Inr couriers" and
      em: "emit e c ''delivery.cancelled'' (AggregateID v)
        (cancelled_payload (dr_id d) (AggregateID v) (dr_courier d) (clock e ''cancelled'')) (ds_outbox s) = Inr ob" and
      s': "s' = ?s1\<lparr>ds_couriers := couriers, ds_deliveries := dels, ds_outbox := ob\<rparr>"
      using assms(1) m by (auto simp: cancel_tx_def andthen_Inr Let_def split: if_splits sum.splits)
    have d: "d \<in> set (ds_deliveries s)" using q(1) by (auto simp: query_row_Inr dest: row_find_SomeD)
    then have k: "keyed d" using assms(2) by (auto simp: fleet_ok_def regular_def)
    have agg: "uuid_key (AggregateID v) = Some (dr_order d)" "row_find dr_order (dr_order d) (ds_deliveries s) = Some d"
      using q(1) by (auto simp: query_row_Inr dest: row_find_SomeD)
    have "row_find dr_id (dr_id d) (ds_deliveries s) = Some d"
      using d assms(2) by (intro row_find_in_set) (auto simp: fleet_ok_def)
    moreover have u': "dels = row_update dr_id (dr_id d) (\<lambda>r. r\<lparr>dr_status := ''cancelled''\<rparr>) (ds_deliveries s)"
      "couriers = row_update cr_id (dr_courier d) free (ds_couriers s)"
      using set_delivery_Inr[OF u(1)] set_courier_Inr[OF u(2)] k by (auto simp: keyed_def)
    have ob: "ds_outbox s' = ob" "ds_deliveries s' = dels" using s' by simp_all
    have "tells s s'"
      by (rule tells_one[OF em[folded ob(1)] agg(1)], unfold ob(2) u'(1), rule order_after_update[OF agg(2)]) simp_all
    ultimately show ?thesis
      using q(2) s' agg(1) u' by (intro dstep_if.close[of "dr_id d" s d "''cancelled''" "\<lambda>r. r\<lparr>dr_status := ''cancelled''\<rparr>"])
        (simp_all add: terminal_def trip_data_def)
  qed (auto intro: rest_step)
qed

lemma valid_transition_cases:
  "validDeliveryTransition current target \<longleftrightarrow>
     phase_next current target \<or> current = ''delivering'' \<and> target = ''completed'' \<or>
     current \<notin> {''assigned'', ''assembling'', ''delivering''} \<and> target = []"
  unfolding validDeliveryTransition_def phase_next_iff by (simp split: if_splits) metis

text \<open>A status that is not in the table of phases reads as the empty string, and so passes the
  comparison with an empty phase.\<close>

lemma empty_phase_accepted: "terminal status \<Longrightarrow> validDeliveryTransition status []"
  by (auto simp: terminal_def validDeliveryTransition_def)

lemma phase_update_open:
  assumes "phase_update e p c s = Inr s1" and "lp_phase p = ''assembling'' \<or> lp_phase p = ''delivering''"
  shows "\<exists>k f. uuid_key (lp_delivery p) = Some k \<and> s1 = s\<lparr>ds_deliveries := row_update dr_id k f (ds_deliveries s)\<rparr> \<and>
    (\<forall>x. trip_data (f x) = trip_data x \<and> dr_status (f x) = lp_phase p)"
  using assms(2)
proof
  assume "lp_phase p = ''assembling''"
  then show ?thesis using assms(1)
    by (intro exI[of _ "the (uuid_key (lp_delivery p))"] exI[of _ "\<lambda>d. d\<lparr>dr_status := ''assembling''\<rparr>"])
       (auto simp: phase_update_def andthen_Inr trip_data_def dest!: set_delivery_Inr)
next
  assume "lp_phase p = ''delivering''"
  then show ?thesis using assms(1)
    by (intro exI[of _ "the (uuid_key (lp_delivery p))"]
          exI[of _ "\<lambda>d. d\<lparr>dr_status := ''delivering'',
             dr_started := (case dr_started d of None \<Rightarrow> Some (pg_time (lp_recorded p)) | Some t \<Rightarrow> Some t)\<rparr>"])
       (auto simp: phase_update_def andthen_Inr trip_data_def dest!: set_delivery_Inr)
qed

lemma phase_update_outbox: "phase_update e p c s = Inr s1 \<Longrightarrow> ds_outbox s1 = ds_outbox s"
  by (auto simp: phase_update_def andthen_Inr Let_def split: if_splits)

text \<open>The ways \<open>applyPhase\<close> succeeds.\<close>

lemma applyPhase_cases:
  assumes "applyPhase con e p s = Inr s'"
  obtains (none) "s' = s"
  | (phase) d s1 ob where "query_row e ''find phase delivery'' dr_id (lp_delivery p) (ds_deliveries s) = Inr d"
      "validDeliveryTransition (dr_status d) (lp_phase p)" "phase_update e p (dr_courier d) s = Inr s1"
      "s' = s1\<lparr>ds_outbox := ob\<rparr>" "lp_phase p \<noteq> ''completed''"
      "\<exists>c q. emit e c ''delivery.status_changed'' (dr_order d) q (ds_outbox s1) = Inr ob \<and> event_status q = Inr (lp_phase p)"
  | (completed) d s1 extra preds ob where
      "query_row e ''find phase delivery'' dr_id (lp_delivery p) (ds_deliveries s) = Inr d"
      "validDeliveryTransition (dr_status d) (lp_phase p)" "phase_update e p (dr_courier d) s = Inr s1"
      "completion e (lp_delivery p) (dr_assigned d) (lp_recorded p) (ds_predictions s1) = Inr (extra, preds)"
      "s' = s1\<lparr>ds_predictions := preds, ds_outbox := ob\<rparr>" "lp_phase p = ''completed''"
      "\<exists>c q. emit e c ''delivery.completed'' (dr_order d) q (ds_outbox s1) = Inr ob"
proof (cases "s' = s")
  case False
  then obtain d where d: "query_row e ''find phase delivery'' dr_id (lp_delivery p) (ds_deliveries s) = Inr d"
      "validDeliveryTransition (dr_status d) (lp_phase p)"
    using assms by (auto simp: applyPhase_def Let_def split: sum.splits if_splits)
  then obtain s1 where s1: "phase_update e p (dr_courier d) s = Inr s1"
    using assms False by (auto simp: applyPhase_def Let_def andthen_Inr split: if_splits)
  let ?base = "[(''delivery_id'', JStr (lp_delivery p)), (''order_id'', JStr (dr_order d)),
      (''courier_id'', JStr (dr_courier d)), (''status'', JStr (lp_phase p)), (''changed_at'', JTime (lp_recorded p))]"
  show ?thesis
  proof (cases "lp_phase p = ''completed''")
    case True
    then obtain c extra preds ob where
      "completion e (lp_delivery p) (dr_assigned d) (lp_recorded p) (ds_predictions s1) = Inr (extra, preds)"
      "emit e c ''delivery.completed'' (dr_order d) (JObj (?base @ extra)) (ds_outbox s1) = Inr ob"
      "s' = s1\<lparr>ds_predictions := preds, ds_outbox := ob\<rparr>"
      using assms False d s1 by (auto simp: applyPhase_def Let_def andthen_Inr split: if_splits)
    then show ?thesis using completed[OF d s1] True by blast
  next
    case no: False
    then obtain c ob where "emit e c ''delivery.status_changed'' (dr_order d) (JObj ?base) (ds_outbox s1) = Inr ob"
        "s' = s1\<lparr>ds_outbox := ob\<rparr>"
      using assms False d s1 by (auto simp: applyPhase_def Let_def andthen_Inr split: if_splits)
    moreover have "event_status (JObj ?base) = Inr (lp_phase p)"
      by (simp add: event_status_def same_key_def ascii_lower_def)
    ultimately show ?thesis using phase[OF d s1] no by blast
  qed
qed (rule none)

lemma reached_self: "reached st st"
  by (simp add: reached_def)

text \<open>What a phase does to the tables of the fleet: the row update of the phase, nothing else.\<close>

lemma applyPhase_step:
  assumes "applyPhase con e p s = Inr s'" and "fleet_ok s"
  shows "dstep_if (\<lambda>_. False) (\<lambda>_. False) s s'"
  using assms(1)
proof (cases rule: applyPhase_cases)
  case none
  then show ?thesis by (simp add: rest_step)
next
  case (phase d s1 ob)
  obtain c q where em: "emit e c ''delivery.status_changed'' (dr_order d) q (ds_outbox s) = Inr (ds_outbox s')"
      "event_status q = Inr (lp_phase p)"
    using phase(4,6) phase_update_outbox[OF phase(3)] by auto
  obtain k where k: "uuid_key (lp_delivery p) = Some k" "row_find dr_id k (ds_deliveries s) = Some d"
    using phase(1) by (auto simp: query_row_Inr)
  note o = fleet_order[OF assms(2) k(2)]
  consider (onward) "phase_next (dr_status d) (lp_phase p)" | (odd) "lp_phase p = []"
    using phase(2,5) unfolding valid_transition_cases by blast
  then show ?thesis
  proof cases
    case onward
    then have "lp_phase p = ''assembling'' \<or> lp_phase p = ''delivering''" by (auto elim: phase_next_cases)
    from phase_update_open[OF phase(3) this] k(1) obtain f where
      f: "s1 = s\<lparr>ds_deliveries := row_update dr_id k f (ds_deliveries s)\<rparr>"
        "\<And>x. trip_data (f x) = trip_data x \<and> dr_status (f x) = lp_phase p"
      by (elim exE conjE) (rule that[rotated], drule spec, assumption, simp)
    have "dr_order (f x) = dr_order x" for x using f(2) trip_dataD(2) by blast
    from order_after_update[OF o(1), of f k, OF this]
    have r: "row_find dr_order (dr_order d) (ds_deliveries s') = Some (f d)"
      using f(1) phase(4) row_find_SomeD[OF k(2)] by simp
    have t: "tells s s'"
      by (rule tells_one[OF em(1) o(2) r]) (use em(2) f(2) reached_self in auto)
    show ?thesis
      using f phase(4) t by (intro dstep_if.advance[OF k(2) onward, of f s']) simp_all
  next
    case odd
    then have s1: "s1 = s" using phase(3) by (simp add: phase_update_def)
    have r: "row_find dr_order (dr_order d) (ds_deliveries s') = Some d" using o(1) phase(4) s1 by simp
    have "tells s s'" by (rule tells_one[OF em(1) o(2) r]) (use em(2) odd in \<open>auto simp: reached_def\<close>)
    then show ?thesis using phase(4) s1 by (intro dstep_if.rest) simp_all
  qed
next
  case (completed d s1 extra preds ob)
  let ?f = "\<lambda>d. d\<lparr>dr_status := ''completed'', dr_completed := Some (pg_time (lp_recorded p))\<rparr>"
  obtain c q where em: "emit e c ''delivery.completed'' (dr_order d) q (ds_outbox s) = Inr (ds_outbox s')"
    using completed(5,7) phase_update_outbox[OF completed(3)] by auto
  obtain k where k: "uuid_key (lp_delivery p) = Some k" "row_find dr_id k (ds_deliveries s) = Some d"
    using completed(1) by (auto simp: query_row_Inr)
  note o = fleet_order[OF assms(2) k(2)]
  have kd: "keyed d" using row_find_SomeD[OF k(2)] assms(2) by (auto simp: fleet_ok_def regular_def)
  have st: "dr_status d = ''delivering''"
    using completed(2,6) unfolding valid_transition_cases by (auto elim: phase_next_cases)
  obtain dels couriers where u:
    "set_delivery e ''set completed'' (lp_delivery p) ?f (ds_deliveries s) = Inr dels"
    "set_courier e ''free courier'' (dr_courier d) ''available'' (ds_couriers s) = Inr couriers"
    "s1 = s\<lparr>ds_deliveries := dels, ds_couriers := couriers\<rparr>"
    using completed(3,6) by (auto simp: phase_update_def andthen_Inr)
  have dels: "dels = row_update dr_id k ?f (ds_deliveries s)" using set_delivery_Inr[OF u(1)] k(1) by auto
  have r: "row_find dr_order (dr_order d) (ds_deliveries s') = Some (?f d)"
    using order_after_update[OF o(1), of ?f k] dels u(3) completed(5) row_find_SomeD[OF k(2)] by simp
  have "tells s s'" by (rule tells_one[OF em o(2) r]) simp_all
  then show ?thesis
    using dels set_courier_Inr[OF u(2)] u(3) kd completed(5) st
    by (intro dstep_if.close[OF k(2), of "''completed''" ?f s']) (auto simp: terminal_def trip_data_def keyed_def)
qed

lemma move_courier_cases:
  assumes "move_courier e p rows = Inr (b, rows')"
  obtains (still) "\<not> b" "rows' = rows"
  | (moved) k r where "b" "uuid_key (lp_courier p) = Some k" "row_find cr_id k rows = Some r"
      "cr_sequence r < lp_sequence p" "rows' = row_update cr_id k
         (\<lambda>r. r\<lparr>cr_lat := lp_lat p, cr_lon := lp_lon p, cr_sequence := lp_sequence p,
                cr_seen := pg_time (lp_recorded p)\<rparr>) rows"
  using assms by (auto simp: move_courier_def andthen_Inr as_uuid_Inr split: option.splits if_splits)

lemma location_tx_steps:
  assumes "location_tx con e v p s = Inr (vd, s')" and "fleet_ok s"
  shows "dsteps_if (\<lambda>_. False) (\<lambda>_. False) s s'" (is "?steps s s'")
proof -
  obtain b seen where m: "mark_processed e (EventID v) (ds_processed s) = Inr (b, seen)"
    using assms by (auto simp: location_tx_def andthen_Inr)
  let ?s1 = "s\<lparr>ds_processed := seen\<rparr>"
  show ?thesis
  proof (cases "s' = s \<or> s' = ?s1")
    case False
    then obtain couriers where
      mv: "move_courier e p (ds_couriers s) = Inr (True, couriers)" and
      ap: "(if lp_delivery p = [] then Inr (?s1\<lparr>ds_couriers := couriers\<rparr>)
            else applyPhase con e p (?s1\<lparr>ds_couriers := couriers\<rparr>)) = Inr s'"
      using assms(1) m by (auto simp: location_tx_def andthen_Inr Let_def split: if_splits)
    let ?s2 = "?s1\<lparr>ds_couriers := couriers\<rparr>"
    from mv have 1: "dstep_if (\<lambda>_. False) (\<lambda>_. False) s ?s2"
    proof (cases rule: move_courier_cases)
      case (moved k r)
      then show ?thesis by (intro dstep_if.locate[OF moved(3,4)]) (simp_all add: tells_nothing)
    qed simp
    have "fleet_ok ?s2" using dstep_ok[OF 1 assms(2)] .
    then have "?s2 = s' \<or> dstep_if (\<lambda>_. False) (\<lambda>_. False) ?s2 s'" using ap applyPhase_step by (auto split: if_splits)
    then show ?thesis using 1 by (auto intro: rtranclp.rtrancl_into_rtrancl)
  next
    case True
    then have "dstep_if (\<lambda>_. False) (\<lambda>_. False) s s'" by (auto intro: rest_step)
    then show ?thesis ..
  qed
qed

section \<open>Operators' actions and forecasts\<close>

lemma delay_tx_step:
  assumes "delay_tx e c i s = Inr (vd, s')" and "fleet_ok s"
  shows "dstep_if (\<lambda>_. False) (\<lambda>_. False) s s'"
proof -
  let ?f = "delay_row (clock e ''now'')"
  obtain d q dels where q: "query_row e ''find delivery'' dr_id i (ds_deliveries s) = Inr d" and
    u: "exec_update e ''delay delivery'' dr_id i delay_row_ok ?f (ds_deliveries s) = Inr dels" and
    em: "emit e c ''delivery.delay_injected'' (dr_order d) q (ds_outbox s) = Inr (ds_outbox s')" and
    s': "ds_couriers s' = ds_couriers s" "ds_deliveries s' = dels"
    using assms(1) by (auto simp: delay_tx_def andthen_Inr split: if_splits)
  obtain k where k: "row_find dr_id k (ds_deliveries s) = Some d" "dels = row_update dr_id k ?f (ds_deliveries s)"
    using q u by (auto simp: query_row_Inr exec_update_Inr)
  note o = fleet_order[OF assms(2) k(1)]
  have r: "row_find dr_order (dr_order d) (ds_deliveries s') = Some (?f d)"
    using order_after_update[OF o(1), of ?f k] s'(2) k row_find_SomeD[OF k(1)] by (simp add: delay_row_def)
  have "tells s s'" by (rule tells_one[OF em o(2) r]) simp_all
  moreover have "map (\<lambda>d. (trip_data d, dr_status d)) dels = map (\<lambda>d. (trip_data d, dr_status d)) (ds_deliveries s)"
    unfolding k(2) by (rule map_row_update) (simp add: delay_row_def trip_data_def)
  ultimately show ?thesis using s' by (intro dstep_if.rest) simp_all
qed

lemma complete_tx_step:
  assumes "complete_tx e c i s = Inr (vd, s')" and "fleet_ok s"
  shows "dstep_if (\<lambda>_. False) (\<lambda>_. False) s s'"
proof -
  let ?f = "\<lambda>r. r\<lparr>dr_status := ''completed'', dr_completed := Some (pg_time (clock e ''now''))\<rparr>"
  obtain d dels crs preds c' p where
    q: "query_row e ''find delivery'' dr_id i (ds_deliveries s) = Inr d" "\<not> terminal (dr_status d)" and
    u: "set_delivery e ''complete delivery'' i ?f (ds_deliveries s) = Inr dels"
      "set_courier e ''free courier'' (dr_courier d) ''available'' (ds_couriers s) = Inr crs" and
    em: "emit e c' ''delivery.completed'' (dr_order d) p (ds_outbox s) = Inr (ds_outbox s')" and
    s': "ds_deliveries s' = dels" "ds_couriers s' = crs"
    using assms(1) by (auto simp: complete_tx_def andthen_Inr Let_def split: if_splits)
  obtain k where k: "uuid_key i = Some k" "row_find dr_id k (ds_deliveries s) = Some d"
    using q(1) by (auto simp: query_row_Inr)
  note o = fleet_order[OF assms(2) k(2)]
  have dels: "dels = row_update dr_id k ?f (ds_deliveries s)" using set_delivery_Inr[OF u(1)] k(1) by auto
  have r: "row_find dr_order (dr_order d) (ds_deliveries s') = Some (?f d)"
    using order_after_update[OF o(1), of ?f k] dels s'(1) row_find_SomeD[OF k(2)] by simp
  have "tells s s'" by (rule tells_one[OF em o(2) r]) simp_all
  moreover have "keyed d" using row_find_SomeD[OF k(2)] assms(2) by (auto simp: fleet_ok_def regular_def)
  ultimately show ?thesis
    using dels set_courier_Inr[OF u(2)] q(2) s'
    by (intro dstep_if.close[OF k(2), of "''completed''" ?f s']) (auto simp: terminal_def trip_data_def keyed_def)
qed

lemma save_tx_step:
  assumes "save_tx e i j f p s = Inr (vd, s')"
  shows "dstep_if D C s s'"
proof -
  obtain b preds where i: "insert_prediction e i j f p s = Inr (b, preds)"
    using assms by (auto simp: save_tx_def andthen_Inr)
  show ?thesis
  proof (cases b)
    case True
    let ?g = "\<lambda>d. d\<lparr>dr_eta := Some (ep_seconds p), dr_model := Some (ep_model p), dr_eta_at := Some (pg_time (ep_computed p))\<rparr>"
    obtain k where s': "s' = s\<lparr>ds_predictions := preds, ds_deliveries := row_update dr_id k ?g (ds_deliveries s)\<rparr>"
      using assms i True by (auto simp: save_tx_def andthen_Inr Let_def exec_update_Inr)
    have "map (\<lambda>d. (trip_data d, dr_status d)) (row_update dr_id k ?g (ds_deliveries s)) =
        map (\<lambda>d. (trip_data d, dr_status d)) (ds_deliveries s)"
      by (rule map_row_update) (simp add: trip_data_def)
    then show ?thesis using s' by (intro dstep_if.rest) (simp_all add: tells_nothing)
  next
    case False
    then show ?thesis using assms i by (auto simp: save_tx_def andthen_Inr intro: rest_step)
  qed
qed

section \<open>Histories\<close>

lemma with_tx_steps:
  assumes "\<And>vd t. body s = Inr (vd, t) \<Longrightarrow> dsteps_if D C s t"
  shows "dsteps_if D C s (snd (with_tx e b c body s))"
proof -
  obtain r t where w: "with_tx e b c body s = (r, t)" by fastforce
  then show ?thesis using assms by (auto elim: with_tx_cases)
qed

text \<open>What an event asks of the fleet: a delivery for an order, or that the order's delivery is given up.\<close>

definition called_for :: "json option \<Rightarrow> delivery_row \<Rightarrow> bool" where
  "called_for value d \<longleftrightarrow> (\<exists>v p. Unmarshal value = Inr v \<and> EventType v = ''order.created'' \<and>
     decode_order_created (Payload v) = Inr p \<and> for_order p d)"

definition called_off :: "json option \<Rightarrow> delivery_row \<Rightarrow> bool" where
  "called_off value d \<longleftrightarrow> (\<exists>v. Unmarshal value = Inr v \<and> EventType v = ''order.cancelled'' \<and>
     uuid_key (AggregateID v) = Some (dr_order d))"

lemma assign_guarded: "dsteps_if (for_order p) (\<lambda>_. False) s (snd (assign con e c v p s))"
proof -
  have "dsteps_if (for_order q) (\<lambda>_. False) s (snd (with_tx e id id (assign_tx con e c v q cs) s))" for q cs
    by (rule with_tx_steps) (auto elim!: assign_tx_cases)
  moreover have "for_order (p\<lparr>oc_items := n\<rparr>) = for_order p" for n by (rule ext) (simp add: for_order_def)
  ultimately show ?thesis by (simp add: assign_def Let_def) metis
qed

lemma cancel_guarded:
  assumes "fleet_ok s"
  shows "dsteps_if (\<lambda>_. False) (\<lambda>d. uuid_key (AggregateID v) = Some (dr_order d)) s (snd (cancel e c v s))"
  unfolding cancel_def tx_error_state
  by (rule with_tx_steps, rule r_into_rtranclp, rule cancel_tx_step[OF _ assms])

lemma updateLocation_guarded:
  assumes "fleet_ok s"
  shows "dsteps_if (\<lambda>_. False) (\<lambda>_. False) s (snd (updateLocation con e v p s))"
proof -
  let ?steps = "dsteps_if (\<lambda>_. False) (\<lambda>_. False)"
  obtain r t where w: "with_tx e id id (location_tx con e v p) s = (r, t)" by fastforce
  have t: "?steps s t" using with_tx_steps[of "location_tx con e v p" s] location_tx_steps assms w
    by (metis snd_conv)
  moreover have "dstep_if (\<lambda>_. False) (\<lambda>_. False) t (t\<lparr>ds_geo := g\<rparr>)" for g by (rule rest_step) simp_all
  ultimately have "?steps s (t\<lparr>ds_geo := g\<rparr>)" for g by (metis rtranclp.rtrancl_into_rtrancl)
  then show ?thesis using w t
    by (auto simp: updateLocation_def split: sum.splits verdict.splits bool.splits)
qed

lemma consumer_guarded:
  assumes "fleet_ok s"
  shows "dsteps_if (called_for value) (called_off value) s (snd (handle_event con e value s))" 
proof (cases "Unmarshal value")
  case (Inl err)
  then show ?thesis by (simp add: handle_event_def)
next
  case (Inr v)
  consider "EventType v = ''order.created''" | "EventType v = ''order.cancelled''"
    | "EventType v = ''courier.location_updated''"
    | "EventType v \<notin> {''order.created'', ''order.cancelled'', ''courier.location_updated''}" by blast
  then show ?thesis
  proof cases
    case 1
    have "dsteps_if (called_for value) (called_off value) s (snd (assign con e c v p s))" if "decode_order_created (Payload v) = Inr p" for c p
      by (rule dsteps_if_mono[OF assign_guarded]) (use 1 Inr that in \<open>auto simp: called_for_def\<close>)
    then show ?thesis using 1 Inr by (simp add: handle_event_def Let_def split: sum.split)
  next
    case 2
    have "dsteps_if (called_for value) (called_off value) s (snd (cancel e c v s))" for c
      by (rule dsteps_if_mono[OF cancel_guarded[OF assms]]) (use 2 Inr in \<open>auto simp: called_off_def\<close>)
    then show ?thesis using 2 Inr by (simp add: handle_event_def Let_def)
  next
    case 3
    have "dsteps_if (called_for value) (called_off value) s (snd (updateLocation con e v p s))" for p
      by (rule dsteps_if_mono[OF updateLocation_guarded[OF assms]]) simp_all
    then show ?thesis using 3 Inr by (simp add: handle_event_def Let_def split: sum.split)
  next
    case 4
    then show ?thesis using Inr by (simp add: handle_event_def Let_def)
  qed
qed

lemma consumer_steps: "fleet_ok s \<Longrightarrow> dsteps s (snd (handle_event con e v s))"
  by (rule dsteps_if_mono[OF consumer_guarded]) simp_all

datatype delivery_op =
    ConsumeOp dispatcher env "json option"
  | ActionOp env ctx string http_body
  | SaveOp env prediction_job eta_features eta_prediction

fun delivery_op_step :: "delivery_op \<Rightarrow> deliveries \<Rightarrow> deliveries" where
  "delivery_op_step (ConsumeOp con e v) s = snd (handle_event con e v s)"
| "delivery_op_step (ActionOp e c i body) s = snd (action e c i body s)"
| "delivery_op_step (SaveOp e j f p) s = snd (save e j f p s)"

definition delivery_run :: "delivery_op list \<Rightarrow> deliveries \<Rightarrow> deliveries" where
  "delivery_run = fold delivery_op_step"

lemma action_reply_state [simp]: "snd (action_reply e c i r) = snd r"
  by (auto simp: action_reply_def split: prod.splits sum.splits)

lemma action_guarded:
  assumes "fleet_ok s"
  shows "dsteps_if (\<lambda>_. False) (\<lambda>_. False) s (snd (action e c i body s))"
proof -
  let ?steps = "dsteps_if (\<lambda>_. False) (\<lambda>_. False)"
  have "?steps s (snd (delay e c i s))"
    unfolding delay_def tx_error_state by (rule with_tx_steps) (auto dest: delay_tx_step[OF _ assms])
  moreover have "?steps s (snd (complete e c i s))"
    unfolding complete_def tx_error_state by (rule with_tx_steps) (auto dest: complete_tx_step[OF _ assms])
  ultimately show ?thesis by (auto simp: action_def split: sum.splits)
qed

lemma action_steps: "fleet_ok s \<Longrightarrow> dsteps s (snd (action e c i body s))"
  by (rule dsteps_if_mono[OF action_guarded]) simp_all

lemma save_guarded: "dsteps_if D C s (snd (save e j f p s))"
proof -
  have "dsteps_if D C s (snd (with_tx e id id (save_tx e i j f q) s))" for i q
    by (rule with_tx_steps) (auto dest: save_tx_step)
  then show ?thesis by (auto simp: save_def Let_def split: sum.splits)
qed

lemmas save_steps = save_guarded[where D = "\<lambda>_. True" and C = "\<lambda>_. True"]

lemma delivery_op_steps: "fleet_ok s \<Longrightarrow> dsteps s (delivery_op_step op s)"
  by (cases op) (simp_all add: consumer_steps action_steps save_steps)

lemma delivery_run_steps: "fleet_ok s \<Longrightarrow> dsteps s (delivery_run ops s)"
proof (induction ops arbitrary: s)
  case (Cons op ops)
  have "dsteps s (delivery_op_step op s)" using Cons.prems by (rule delivery_op_steps)
  moreover from this Cons.prems have "fleet_ok (delivery_op_step op s)" by (rule dsteps_ok)
  then have "dsteps (delivery_op_step op s) (delivery_run ops (delivery_op_step op s))" by (rule Cons.IH)
  ultimately show ?case by (simp add: delivery_run_def)
qed (simp add: delivery_run_def)

text \<open>A round of the worker is a sequence of saves.\<close>

lemma predict_jobs_run:
  "\<exists>ops. snd (predict_jobs es post ld avail js s) = delivery_run ops s"
proof (induction js arbitrary: s)
  case Nil
  show ?case by (rule exI[of _ "[]"]) (simp add: delivery_run_def)
next
  case (Cons j js)
  let ?f = "features_of ld avail j"
  show ?case
  proof (cases "Predict (es j) (post j) ?f")
    case (Inl err)
    then show ?thesis using Cons.IH by simp
  next
    case (Inr p)
    let ?op = "SaveOp (es j) j ?f p"
    obtain ops where ops: "snd (predict_jobs es post ld avail js (delivery_op_step ?op s)) =
        delivery_run ops (delivery_op_step ?op s)" using Cons.IH by blast
    have one: "delivery_run [?op] s = delivery_op_step ?op s" by (simp add: delivery_run_def)
    show ?thesis
    proof (cases "save (es j) j ?f p s")
      case (Pair r t)
      show ?thesis
      proof (cases r)
        case (Inl err)
        then show ?thesis using Pair \<open>Predict _ _ _ = Inr p\<close> one by (intro exI[of _ "[?op]"]) simp
      next
        case (Inr u)
        then show ?thesis using Pair \<open>Predict _ _ _ = Inr p\<close> ops
          by (intro exI[of _ "?op # ops"]) (simp add: delivery_run_def)
      qed
    qed
  qed
qed

lemma predictMissing_run: "\<exists>ops. snd (predictMissing e es post s) = delivery_run ops s"
proof -
  have "\<exists>ops. s = delivery_run ops s" by (rule exI[of _ "[]"]) (simp add: delivery_run_def)
  then show ?thesis using predict_jobs_run by (auto simp: predictMissing_def)
qed

end
