(* ===== verification/DeliveryInbox.thy ===== *)
theory DeliveryInbox
  imports DeliveryRefine
begin

text \<open>
  The consumer of the delivery service keeps the contract of an inbox: every transaction records
  its event before it does anything else.
\<close>

definition marks :: "envelope \<Rightarrow> deliveries \<Rightarrow> deliveries \<Rightarrow> bool" where
  "marks v s s' \<longleftrightarrow>
     (\<exists>k. uuid_key (EventID v) = Some k \<and>
       (k \<in> set (ds_processed s) \<and> s' = s \<or>
        k \<notin> set (ds_processed s) \<and> ds_processed s' = ds_processed s @ [k]))"

lemma mark_then:
  assumes "mark_processed e (EventID v) (ds_processed s) = Inr (b, seen)"
  shows "if b then ds_processed s' = seen \<longrightarrow> marks v s s' else marks v s s"
  using assms by (auto simp: mark_processed_Inr marks_def split: if_splits)

lemma assign_tx_marks:
  assumes "assign_tx con e c v p cs s = Inr (vd, s')"
  shows "marks v s s'"
proof -
  obtain b seen where m: "mark_processed e (EventID v) (ds_processed s) = Inr (b, seen)"
    using assms by (auto simp: assign_tx_def andthen_Inr)
  then show ?thesis
    using assms mark_then[OF m, of s'] by (auto simp: assign_tx_def andthen_Inr Let_def split: if_splits)
qed

lemma cancel_tx_marks:
  assumes "cancel_tx e c v s = Inr (vd, s')"
  shows "marks v s s'"
proof -
  obtain b seen where m: "mark_processed e (EventID v) (ds_processed s) = Inr (b, seen)"
    using assms by (auto simp: cancel_tx_def andthen_Inr)
  then show ?thesis
    using assms mark_then[OF m, of s']
    by (auto simp: cancel_tx_def andthen_Inr Let_def split: if_splits sum.splits)
qed

lemma phase_update_keeps:
  "phase_update e p c s = Inr s' \<Longrightarrow> ds_processed s' = ds_processed s \<and> ds_predictions s' = ds_predictions s"
  by (auto simp: phase_update_def andthen_Inr Let_def split: if_splits)

lemma applyPhase_keeps: "applyPhase con e p s = Inr s' \<Longrightarrow> ds_processed s' = ds_processed s"
  using phase_update_keeps
  by (fastforce simp: applyPhase_def andthen_Inr Let_def split: if_splits sum.splits)

lemma location_tx_marks:
  assumes "location_tx con e v p s = Inr (vd, s')"
  shows "marks v s s' \<and> (ds_processed s' = ds_processed s \<longrightarrow> vd = Commit False)"
proof -
  obtain b seen where m: "mark_processed e (EventID v) (ds_processed s) = Inr (b, seen)"
    using assms by (auto simp: location_tx_def andthen_Inr)
  show ?thesis
  proof (cases b)
    case True
    have "ds_processed s' = seen"
      using assms m True applyPhase_keeps
      by (fastforce simp: location_tx_def andthen_Inr Let_def split: if_splits)
    then show ?thesis using mark_then[OF m, of s'] True m by (auto simp: mark_processed_Inr split: if_splits)
  next
    case False
    then show ?thesis using assms m mark_then[OF m] by (simp add: location_tx_def)
  qed
qed

lemma with_tx_marks:
  assumes "with_tx e b c body s = (r, t)" and "\<And>vd t. body s = Inr (vd, t) \<Longrightarrow> marks v s t"
  shows "t = s \<or> marks v s t"
  using assms by (auto elim!: with_tx_cases)

text \<open>A call that changes the state has recorded the event it was called with.\<close>

lemma updateLocation_marks:
  assumes "updateLocation con e v p s = (r, t)"
  shows "t = s \<or> marks v s t"
proof -
  obtain x t0 where w: "with_tx e id id (location_tx con e v p) s = (x, t0)" by fastforce
  have m: "t0 = s \<or> marks v s t0" using with_tx_marks[OF w] location_tx_marks by blast
  show ?thesis
  proof (cases "x = Inr (Commit True)")
    case True
    then have "location_tx con e v p s = Inr (Commit True, t0)" using w by (simp add: with_tx_Commit)
    then have "marks v s t0" "ds_processed t0 \<noteq> ds_processed s" using location_tx_marks by blast+
    moreover have "ds_processed t = ds_processed t0" using assms w True by (auto simp: updateLocation_def)
    ultimately show ?thesis by (auto simp: marks_def)
  next
    case False
    then have "t = t0" using assms w by (auto simp: updateLocation_def split: sum.splits verdict.splits bool.splits)
    then show ?thesis using m by simp
  qed
qed

lemma assign_marks: "assign con e c v p s = (r, t) \<Longrightarrow> t = s \<or> marks v s t"
proof -
  have "snd (with_tx e id id (assign_tx con e c v q cs) s) = s \<or>
      marks v s (snd (with_tx e id id (assign_tx con e c v q cs) s))" for q cs
    using with_tx_marks[of e id id "assign_tx con e c v q cs" s] assign_tx_marks by (metis prod.collapse)
  then have "snd (assign con e c v p s) = s \<or> marks v s (snd (assign con e c v p s))"
    by (simp add: assign_def Let_def)
  then show "assign con e c v p s = (r, t) \<Longrightarrow> t = s \<or> marks v s t" by simp
qed

lemma cancel_marks: "cancel e c v s = (r, t) \<Longrightarrow> t = s \<or> marks v s t"
proof -
  have "snd (with_tx e id id (cancel_tx e c v) s) = s \<or> marks v s (snd (with_tx e id id (cancel_tx e c v) s))"
    using with_tx_marks[of e id id "cancel_tx e c v" s] cancel_tx_marks by (metis prod.collapse)
  then have "snd (cancel e c v s) = s \<or> marks v s (snd (cancel e c v s))"
    by (simp add: cancel_def)
  then show "cancel e c v s = (r, t) \<Longrightarrow> t = s \<or> marks v s t" by simp
qed

lemma handle_event_marks:
  assumes "handle_event con e bytes s = (r, t)"
  shows "t = s \<or> (\<exists>v. Unmarshal bytes = Inr v \<and> marks v s t)"
proof (cases "Unmarshal bytes")
  case (Inr v)
  then have "t = s \<or> marks v s t"
    using assms assign_marks cancel_marks updateLocation_marks
    by (auto simp: handle_event_def Let_def split: sum.splits if_splits)
  then show ?thesis using Inr by blast
qed (use assms in \<open>simp add: handle_event_def\<close>)

lemma handle_event_atomic:
  assumes "handle_event con e bytes s = (Inl err, t)" and "commit_of e \<noteq> CommitLost"
  shows "t = s"
proof (cases "Unmarshal bytes")
  case (Inr v)
  have tx: "tx_error (with_tx e id id body s) = (Inl err, t) \<Longrightarrow> t = s"
    for body :: "deliveries \<Rightarrow> go_error + unit verdict \<times> deliveries"
    using with_tx_error[OF _ assms(2)] by (auto simp: tx_error_def split: prod.splits sum.splits)
  have "updateLocation con e v p s = (Inl err, t) \<Longrightarrow> t = s" for p
    using with_tx_error[OF _ assms(2)]
    by (auto simp: updateLocation_def split: prod.splits sum.splits verdict.splits bool.splits)
  then show ?thesis using assms(1) Inr tx
    by (auto simp: handle_event_def assign_def cancel_def Let_def split: sum.splits if_splits)
qed (use assms in \<open>simp add: handle_event_def\<close>)

lemma handle_event_marks_snd:
  "snd (handle_event con e bytes s) = s \<or>
     (\<exists>v. Unmarshal bytes = Inr v \<and> marks v s (snd (handle_event con e bytes s)))"
  using handle_event_marks by (metis prod.collapse)

interpretation db: inbox "handle_event con" "\<lambda>s. set (ds_processed s)" for con
proof unfold_locales
  fix v k e and s :: deliveries
  assume "event_key v = Some k" "k \<in> set (ds_processed s)"
  then show "snd (handle_event con e v s) = s"
    using handle_event_marks_snd[of con e v s] by (auto simp: event_key_def marks_def split: sum.splits)
next
  fix e v and s :: deliveries
  assume "snd (handle_event con e v s) \<noteq> s"
  then show "\<exists>k. event_key v = Some k \<and> k \<in> set (ds_processed (snd (handle_event con e v s)))"
    using handle_event_marks_snd[of con e v s] by (auto simp: event_key_def marks_def)
next
  fix e v and s :: deliveries
  show "set (ds_processed s) \<subseteq> set (ds_processed (snd (handle_event con e v s)))"
    using handle_event_marks_snd[of con e v s] by (auto simp: marks_def)
qed (rule handle_event_atomic)

end
