(* ===== verification/DeliveryChecks.thy ===== *)
theory DeliveryChecks
  imports DeliveryRefine
begin

text \<open>
  The CHECK constraints of the delivery schema as an invariant of the service, and the numbers the
  forecasts are made from.
\<close>

section \<open>Constraints\<close>

definition delivery_checks :: "delivery_row \<Rightarrow> bool" where
  "delivery_checks d \<longleftrightarrow> 0 \<le> dr_delay d \<and> dr_delay d \<le> 600 \<and> (\<forall>x. dr_eta d = Some x \<longrightarrow> 0 < x)"

definition prediction_checks :: "prediction_row \<Rightarrow> bool" where
  "prediction_checks p \<longleftrightarrow> prediction_ok p \<and> (\<forall>x. pr_actual p = Some x \<longrightarrow> 0 \<le> x)"

definition checks_ok :: "deliveries \<Rightarrow> bool" where
  "checks_ok s \<longleftrightarrow> (\<forall>d \<in> set (ds_deliveries s). delivery_checks d) \<and>
     distinct (map stage_key (ds_predictions s)) \<and> (\<forall>p \<in> set (ds_predictions s). prediction_checks p)"

lemma checks_row_update:
  assumes "\<forall>d \<in> set rows. delivery_checks d" and "\<And>d. delivery_checks d \<Longrightarrow> delivery_checks (f d)"
  shows "\<forall>d \<in> set (row_update dr_id k f rows). delivery_checks d"
  using assms by (auto simp: set_row_update)

lemma set_delivery_checks:
  assumes "set_delivery e lbl i f rows = Inr rows'" and "\<forall>d \<in> set rows. delivery_checks d"
    and "\<And>d. dr_delay (f d) = dr_delay d \<and> dr_eta (f d) = dr_eta d"
  shows "\<forall>d \<in> set rows'. delivery_checks d"
proof -
  obtain k where "rows' = row_update dr_id k f rows" using set_delivery_Inr[OF assms(1)] by blast
  then show ?thesis using checks_row_update[OF assms(2), of f k] assms(3) by (simp add: delivery_checks_def)
qed

lemma record_actual_checks:
  assumes "record_actual e i t rows = Inr rows'" and "\<forall>p \<in> set rows. prediction_checks p"
  shows "map stage_key rows' = map stage_key rows \<and> (\<forall>p \<in> set rows'. prediction_checks p)"
proof -
  obtain k where rows': "rows' = map (\<lambda>p. if pr_delivery p = k
      then p\<lparr>pr_actual := ok (actual_of (pg_time t) p), pr_completed := Some (pg_time t)\<rparr> else p) rows"
    using assms(1) by (auto simp: record_actual_def andthen_Inr split: if_splits)
  have "prediction_checks (p\<lparr>pr_actual := ok (actual_of (pg_time t) p), pr_completed := c\<rparr>)"
    if "prediction_checks p" for p c
    using that by (auto simp: prediction_checks_def prediction_ok_def actual_of_def ok_def andthen_Inr split: sum.splits)
  then show ?thesis using assms(2) by (auto simp: rows')
qed

lemma phase_update_checks:
  assumes "phase_update e p c s = Inr s'" and "checks_ok s"
  shows "checks_ok s'"
  using assms
  by (auto simp: phase_update_def andthen_Inr Let_def checks_ok_def split: if_splits
      dest!: set_delivery_checks)

lemma applyPhase_checks:
  assumes "applyPhase con e p s = Inr s'" and "checks_ok s"
  shows "checks_ok s'"
  using assms(1)
proof (cases rule: applyPhase_cases)
  case (phase d s1 ob)
  then show ?thesis using phase_update_checks[OF phase(3) assms(2)] by (simp add: checks_ok_def)
next
  case (completed d s1 extra preds ob)
  have c: "checks_ok s1" using phase_update_checks[OF completed(3) assms(2)] .
  have "record_actual e (lp_delivery p) (lp_recorded p) (ds_predictions s1) = Inr preds"
    using completed(4) by (auto simp: completion_def andthen_Inr Let_def split: option.splits)
  then show ?thesis using c completed(5) record_actual_checks by (simp add: checks_ok_def)
qed (use assms in simp)

lemma location_tx_checks:
  assumes "location_tx con e v p s = Inr (vd, s')" and "checks_ok s"
  shows "checks_ok s'"
proof -
  obtain b seen where m: "mark_processed e (EventID v) (ds_processed s) = Inr (b, seen)"
    using assms by (auto simp: location_tx_def andthen_Inr)
  have c: "checks_ok (s\<lparr>ds_processed := seen\<rparr>)"
      "checks_ok (s\<lparr>ds_processed := seen, ds_couriers := x\<rparr>)" for x
    using assms(2) by (simp_all add: checks_ok_def)
  show ?thesis
    using assms m c applyPhase_checks by (auto simp: location_tx_def andthen_Inr Let_def split: if_splits)
qed

lemma cancel_tx_checks:
  assumes "cancel_tx e c v s = Inr (vd, s')" and "checks_ok s"
  shows "checks_ok s'"
  using assms
  by (auto simp: cancel_tx_def andthen_Inr Let_def checks_ok_def split: if_splits sum.splits
      dest!: set_delivery_checks)

lemma assign_tx_checks:
  assumes "assign_tx con e c v p cs s = Inr (vd, s')" and "checks_ok s"
  shows "checks_ok s'"
  using assms(1)
proof (cases rule: assign_tx_cases)
  case (assigned d)
  then show ?thesis using assms(2)
    by (auto simp: checks_ok_def assigned_to_def delivery_checks_def)
qed (use assms in simp)

lemma delay_tx_checks:
  assumes "delay_tx e c i s = Inr (vd, s')" and "checks_ok s"
  shows "checks_ok s'"
proof -
  obtain dels ob where u: "exec_update e ''delay delivery'' dr_id i delay_row_ok (delay_row (clock e ''now''))
      (ds_deliveries s) = Inr dels" "s' = s\<lparr>ds_deliveries := dels, ds_outbox := ob\<rparr>"
    using assms(1) by (auto simp: delay_tx_def andthen_Inr split: if_splits)
  obtain k where k: "dels = row_update dr_id k (delay_row (clock e ''now'')) (ds_deliveries s)"
    using u(1) by (auto simp: exec_update_Inr)
  have "\<forall>d \<in> set dels. delivery_checks d" unfolding k
    by (rule checks_row_update) (use assms(2) in \<open>auto simp: checks_ok_def delivery_checks_def delay_row_def\<close>)
  then show ?thesis using u(2) assms(2) by (simp add: checks_ok_def)
qed

lemma complete_tx_checks:
  assumes "complete_tx e c i s = Inr (vd, s')" and "checks_ok s"
  shows "checks_ok s'"
proof -
  let ?f = "\<lambda>r. r\<lparr>dr_status := ''completed'', dr_completed := Some (pg_time (clock e ''now''))\<rparr>"
  obtain dels crs preds ob where
    u: "set_delivery e ''complete delivery'' i ?f (ds_deliveries s) = Inr dels"
      "record_actual e i (clock e ''now'') (ds_predictions s) = Inr preds" and
    s': "s' = s\<lparr>ds_deliveries := dels, ds_couriers := crs, ds_predictions := preds, ds_outbox := ob\<rparr>"
    using assms(1) by (auto simp: complete_tx_def andthen_Inr Let_def split: if_splits)
  have "\<forall>d \<in> set dels. delivery_checks d"
    using set_delivery_checks[OF u(1)] assms(2) by (simp add: checks_ok_def)
  then show ?thesis using record_actual_checks[OF u(2)] assms(2) s' by (simp add: checks_ok_def)
qed

lemma forecast_row_Inr:
  assumes "forecast_row i o_id j f p d = Inr row"
  shows "pr_predicted row = ep_seconds p \<and> pr_id row = i \<and> pr_delivery row = dr_id d \<and>
    pr_stage row = pj_stage j \<and> (\<forall>x. pr_actual row = Some x \<longrightarrow> 0 \<le> x)"
  using assms by (auto simp: forecast_row_def andthen_Inr int4_Inr split: option.splits)

lemma insert_prediction_cases:
  assumes "insert_prediction e i j f p s = Inr (b, preds)"
  obtains (same) "\<not> b" "preds = ds_predictions s"
  | (new) row where "b" "preds = ds_predictions s @ [row]" "prediction_ok row"
      "stage_key row \<notin> stage_key ` set (ds_predictions s)" "pr_predicted row = ep_seconds p"
      "\<forall>x. pr_actual row = Some x \<longrightarrow> 0 \<le> x"
proof -
  from assms obtain i' k oid where "(case row_find dr_id k (ds_deliveries s) of
      None \<Rightarrow> Inr (False, ds_predictions s)
    | Some d \<Rightarrow> andthen (forecast_row i' oid j f p d) (\<lambda>row.
        if \<not> prediction_ok row then Inl CallFailed
        else if row_find stage_key (stage_key row) (ds_predictions s) \<noteq> None
        then Inr (False, ds_predictions s)
        else andthen (row_insert pr_id row (ds_predictions s)) (\<lambda>rows. Inr (True, rows)))) = Inr (b, preds)"
    by (auto simp: insert_prediction_def andthen_Inr[of "io e lbl" for lbl] andthen_Inr[of "as_uuid x" for x])
  then show ?thesis
    using same new
    by (auto simp: andthen_Inr row_insert_Inr row_find_None_iff split: option.splits if_splits
        dest!: forecast_row_Inr)
qed

lemma insert_prediction_checks:
  assumes "insert_prediction e i j f p s = Inr (b, preds)" and "checks_ok s"
  shows "distinct (map stage_key preds) \<and> (\<forall>q \<in> set preds. prediction_checks q) \<and> (b \<longrightarrow> 0 < ep_seconds p)"
proof -
  from assms(1) show ?thesis
  proof (cases rule: insert_prediction_cases)
    case same
    then show ?thesis using assms(2) by (simp add: checks_ok_def)
  next
    case (new row)
    then show ?thesis using assms(2)
      by (auto simp: checks_ok_def prediction_checks_def prediction_ok_def)
  qed
qed

lemma save_tx_checks:
  assumes "save_tx e i j f p s = Inr (vd, s')" and "checks_ok s"
  shows "checks_ok s'"
proof -
  obtain b preds where i: "insert_prediction e i j f p s = Inr (b, preds)"
    using assms by (auto simp: save_tx_def andthen_Inr)
  note ip = insert_prediction_checks[OF i assms(2)]
  let ?g = "\<lambda>d. d\<lparr>dr_eta := Some (ep_seconds p), dr_model := Some (ep_model p), dr_eta_at := Some (pg_time (ep_computed p))\<rparr>"
  show ?thesis
  proof (cases b)
    case True
    then obtain k where s': "s' = s\<lparr>ds_predictions := preds, ds_deliveries := row_update dr_id k ?g (ds_deliveries s)\<rparr>"
      using assms i by (auto simp: save_tx_def andthen_Inr Let_def exec_update_Inr)
    have "\<forall>d \<in> set (row_update dr_id k ?g (ds_deliveries s)). delivery_checks d"
      by (rule checks_row_update) (use assms(2) ip True in \<open>auto simp: checks_ok_def delivery_checks_def\<close>)
    then show ?thesis using ip s' by (simp add: checks_ok_def)
  next
    case False
    then show ?thesis using assms i ip by (auto simp: save_tx_def andthen_Inr checks_ok_def)
  qed
qed

lemma with_tx_checks:
  assumes "checks_ok s" and "\<And>vd t. body s = Inr (vd, t) \<Longrightarrow> checks_ok t"
  shows "checks_ok (snd (with_tx e b c body s))"
proof -
  obtain r t where w: "with_tx e b c body s = (r, t)" by fastforce
  then show ?thesis using assms by (auto elim: with_tx_cases)
qed

lemma delivery_op_checks:
  assumes "checks_ok s"
  shows "checks_ok (delivery_op_step op s)"
proof (cases op)
  case (ConsumeOp con e v)
  have a: "checks_ok (snd (assign con e c m p s))" for c m p
    using with_tx_checks[OF assms, of "assign_tx con e c m q cs" e id id for q cs] assign_tx_checks assms
    by (simp add: assign_def Let_def)
  have c: "checks_ok (snd (cancel e c m s))" for c m
    using with_tx_checks[OF assms, of "cancel_tx e c m" e id id] cancel_tx_checks assms by (simp add: cancel_def)
  have l: "checks_ok (snd (updateLocation con e m p s))" for m p
  proof -
    obtain r t where w: "with_tx e id id (location_tx con e m p) s = (r, t)" by fastforce
    have "checks_ok t" using with_tx_checks[OF assms, of "location_tx con e m p" e id id] location_tx_checks assms w
      by (metis snd_conv)
    then have "checks_ok t" "checks_ok (t\<lparr>ds_geo := g\<rparr>)" for g by (simp_all add: checks_ok_def)
    then show ?thesis using w by (auto simp: updateLocation_def split: sum.splits verdict.splits bool.splits)
  qed
  show ?thesis using ConsumeOp a c l assms by (auto simp: handle_event_def Let_def split: sum.splits)
next
  case (ActionOp e c i body)
  have "checks_ok (snd (delay e c i s))"
    using with_tx_checks[OF assms, of "delay_tx e c i" e id id] delay_tx_checks assms by (simp add: delay_def)
  moreover have "checks_ok (snd (complete e c i s))"
    using with_tx_checks[OF assms, of "complete_tx e c i" e id id] complete_tx_checks assms by (simp add: complete_def)
  ultimately show ?thesis using ActionOp assms by (auto simp: action_def split: sum.splits)
next
  case (SaveOp e j f p)
  have "checks_ok (snd (with_tx e id id (save_tx e i j f q) s))" for i q
    by (rule with_tx_checks[OF assms]) (rule save_tx_checks[OF _ assms])
  then show ?thesis using SaveOp assms by (auto simp: save_def Let_def split: sum.splits)
qed

lemma delivery_run_checks: "checks_ok s \<Longrightarrow> checks_ok (delivery_run ops s)"
  by (induction ops arbitrary: s) (simp_all add: delivery_run_def delivery_op_checks)

end
