(* ===== verification/DeliveryProps.thy ===== *)
theory DeliveryProps
  imports DeliveryInbox DeliveryChecks
begin

text \<open>
  The properties of the delivery service: the fleet stays consistent, deliveries only move
  forward, the nearest available courier is chosen, positions follow their sequence numbers,
  events take effect at most once, and the forecasts satisfy the constraints of their table.
\<close>

section \<open>What one step keeps\<close>

definition delivery_moves :: "string \<Rightarrow> string \<Rightarrow> bool" where
  "delivery_moves a b \<longleftrightarrow> phase_next a b \<or> \<not> terminal a \<and> terminal b"

lemma row_find_same:
  assumes "map (\<lambda>d. (trip_data d, dr_status d)) xs = map (\<lambda>d. (trip_data d, dr_status d)) ys"
    and "row_find dr_id k ys = Some d"
  shows "\<exists>d'. row_find dr_id k xs = Some d' \<and> trip_data d' = trip_data d \<and> dr_status d' = dr_status d"
  using assms
proof (induction ys arbitrary: xs)
  case (Cons y ys)
  then obtain x zs where x: "xs = x # zs" "trip_data x = trip_data y" "dr_status x = dr_status y"
      "map (\<lambda>d. (trip_data d, dr_status d)) zs = map (\<lambda>d. (trip_data d, dr_status d)) ys" by auto
  then show ?case using Cons.prems Cons.IH[of zs] trip_dataD(1)[OF x(2)] by (auto split: if_splits)
qed simp

definition carried :: "delivery_row \<Rightarrow> delivery_row \<Rightarrow> bool" where
  "carried d d' \<longleftrightarrow> trip_data d' = trip_data d \<and> delivery_moves\<^sup>*\<^sup>* (dr_status d) (dr_status d')"

lemma carried_update:
  assumes "row_find dr_id k rows = Some d" and "delivery_moves (dr_status d) st"
    and "\<And>x. trip_data (f x) = trip_data x \<and> dr_status (f x) = st" and "row_find dr_id j rows = Some x"
  shows "\<exists>x'. row_find dr_id j (row_update dr_id k f rows) = Some x' \<and> carried x x'"
proof -
  have "dr_id (f y) = dr_id y" for y using trip_dataD(1)[of "f y" y] assms(3) by simp
  note u = row_find_update[of dr_id f, OF this]
  show ?thesis
  proof (cases "j = k")
    case True
    then show ?thesis using u assms by (auto simp: carried_def)
  next
    case False
    then show ?thesis using u assms(4) by (auto simp: carried_def)
  qed
qed

lemma dstep_carried:
  assumes "dstep s s'" and "row_find dr_id k (ds_deliveries s) = Some d"
  shows "\<exists>d'. row_find dr_id k (ds_deliveries s') = Some d' \<and> carried d d'"
  using assms
proof (cases rule: dstep_if.cases)
  case rest
  then show ?thesis using row_find_same[OF rest(2) assms(2)] by (auto simp: carried_def)
next
  case (advance j d' st f)
  then show ?thesis
    using carried_update[OF advance(1) _ advance(3) assms(2)] by (simp add: delivery_moves_def)
next
  case (close j d' st f)
  then show ?thesis
    using carried_update[OF close(1) _ close(4) assms(2)] by (simp add: delivery_moves_def)
qed (auto simp: carried_def)

lemma carried_trans: "carried a b \<Longrightarrow> carried b c \<Longrightarrow> carried a c"
  by (auto simp: carried_def)

lemma dsteps_carried:
  assumes "dsteps s s'" and "row_find dr_id k (ds_deliveries s) = Some d"
  shows "\<exists>d'. row_find dr_id k (ds_deliveries s') = Some d' \<and> carried d d'"
  using assms
proof (induction rule: rtranclp_induct)
  case base
  then show ?case by (auto simp: carried_def)
next
  case (step t u)
  then show ?case using dstep_carried carried_trans by blast
qed

lemma terminal_final: "delivery_moves\<^sup>*\<^sup>* a b \<Longrightarrow> terminal a \<Longrightarrow> b = a"
  by (induction rule: rtranclp_induct) (auto simp: delivery_moves_def dest: phase_next_open)

text \<open>Positions: a courier's row is replaced only by one with a later sequence number.\<close>

definition later :: "courier_row \<Rightarrow> courier_row \<Rightarrow> bool" where
  "later r r' \<longleftrightarrow> cr_name r' = cr_name r \<and> cr_sequence r \<le> cr_sequence r' \<and>
     (cr_sequence r' = cr_sequence r \<longrightarrow> cr_lat r' = cr_lat r \<and> cr_lon r' = cr_lon r \<and> cr_seen r' = cr_seen r)"

lemma later_refl [simp]: "later r r"
  by (simp add: later_def)

lemma later_trans: "later a b \<Longrightarrow> later b c \<Longrightarrow> later a c"
  by (auto simp: later_def)

lemma later_status [simp]: "later r (r\<lparr>cr_status := st\<rparr>)"
  by (simp add: later_def)

lemma dstep_later:
  assumes "dstep s s'" and "row_find cr_id k (ds_couriers s) = Some r"
  shows "\<exists>r'. row_find cr_id k (ds_couriers s') = Some r' \<and> later r r'"
  using assms
proof (cases rule: dstep_if.cases)
  case (locate j x n lat lon t)
  then show ?thesis using assms(2) by (cases "k = j") (auto simp: row_find_update later_def)
next
  case (dispatch d x)
  then show ?thesis using assms(2) by (cases "k = dr_courier d") (auto simp: row_find_update)
next
  case (close j d st f)
  then show ?thesis using assms(2) by (cases "k = dr_courier d") (auto simp: row_find_update)
qed auto

lemma dsteps_later:
  assumes "dsteps s s'" and "row_find cr_id k (ds_couriers s) = Some r"
  shows "\<exists>r'. row_find cr_id k (ds_couriers s') = Some r' \<and> later r r'"
  using assms
proof (induction rule: rtranclp_induct)
  case (step t u)
  then show ?case using dstep_later later_trans by blast
qed auto

lemma distinct_count:
  assumes "distinct (map f xs)"
  shows "length (filter (\<lambda>x. f x = k) xs) = (if k \<in> f ` set xs then 1 else 0)"
  using assms by (induction xs) (auto simp: filter_empty_conv)

section \<open>A sample fleet\<close>

definition courier_1 :: string where "courier_1 = ''40000000-0000-4000-8000-000000000001''"
definition courier_2 :: string where "courier_2 = ''40000000-0000-4000-8000-000000000002''"
definition order_a :: string where "order_a = ''30000000-0000-4000-8000-00000000000a''"
definition order_b :: string where "order_b = ''30000000-0000-4000-8000-00000000000b''"
definition delivery_a :: string where "delivery_a = ''60000000-0000-4000-8000-00000000000a''"

definition courier_of :: "string \<Rightarrow> string \<Rightarrow> courier_row" where
  "courier_of i st = \<lparr>cr_id = i, cr_name = i, cr_status = st, cr_lat = 0, cr_lon = 0, cr_sequence = 3, cr_seen = 0\<rparr>"

definition trip_a :: delivery_row where
  "trip_a = \<lparr>dr_id = delivery_a, dr_order = order_a, dr_courier = courier_1, dr_status = ''assigned'',
     dr_pickup_lat = 0, dr_pickup_lon = 0, dr_dest_lat = 0, dr_dest_lon = 1, dr_correlation = [],
     dr_assigned = 0, dr_started = None, dr_completed = None, dr_items = 1, dr_eta = None,
     dr_model = None, dr_eta_at = None, dr_trace = [], dr_span = [], dr_delay = 0\<rparr>"

definition fleet_db :: deliveries where
  "fleet_db = \<lparr>ds_couriers = [courier_of courier_1 ''assigned'', courier_of courier_2 ''available''],
     ds_deliveries = [trip_a], ds_predictions = [], ds_processed = [], ds_outbox = [],
     ds_geo = [(courier_1, 0, 0), (courier_2, 0, 1)]\<rparr>"

definition sample_dispatcher :: dispatcher where
  "sample_dispatcher = \<lparr>pickup_lat = 0, pickup_lon = 0, geo_search = (\<lambda>g _ _. map fst g), span_of = (\<lambda>_. None)\<rparr>"

lemma fleet_db_ok: "fleet_ok fleet_db"
proof -
  have u: "uuid_key delivery_a = Some delivery_a" "uuid_key courier_1 = Some courier_1"
      "uuid_key order_a = Some order_a"
    by code_simp+
  have ne: "courier_1 \<noteq> courier_2" by code_simp
  show ?thesis
    using u ne by (auto simp: fleet_ok_def fleet_db_def working_def active_def terminal_def trip_a_def
        courier_of_def regular_def keyed_def delivery_statuses_def)
qed

lemma fleet_db_checks: "checks_ok fleet_db"
  by (simp add: checks_ok_def fleet_db_def trip_a_def delivery_checks_def)

section \<open>Properties\<close>

text \<open>
  C27 The fleet stays consistent along any history of events, operators' actions and forecasts,
  whatever fails: a courier is marked assigned exactly when one delivery is active for them and
  never has two, an order has at most one delivery, and the operators' list shows every courier
  once, by name in the order of the database's collation.
\<close>

theorem fleet_stays_consistent:
  assumes "fleet_ok s"
  shows "(\<forall>c \<in> set (ds_couriers (delivery_run ops s)).
      length (filter (\<lambda>d. dr_courier d = cr_id c) (active (ds_deliveries (delivery_run ops s)))) =
        (if cr_status c = ''assigned'' then 1 else 0)) \<and>
    length (filter (\<lambda>d. dr_order d = k) (ds_deliveries (delivery_run ops s))) \<le> 1 \<and>
    map fst (courier_list collate (delivery_run ops s)) =
      sort_key (\<lambda>c. collate (cr_name c)) (ds_couriers (delivery_run ops s))"
proof -
  let ?t = "delivery_run ops s"
  have ok: "fleet_ok ?t" using delivery_run_steps[OF assms] assms by (rule dsteps_ok)
  have one: "\<forall>c \<in> set (ds_couriers ?t). length (filter (\<lambda>d. dr_courier d = cr_id c) (active (ds_deliveries ?t))) =
      (if cr_status c = ''assigned'' then 1 else 0)"
    using ok distinct_count[of dr_courier "active (ds_deliveries ?t)"] by (auto simp: fleet_ok_def working_def)
  have two: "length (filter (\<lambda>d. dr_order d = k) (ds_deliveries ?t)) \<le> 1"
    using ok distinct_count[of dr_order "ds_deliveries ?t" k] by (auto simp: fleet_ok_def)
  have row: "map fst (case filter (\<lambda>d. dr_courier d = cr_id c) (active (ds_deliveries ?t)) of
      [] \<Rightarrow> [(c, None)] | ds \<Rightarrow> map (\<lambda>d. (c, Some d)) ds) = [c]" if "c \<in> set (ds_couriers ?t)" for c
    using one that by (auto simp: length_Suc_conv split: list.splits if_splits)
  have "map fst (concat (map (\<lambda>c. case filter (\<lambda>d. dr_courier d = cr_id c) (active (ds_deliveries ?t)) of
      [] \<Rightarrow> [(c, None)] | ds \<Rightarrow> map (\<lambda>d. (c, Some d)) ds) cs)) = cs" if "set cs \<subseteq> set (ds_couriers ?t)" for cs
    using that row by (induction cs) auto
  from this[of "sort_key (\<lambda>c. collate (cr_name c)) (ds_couriers ?t)"]
  have "map fst (courier_list collate ?t) = sort_key (\<lambda>c. collate (cr_name c)) (ds_couriers ?t)"
    by (simp add: courier_list_def)
  then show ?thesis using one two by blast
qed

definition event_of :: "string \<Rightarrow> string \<Rightarrow> json \<Rightarrow> json option" where
  "event_of ty agg payload = Some (JObj
     [(''event_id'', JStr agg), (''event_type'', JStr ty), (''aggregate_id'', JStr agg), (''payload'', payload)])"

definition created_b :: "json option" where
  "created_b = event_of ''order.created'' order_b (JObj [(''order_id'', JStr order_b), (''item_count'', JInt 2)])"

definition order_event_b :: envelope where
  "order_event_b = \<lparr>EventID = order_b, EventType = ''order.created'', EventVersion = 1, OccurredAt = 0,
     Producer = [], CorrelationID = [], TraceID = [], SpanID = [], AggregateID = order_b, Payload = None\<rparr>"

definition payload_b :: order_created where
  "payload_b = \<lparr>oc_order = order_b, oc_lat = 0, oc_lon = 0, oc_items = 2\<rparr>"

definition no_ctx :: ctx where "no_ctx = \<lparr>ctx_correlation = [], ctx_span = None\<rparr>"

theorem fleet_stays_consistent_witness:
  "length (ds_deliveries (delivery_run [ConsumeOp sample_dispatcher quiet_env created_b] fleet_db)) = 2 \<and>
   length (filter (\<lambda>d. dr_order d = order_b)
     (ds_deliveries (delivery_run [ConsumeOp sample_dispatcher quiet_env created_b] fleet_db))) \<le> 1"
proof
  show "length (ds_deliveries (delivery_run [ConsumeOp sample_dispatcher quiet_env created_b] fleet_db)) = 2"
    by code_simp
qed (use fleet_stays_consistent[OF fleet_db_ok] in blast)

text \<open>
  C28 Deliveries only move forward: along any history a delivery keeps its order, courier, route
  and origin, its status follows the phases one by one until it ends, and a completed or cancelled
  delivery stays so.
\<close>

theorem deliveries_move_forward:
  assumes "fleet_ok s" and "row_find dr_id k (ds_deliveries s) = Some d"
  shows "\<exists>d'. row_find dr_id k (ds_deliveries (delivery_run ops s)) = Some d' \<and> trip_data d' = trip_data d \<and>
    delivery_moves\<^sup>*\<^sup>* (dr_status d) (dr_status d') \<and> (terminal (dr_status d) \<longrightarrow> dr_status d' = dr_status d)"
proof -
  obtain d' where "row_find dr_id k (ds_deliveries (delivery_run ops s)) = Some d'" "carried d d'"
    using dsteps_carried[OF delivery_run_steps[OF assms(1)] assms(2)] by blast
  then show ?thesis using terminal_final[of "dr_status d" "dr_status d'"] by (simp add: carried_def)
qed

theorem deliveries_move_forward_witness:
  "\<exists>d'. row_find dr_id delivery_a
      (ds_deliveries (delivery_run [ConsumeOp sample_dispatcher quiet_env
         (event_of ''order.cancelled'' order_a (JObj []))] fleet_db)) = Some d' \<and>
    trip_data d' = trip_data trip_a \<and> delivery_moves\<^sup>*\<^sup>* (dr_status trip_a) (dr_status d') \<and>
    (terminal (dr_status trip_a) \<longrightarrow> dr_status d' = dr_status trip_a)"
  by (rule deliveries_move_forward[OF fleet_db_ok]) (simp add: fleet_db_def trip_a_def)

text \<open>
  What an assignment does: one new delivery, of the order to its place, by the nearest available
  candidate; that courier and nobody else marked; the event recorded as processed, and one event in
  the outbox that tells who was assigned.
\<close>

definition dispatched :: "envelope \<Rightarrow> order_created \<Rightarrow> string list \<Rightarrow> deliveries \<Rightarrow> deliveries \<Rightarrow> bool" where
  "dispatched v p cs s s' \<longleftrightarrow> (\<exists>d x ev y did t.
     ds_deliveries s' = ds_deliveries s @ [d] \<and> dr_status d = ''assigned'' \<and>
     uuid_key (oc_order p) = Some (dr_order d) \<and> dr_dest_lat d = oc_lat p \<and> dr_dest_lon d = oc_lon p \<and>
     nearest (ds_couriers s) cs x \<and> uuid_key x = Some (dr_courier d) \<and>
     ds_couriers s' = row_update cr_id (dr_courier d) busy (ds_couriers s) \<and>
     ds_processed s' = ds_processed s @ [the (uuid_key (EventID v))] \<and>
     ds_outbox s' = ds_outbox s @ [ev] \<and> uuid_key y = Some (dr_courier d) \<and>
     delivery_says ev ''delivery.assigned'' (dr_order d) (assigned_payload did (oc_order p) y t))"

definition seen_before :: "envelope \<Rightarrow> deliveries \<Rightarrow> bool" where
  "seen_before v s \<longleftrightarrow> the (uuid_key (EventID v)) \<in> set (ds_processed s)"

text \<open>
  C29 Dispatch: assigning an order succeeds only for an event processed before, and then changes
  nothing, or by dispatching it: the nearest available courier that Redis reports, exactly one new
  delivery, that courier and nobody else marked, the event recorded and one delivery.assigned event
  written. An error leaves everything as it was, unless only the answer to the commit was lost. When
  none of the candidates is available, or Redis does not answer (there is no fallback to the
  positions in PostgreSQL, see the findings), a new event is an error, so that it is retried.
\<close>

theorem assign_takes_nearest:
  assumes "assign con e c v p s = (res, s')"
    and "cs = geo_search con (ds_geo s) (pickup_lat con) (pickup_lon con)"
  shows "(case res of
      Inr _ \<Rightarrow> if seen_before v s then s' = s else dispatched v p cs s s'
    | Inl _ \<Rightarrow> s' = s \<or> commit_of e = CommitLost \<and> \<not> seen_before v s \<and> dispatched v p cs s s') \<and>
    (fails e ''geo search'' \<longrightarrow> res = Inl (Wrapped ''find nearest couriers'' CallFailed) \<and> s' = s) \<and>
    (list_all (unavailable (ds_couriers s)) cs \<and> uuid_key (EventID v) \<noteq> None \<and> \<not> seen_before v s \<longrightarrow>
       \<not> is_ok res \<and> s' = s)"
proof -
  define q where "q = (if oc_items p < 1 then p\<lparr>oc_items := 1\<rparr> else p)"
  have oq: "oc_order q = oc_order p" "oc_lat q = oc_lat p" "oc_lon q = oc_lon p" by (simp_all add: q_def)
  have none: "dispatched v p cs s t \<Longrightarrow> \<not> list_all (unavailable (ds_couriers s)) cs" for t
    by (auto simp: dispatched_def nearest_def unavailable_def)
  show ?thesis
  proof (cases "fails e ''geo search'' \<or> cs = []")
    case True
    then show ?thesis using assms by (auto simp: assign_def Let_def split: if_splits)
  next
    case False
    let ?body = "assign_tx con e c v q cs"
    have r: "(res, s') = tx_error (with_tx e id id ?body s)"
      using assms False by (simp add: assign_def Let_def q_def)
    show ?thesis
    proof (cases "?body s")
      case (Inl err)
      then have "s' = s \<and> (\<exists>x. res = Inl x)" using r by (auto simp: with_tx_def tx_error_def split: if_splits)
      then show ?thesis using False by auto
    next
      case (Inr y)
      then obtain vd t where y: "?body s = Inr (vd, t)" by (cases y) auto
      then have st: "(if is_ok res then s' = t else s' = s \<or> commit_of e = CommitLost \<and> s' = t)"
        using r assign_tx_commits[OF y]
        by (auto simp: with_tx_def tx_error_def split: if_splits commit_outcome.splits)
      from y show ?thesis
      proof (cases rule: assign_tx_cases)
        case seen
        then show ?thesis using st False by (cases res) (auto simp: seen_before_def)
      next
        case (assigned d)
        then have "dispatched v p cs s t" using oq by (auto simp: assigned_to_def dispatched_def)
        then show ?thesis using st assigned(5) none False by (cases res) (auto simp: seen_before_def)
      qed
    qed
  qed
qed

theorem assign_takes_nearest_witness:
  "\<exists>s'. assign sample_dispatcher quiet_env no_ctx order_event_b payload_b fleet_db = (Inr (), s') \<and>
     dispatched order_event_b payload_b [courier_1, courier_2] fleet_db s' \<and>
     length (ds_deliveries s') = 2 \<and> \<not> seen_before order_event_b fleet_db"
proof -
  obtain res s' where a: "assign sample_dispatcher quiet_env no_ctx order_event_b payload_b fleet_db = (res, s')"
    by fastforce
  have "(case assign sample_dispatcher quiet_env no_ctx order_event_b payload_b fleet_db of
      (Inr _, s') \<Rightarrow> length (ds_deliveries s') = 2 | _ \<Rightarrow> False)"
    by code_simp
  then have r: "res = Inr ()" "length (ds_deliveries s') = 2" using a by (auto split: sum.splits)
  have g: "[courier_1, courier_2] = geo_search sample_dispatcher (ds_geo fleet_db)
      (pickup_lat sample_dispatcher) (pickup_lon sample_dispatcher)"
    by (simp add: sample_dispatcher_def fleet_db_def)
  have n: "\<not> seen_before order_event_b fleet_db"
    by (simp add: seen_before_def fleet_db_def)
  show ?thesis
    using assign_takes_nearest[OF a g, THEN conjunct1] a r n by (intro exI[of _ s']) simp
qed

text \<open>
  C30 Positions follow their sequence numbers: along any history the sequence number of a courier
  never falls, and while it stays the position and the time it was seen stay, so a location report
  that arrives late or twice never moves a courier back.
\<close>

theorem positions_follow_sequence:
  assumes "fleet_ok s" and "row_find cr_id k (ds_couriers s) = Some r"
  shows "\<exists>r'. row_find cr_id k (ds_couriers (delivery_run ops s)) = Some r' \<and> cr_name r' = cr_name r \<and>
    cr_sequence r \<le> cr_sequence r' \<and>
    (cr_sequence r' = cr_sequence r \<longrightarrow> cr_lat r' = cr_lat r \<and> cr_lon r' = cr_lon r \<and> cr_seen r' = cr_seen r)"
  using dsteps_later[OF delivery_run_steps[OF assms(1)] assms(2)] by (simp add: later_def)

definition location_event :: "int \<Rightarrow> json option" where
  "location_event n = event_of ''courier.location_updated'' order_b (JObj
     [(''courier_id'', JStr courier_2), (''latitude'', JInt 5), (''sequence'', JInt n)])"

theorem positions_follow_sequence_witness:
  "\<exists>r'. row_find cr_id courier_2 (ds_couriers (delivery_run
       [ConsumeOp sample_dispatcher quiet_env (location_event 3)] fleet_db)) = Some r' \<and>
     cr_lat r' = 0 \<and> 3 \<le> cr_sequence r'"
proof -
  have f: "row_find cr_id courier_2 (ds_couriers fleet_db) = Some (courier_of courier_2 ''available'')"
    by code_simp
  have "map_option cr_sequence (row_find cr_id courier_2 (ds_couriers (delivery_run
      [ConsumeOp sample_dispatcher quiet_env (location_event 3)] fleet_db))) = Some 3" by code_simp
  then show ?thesis
    using positions_follow_sequence[OF fleet_db_ok f,
      of "[ConsumeOp sample_dispatcher quiet_env (location_event 3)]"] by (auto simp: courier_of_def)
qed

text \<open>
  C31 The constraints of the schema hold along any history: at most one forecast for each phase of
  a delivery, every forecast positive and within the bounds of its columns, actual times never
  negative, and an operator's delays never add up to more than 600 seconds.
\<close>

theorem forecasts_and_delays_bounded:
  assumes "checks_ok s"
  shows "length (filter (\<lambda>p. stage_key p = k) (ds_predictions (delivery_run ops s))) \<le> 1 \<and>
    (\<forall>p \<in> set (ds_predictions (delivery_run ops s)). prediction_ok p \<and> (\<forall>x. pr_actual p = Some x \<longrightarrow> 0 \<le> x)) \<and>
    (\<forall>d \<in> set (ds_deliveries (delivery_run ops s)). 0 \<le> dr_delay d \<and> dr_delay d \<le> 600)"
  using delivery_run_checks[OF assms, of ops] distinct_count[of stage_key "ds_predictions (delivery_run ops s)" k]
  by (auto simp: checks_ok_def prediction_checks_def delivery_checks_def)

theorem forecasts_and_delays_bounded_witness:
  "length (filter (\<lambda>p. stage_key p = (delivery_a, ''confirmed'')) (ds_predictions (delivery_run
     [ActionOp quiet_env no_ctx delivery_a \<lparr>bd_size = 18, bd_values = [(Some (JObj [(''action'', JStr ''delay'')]), 18)]\<rparr>]
     fleet_db))) \<le> 1"
  using forecasts_and_delays_bounded[OF fleet_db_checks] by blast

end
