(* ===== verification/Simulator.thy ===== *)
theory Simulator
  imports Delivery
begin

text \<open>
  The courier simulator (services/courier-simulator/internal/simulator/simulator.go): once a second
  it fetches the active assignments of the delivery service and publishes a position and a phase
  for each of three couriers. \<open>float64\<close> arithmetic is read as real arithmetic; the answer of the
  delivery service and the broker are parameters.
\<close>

section \<open>Data\<close>

record base_courier =
  bc_id :: string
  bc_lat :: real
  bc_lon :: real

definition base_couriers :: "base_courier list" where
  "base_couriers =
     [\<lparr>bc_id = ''40000000-0000-4000-8000-000000000001'', bc_lat = 55.0411, bc_lon = 82.9207\<rparr>,
      \<lparr>bc_id = ''40000000-0000-4000-8000-000000000002'', bc_lat = 55.0299, bc_lon = 82.9234\<rparr>,
      \<lparr>bc_id = ''40000000-0000-4000-8000-000000000003'', bc_lat = 55.0378, bc_lon = 82.9581\<rparr>]"

record assignment =
  as_id :: string
  as_courier :: string
  as_pickup_lat :: real
  as_pickup_lon :: real
  as_dest_lat :: real
  as_dest_lon :: real
  as_assigned :: time
  as_delay :: int
  as_correlation :: string

definition no_assignment :: assignment where
  "no_assignment = \<lparr>as_id = [], as_courier = [], as_pickup_lat = 0, as_pickup_lon = 0, as_dest_lat = 0,
     as_dest_lon = 0, as_assigned = zero_time, as_delay = 0, as_correlation = []\<rparr>"

text \<open>The struct \<open>location\<close>: the fields of the event, and the correlation id, which is not encoded.\<close>

record sim_location = location +
  lp_correlation :: string

definition json_location :: "'a location_scheme \<Rightarrow> json" where
  "json_location p = JObj
     ([(''courier_id'', JStr (lp_courier p))] @ omit_empty ''delivery_id'' (lp_delivery p) @
      [(''latitude'', JFloat (lp_lat p)), (''longitude'', JFloat (lp_lon p)),
       (''heading_degrees'', JFloat (lp_heading p)), (''speed_mps'', JFloat (lp_speed p)),
       (''recorded_at'', JTime (lp_recorded p)), (''sequence'', JInt (lp_sequence p)),
       (''phase'', JStr (lp_phase p))])"

section \<open>The simulated position\<close>

text \<open>\<open>math.Mod\<close>: the remainder of the division that truncates towards zero.\<close>

definition float_mod :: "real \<Rightarrow> real \<Rightarrow> real" where
  "float_mod x y = x - y * of_int (if 0 \<le> x / y then \<lfloor>x / y\<rfloor> else \<lceil>x / y\<rceil>)"

definition seconds_of :: "duration \<Rightarrow> real" where
  "seconds_of d = of_int d / of_int second"

definition elapsed_of :: "assignment \<Rightarrow> time \<Rightarrow> duration" where
  "elapsed_of a now = wrap64 (time_sub now (as_assigned a) - wrap64 (as_delay a * second))"

definition simulatedLocation :: "base_courier \<Rightarrow> assignment \<Rightarrow> time \<Rightarrow> nat \<Rightarrow> sim_location" where
  "simulatedLocation base act now index =
     (let result = \<lparr>lp_courier = bc_id base, lp_delivery = [], lp_lat = bc_lat base, lp_lon = bc_lon base,
                    lp_heading = 0, lp_speed = 0, lp_recorded = now, lp_sequence = 0,
                    lp_phase = ''available'', lp_correlation = []\<rparr> in
      if as_id act = [] then
        (let angle = of_int (go_mod (now div second) 60) / 60 * 2 * pi + of_nat index in
         result\<lparr>lp_lat := bc_lat base + sin angle * 0.0003, lp_lon := bc_lon base + cos angle * 0.0003,
                lp_heading := float_mod (angle * 180 / pi + 360) 360, lp_speed := 1.2\<rparr>)
      else
        (let result = result\<lparr>lp_delivery := as_id act, lp_correlation := as_correlation act\<rparr>;
             elapsed = elapsed_of act now in
         if elapsed < 3 * second then
           result\<lparr>lp_phase := ''assembling'', lp_lat := as_pickup_lat act, lp_lon := as_pickup_lon act\<rparr>
         else if elapsed < 15 * second then
           (let progress = seconds_of (elapsed - 3 * second) / seconds_of (12 * second) in
            result\<lparr>lp_phase := ''delivering'',
                   lp_lat := as_pickup_lat act + (as_dest_lat act - as_pickup_lat act) * progress,
                   lp_lon := as_pickup_lon act + (as_dest_lon act - as_pickup_lon act) * progress,
                   lp_heading := 45, lp_speed := 8\<rparr>)
         else
           result\<lparr>lp_phase := ''completed'', lp_lat := as_dest_lat act, lp_lon := as_dest_lon act\<rparr>))"

section \<open>A tick\<close>

definition decode_assignment :: "json \<Rightarrow> go_error + assignment" where
  "decode_assignment v =
     andthen (struct_fields (Some v)) (\<lambda>kvs.
     andthen (field to_string ''id'' [] kvs) (\<lambda>i.
     andthen (field to_string ''courier_id'' [] kvs) (\<lambda>c.
     andthen (field to_float ''pickup_latitude'' 0 kvs) (\<lambda>plat.
     andthen (field to_float ''pickup_longitude'' 0 kvs) (\<lambda>plon.
     andthen (field to_float ''destination_latitude'' 0 kvs) (\<lambda>dlat.
     andthen (field to_float ''destination_longitude'' 0 kvs) (\<lambda>dlon.
     andthen (field to_time ''assigned_at'' zero_time kvs) (\<lambda>t.
     andthen (field to_int ''simulation_delay_seconds'' 0 kvs) (\<lambda>d.
     andthen (field to_string ''correlation_id'' [] kvs) (\<lambda>cor.
       Inr \<lparr>as_id = i, as_courier = c, as_pickup_lat = plat, as_pickup_lon = plon, as_dest_lat = dlat,
            as_dest_lon = dlon, as_assigned = t, as_delay = d, as_correlation = cor\<rparr>))))))))))"

text \<open>\<open>answer\<close> is what the delivery service replies: a status and a body, or nothing.\<close>

definition fetchAssignments :: "env \<Rightarrow> (int \<times> json option) option \<Rightarrow> go_error + assignment list" where
  "fetchAssignments e answer =
     andthen (io e ''new request'') (\<lambda>_.
       (case answer of
          None \<Rightarrow> Inl CallFailed
        | Some (status, body) \<Rightarrow>
            if status \<noteq> 200 then Inl (Failed ''assignments status'')
            else andthen (struct_fields body) (\<lambda>kvs.
              field (to_array (ok \<circ> decode_assignment) no_assignment) ''assignments'' [] kvs)))"

text \<open>The map by courier: the last assignment of a courier wins, a missing one is the zero value.\<close>

definition assignment_of :: "assignment list \<Rightarrow> string \<Rightarrow> assignment" where
  "assignment_of items c = (case find (\<lambda>a. as_courier a = c) (rev items) of None \<Rightarrow> no_assignment | Some a \<Rightarrow> a)"

record runner =
  rn_sequence :: int
  rn_sent :: "kafka_record list"
  rn_geo :: geo_index
  rn_state :: "string \<rightharpoonup> json"

definition publish ::
  "env \<Rightarrow> (string \<Rightarrow> produce_outcome) \<Rightarrow> sim_location \<Rightarrow> kafka_record list \<Rightarrow> (go_error + unit) \<times> kafka_record list" where
  "publish e broker p sent =
     (case New e \<lparr>ctx_correlation = lp_correlation p, ctx_span = None\<rparr> ''courier.location_updated''
             ''courier-simulator'' (lp_courier p) (json_location p) of
        Inl err \<Rightarrow> (Inl err, sent)
      | Inr v \<Rightarrow>
          if fails e ''marshal envelope'' then (Inl CallFailed, sent)
          else
            (let r = \<lparr>kr_topic = ''freshflow.courier.location.v1'', kr_key = lp_courier p,
                      kr_value = Some (Marshal v),
                      kr_headers = [(''event_id'', EventID v), (''event_type'', EventType v),
                                    (''correlation_id'', CorrelationID v)]\<rparr> in
             case broker (lp_courier p) of
               Produced \<Rightarrow> (Inr (), sent @ [r])
             | ProduceFailed \<Rightarrow> (Inl CallFailed, sent)
             | ProduceLost \<Rightarrow> (Inl CallFailed, sent @ [r])))"

text \<open>One courier of a tick: each one has surroundings of its own for the event it publishes.\<close>

definition report ::
  "(nat \<Rightarrow> env) \<Rightarrow> (string \<Rightarrow> produce_outcome) \<Rightarrow> assignment list \<Rightarrow> time \<Rightarrow> nat \<times> base_courier \<Rightarrow> runner \<Rightarrow> runner" where
  "report es broker items now ic r =
     (case ic of (index, base) \<Rightarrow>
      (let e = es index; n = wrap64 (rn_sequence r + 1);
           p = (simulatedLocation base (assignment_of items (bc_id base)) now index)\<lparr>lp_sequence := n\<rparr>;
           r1 = r\<lparr>rn_sequence := n\<rparr> in
       case publish e broker p (rn_sent r1) of
         (Inl _, sent) \<Rightarrow> r1\<lparr>rn_sent := sent\<rparr>
       | (Inr _, sent) \<Rightarrow>
           (let r2 = r1\<lparr>rn_sent := sent,
                        rn_geo := (if fails e ''geo add'' then rn_geo r1
                                   else geo_add (bc_id base) (lp_lat p) (lp_lon p) (rn_geo r1))\<rparr> in
            if fails e ''marshal location'' \<or> fails e ''redis set state'' then r2
            else r2\<lparr>rn_state := (rn_state r2)(''local:courier:state:'' @ bc_id base \<mapsto> json_location p)\<rparr>)))"

definition tick ::
  "env \<Rightarrow> (nat \<Rightarrow> env) \<Rightarrow> (string \<Rightarrow> produce_outcome) \<Rightarrow> (int \<times> json option) option \<Rightarrow> runner \<Rightarrow> runner" where
  "tick e es broker answer r =
     (let items = (case fetchAssignments e answer of Inl _ \<Rightarrow> [] | Inr xs \<Rightarrow> xs) in
      fold (report es broker items (clock e ''now'')) (enumerate 0 base_couriers) r)"

end
