(* ===== verification/SimulatorProps.thy ===== *)
theory SimulatorProps
  imports Simulator DeliveryProps
begin

text \<open>
  What the simulator reports: the delivery consumer reads back every report, and a courier on a
  delivery is on the straight line from the pickup to the destination and moves forward along it,
  unless an operator's delay takes back more than the time that has passed. The last section shows
  what the consumer does with a report whose phase skips one or goes back.
\<close>

section \<open>Reports are read back\<close>

lemma location_keys: "plain_key ''courier_id''" "plain_key ''delivery_id''" "plain_key ''latitude''"
    "plain_key ''longitude''" "plain_key ''heading_degrees''" "plain_key ''speed_mps''"
    "plain_key ''recorded_at''" "plain_key ''sequence''" "plain_key ''phase''"
  by code_simp+

lemma decode_location_json:
  assumes "int64 (lp_sequence p)"
  shows "decode_location (Some (json_location p)) = Inr (location.truncate p)"
  using assms
  by (simp add: decode_location_def json_location_def field_append same_key_plain location_keys
      location.defs del: to_int.simps)

section \<open>Along the route\<close>

definition progress_of :: "duration \<Rightarrow> real" where
  "progress_of elapsed = min 1 (max 0 (seconds_of (elapsed - 3 * second) / seconds_of (12 * second)))"

definition phase_of :: "duration \<Rightarrow> string" where
  "phase_of elapsed =
     (if elapsed < 3 * second then ''assembling'' else if elapsed < 15 * second then ''delivering'' else ''completed'')"

lemma progress_cases:
  "elapsed < 3 * second \<Longrightarrow> progress_of elapsed = 0"
  "15 * second \<le> elapsed \<Longrightarrow> progress_of elapsed = 1"
  "3 * second \<le> elapsed \<Longrightarrow> elapsed < 15 * second \<Longrightarrow>
     progress_of elapsed = seconds_of (elapsed - 3 * second) / seconds_of (12 * second)"
  by (simp_all add: progress_of_def seconds_of_def second_def field_simps)

lemma progress_mono: "a \<le> b \<Longrightarrow> progress_of a \<le> progress_of b"
proof -
  assume "a \<le> b"
  then have "seconds_of (a - 3 * second) / seconds_of (12 * second) \<le> seconds_of (b - 3 * second) / seconds_of (12 * second)"
    by (simp add: seconds_of_def second_def divide_simps)
  then show ?thesis by (simp add: progress_of_def)
qed

definition on_route :: "assignment \<Rightarrow> real \<Rightarrow> sim_location \<Rightarrow> bool" where
  "on_route a t p \<longleftrightarrow> lp_lat p = as_pickup_lat a + (as_dest_lat a - as_pickup_lat a) * t \<and>
     lp_lon p = as_pickup_lon a + (as_dest_lon a - as_pickup_lon a) * t"

lemma simulated_on_route:
  assumes "as_id a \<noteq> []"
  shows "on_route a (progress_of (elapsed_of a now)) (simulatedLocation base a now index) \<and>
    lp_phase (simulatedLocation base a now index) = phase_of (elapsed_of a now) \<and>
    lp_delivery (simulatedLocation base a now index) = as_id a \<and>
    lp_courier (simulatedLocation base a now index) = bc_id base \<and>
    lp_recorded (simulatedLocation base a now index) = now"
  using assms progress_cases[of "elapsed_of a now"]
  by (simp add: simulatedLocation_def Let_def on_route_def phase_of_def not_less)

text \<open>The time on the way, less the operator's delay, far from the bounds of an \<open>int64\<close>.\<close>

lemma elapsed_eq:
  assumes "0 \<le> as_delay a" and "as_delay a \<le> 600" and "\<bar>t - as_assigned a\<bar> < 2 ^ 62"
  shows "elapsed_of a t = t - as_assigned a - as_delay a * second"
proof -
  have d: "wrap64 (as_delay a * second) = as_delay a * second"
    using assms(1,2) by (intro wrap64_id) (simp_all add: second_def)
  show ?thesis
    using assms unfolding elapsed_of_def d time_sub_def
    by (subst wrap64_id) (simp_all add: second_def abs_if split: if_splits)
qed

text \<open>One report is no further than another: on the route, and in its phase.\<close>

definition no_further :: "real \<times> string \<Rightarrow> real \<times> string \<Rightarrow> bool" where
  "no_further x y \<longleftrightarrow> fst x \<le> fst y \<and> (snd x = ''completed'' \<longrightarrow> snd y = ''completed'') \<and>
     (snd y = ''assembling'' \<longrightarrow> snd x = ''assembling'')"

lemma no_further_mono: "x \<le> y \<Longrightarrow> no_further (progress_of x, phase_of x) (progress_of y, phase_of y)"
  using progress_mono by (simp add: no_further_def phase_of_def)

section \<open>Properties\<close>

text \<open>
  C34 What the delivery service learns from the simulator: a published report is decoded to the
  position that was simulated; for a courier on a delivery it names that delivery and lies on the
  straight route between pickup and destination, in one of the phases assembling, delivering and
  completed. Between two reports of a delivery (within 2^62 nanoseconds of its assignment), whose
  delay of 0 to 600 seconds an operator may have changed in between, the courier moves forward along the route and through the phases, unless the delay has
  grown by more than the time that has passed: then the courier moves back, possibly to an earlier
  phase (see the findings).
\<close>

theorem simulated_reports_follow_route:
  assumes "as_id a \<noteq> []" and "int64 n" and "0 \<le> as_delay a" "as_delay a \<le> 600" and "0 \<le> d" "d \<le> 600"
    and "\<bar>now - as_assigned a\<bar> < 2 ^ 62" and "\<bar>now' - as_assigned a\<bar> < 2 ^ 62"
  shows "\<exists>p t t' p'. decode_location (Some (json_location
        ((simulatedLocation base a now index)\<lparr>lp_sequence := n\<rparr>))) = Inr p \<and>
      p' = simulatedLocation base (a\<lparr>as_delay := d\<rparr>) now' index \<and>
      lp_courier p = bc_id base \<and> lp_delivery p = as_id a \<and> lp_sequence p = n \<and> lp_recorded p = now \<and>
      lp_lat p = as_pickup_lat a + (as_dest_lat a - as_pickup_lat a) * t \<and>
      lp_lon p = as_pickup_lon a + (as_dest_lon a - as_pickup_lon a) * t \<and>
      on_route a t' p' \<and> 0 \<le> t \<and> t \<le> 1 \<and> 0 \<le> t' \<and> t' \<le> 1 \<and>
      lp_phase p \<in> {''assembling'', ''delivering'', ''completed''} \<and>
      (if (d - as_delay a) * second \<le> now' - now
       then no_further (t, lp_phase p) (t', lp_phase p') else no_further (t', lp_phase p') (t, lp_phase p))"
proof -
  let ?p = "(simulatedLocation base a now index)\<lparr>lp_sequence := n\<rparr>" and ?a = "a\<lparr>as_delay := d\<rparr>"
  have e: "(d - as_delay a) * second \<le> now' - now \<longleftrightarrow> elapsed_of a now \<le> elapsed_of ?a now'"
  proof -
    have "elapsed_of a now = now - as_assigned a - as_delay a * second"
        "elapsed_of ?a now' = now' - as_assigned a - d * second"
      using assms elapsed_eq[of a now] elapsed_eq[of ?a now'] by simp_all
    then show ?thesis unfolding left_diff_distrib by linarith
  qed
  have r: "decode_location (Some (json_location ?p)) = Inr (location.truncate ?p)"
    using assms(2) by (intro decode_location_json) simp
  have b: "0 \<le> progress_of x" "progress_of x \<le> 1" for x by (simp_all add: progress_of_def)
  have f: "if (d - as_delay a) * second \<le> now' - now
      then no_further (progress_of (elapsed_of a now), phase_of (elapsed_of a now))
             (progress_of (elapsed_of ?a now'), phase_of (elapsed_of ?a now'))
      else no_further (progress_of (elapsed_of ?a now'), phase_of (elapsed_of ?a now'))
             (progress_of (elapsed_of a now), phase_of (elapsed_of a now))"
    unfolding e by (auto intro: no_further_mono)
  have "phase_of x \<in> {''assembling'', ''delivering'', ''completed''}" for x by (simp add: phase_of_def)
  then show ?thesis
    using simulated_on_route[OF assms(1), of now base index] simulated_on_route[of ?a now' base index]
      assms(1) r b f
    by (intro exI[of _ "location.truncate ?p"] exI[of _ "progress_of (elapsed_of a now)"]
          exI[of _ "progress_of (elapsed_of ?a now')"] exI[of _ "simulatedLocation base ?a now' index"])
       (simp add: on_route_def location.defs)
qed

definition sample_assignment :: assignment where
  "sample_assignment = \<lparr>as_id = delivery_a, as_courier = courier_1, as_pickup_lat = 55, as_pickup_lon = 82,
     as_dest_lat = 56, as_dest_lon = 83, as_assigned = 0, as_delay = 0, as_correlation = []\<rparr>"

text \<open>A courier on the road at nine seconds, and a second later, when an operator has delayed the delivery.\<close>

theorem simulated_reports_follow_route_witness:
  "\<exists>p t t'. decode_location (Some (json_location
      ((simulatedLocation (hd base_couriers) sample_assignment (9 * second) 0)\<lparr>lp_sequence := 7\<rparr>))) = Inr p \<and>
     lp_lat p = 55 + t \<and> 0 \<le> t \<and> t \<le> 1 \<and> lp_delivery p = delivery_a \<and>
     on_route sample_assignment t'
       (simulatedLocation (hd base_couriers) (sample_assignment\<lparr>as_delay := 10\<rparr>) (10 * second) 0) \<and> t' \<le> t \<and>
     phase_of (elapsed_of sample_assignment (9 * second)) = ''delivering'' \<and>
     lp_phase (simulatedLocation (hd base_couriers) (sample_assignment\<lparr>as_delay := 10\<rparr>) (10 * second) 0) = ''assembling''"
proof -
  have i: "as_id sample_assignment \<noteq> []" and z: "int64 7"
    and d: "0 \<le> as_delay sample_assignment" "as_delay sample_assignment \<le> 600" "(0::int) \<le> 10" "(10::int) \<le> 600"
    and t: "\<bar>9 * second - as_assigned sample_assignment\<bar> < 2 ^ 62" "\<bar>10 * second - as_assigned sample_assignment\<bar> < 2 ^ 62"
    by (simp_all add: sample_assignment_def delivery_a_def int64_def second_def)
  have "elapsed_of sample_assignment (9 * second) = 9 * second"
      "elapsed_of (sample_assignment\<lparr>as_delay := 10\<rparr>) (10 * second) = 0"
    by (simp_all add: elapsed_eq sample_assignment_def second_def)
  then have "phase_of (elapsed_of sample_assignment (9 * second)) = ''delivering''"
      "lp_phase (simulatedLocation (hd base_couriers) (sample_assignment\<lparr>as_delay := 10\<rparr>) (10 * second) 0) = ''assembling''"
    using i by (simp_all add: phase_of_def simulated_on_route second_def)
  moreover have "\<not> (10 - as_delay sample_assignment) * second \<le> 10 * second - 9 * second"
    by (simp add: sample_assignment_def second_def)
  ultimately show ?thesis
    using simulated_reports_follow_route[OF i z d t, of "hd base_couriers" 0]
    by (auto simp: no_further_def sample_assignment_def)
qed

section \<open>Phases out of order\<close>

text \<open>
  A report whose phase is not the next one is refused, with everything it carries: the position,
  the sequence number and the record of the event are rolled back, so the event is retried and
  then dead-lettered. A delivery that is still assigned when its courier reports delivering or
  completed never leaves that status through the consumer; and the reports of assembling by a
  courier on the road, whom a delay took back, are lost in this way.
\<close>

lemma phase_out_of_order_refused:
  assumes "row_find dr_id k (ds_deliveries s) = Some d" and "uuid_key (lp_delivery p) = Some k"
    and "dr_status d = ''assigned'' \<and> lp_phase p \<in> {''delivering'', ''completed''} \<or>
      dr_status d = ''delivering'' \<and> lp_phase p = ''assembling''"
  shows "\<not> (\<exists>s'. applyPhase con e p s = Inr s')"
proof
  assume "\<exists>s'. applyPhase con e p s = Inr s'"
  then obtain s' where s': "applyPhase con e p s = Inr s'" ..
  have q: "query_row e ''find phase delivery'' dr_id (lp_delivery p) (ds_deliveries s) =
      (if fails e ''find phase delivery'' then Inl CallFailed else Inr d)"
    using assms(1,2) by (simp add: query_row_def io_def as_uuid_def)
  have "\<not> validDeliveryTransition (dr_status d) (lp_phase p)"
    using assms(3) by (auto simp: validDeliveryTransition_def)
  then show False using s' q assms(3)
    by (auto simp: applyPhase_def Let_def split: if_splits)
qed

end
