(* ===== verification/Notification.thy ===== *)
theory Notification
  imports Inbox
begin

text \<open>
  The notification worker (services/notification-worker/internal/notification/consumer.go): it
  writes one mock notification per order event. The state is the schema \<open>notifications\<close>; a message
  is the list of the code points of its text.
\<close>

type_synonym message_text = "nat list"

definition created_text :: message_text where
  "created_text = [1047, 1072, 1082, 1072, 1079, 32, 1089, 1086, 1079, 1076, 1072, 1085, 32, 1080, 32,
     1086, 1078, 1080, 1076, 1072, 1077, 1090, 32, 1087, 1086, 1076, 1090, 1074, 1077, 1088, 1078, 1076,
     1077, 1085, 1080, 1103]"

definition confirmed_text :: message_text where
  "confirmed_text = [1047, 1072, 1082, 1072, 1079, 32, 1087, 1086, 1076, 1090, 1074, 1077, 1088, 1078,
     1076, 1105, 1085]"

definition changed_text :: message_text where
  "changed_text = [1057, 1090, 1072, 1090, 1091, 1089, 32, 1079, 1072, 1082, 1072, 1079, 1072, 32, 1080,
     1079, 1084, 1077, 1085, 1080, 1083, 1089, 1103]"

definition messageFor :: "string \<Rightarrow> message_text option" where
  "messageFor eventType =
     (if eventType = ''order.created'' then Some created_text
      else if eventType = ''order.confirmed'' then Some confirmed_text
      else if eventType = ''order.status_changed'' then Some changed_text
      else None)"

record notification =
  nt_event :: string
  nt_order :: string
  nt_type :: string
  nt_message :: message_text
  nt_correlation :: string

record notifications =
  nf_processed :: "string list"
  nf_log :: "notification list"

definition insert_notification ::
  "env \<Rightarrow> envelope \<Rightarrow> message_text \<Rightarrow> string list \<Rightarrow> notification list \<Rightarrow> go_error + notification list" where
  "insert_notification e v message seen rows =
     andthen (as_uuid (EventID v)) (\<lambda>k.
     andthen (as_uuid (AggregateID v)) (\<lambda>o_id.
       exec_insert e ''insert notification'' nt_event (\<lambda>n. nt_event n \<in> set seen)
         \<lparr>nt_event = k, nt_order = o_id, nt_type = EventType v, nt_message = message,
          nt_correlation = CorrelationID v\<rparr> rows))"

text \<open>The body of the transaction; the flag says whether a notification was recorded.\<close>

definition notify_tx :: "env \<Rightarrow> envelope \<Rightarrow> message_text \<Rightarrow> notifications \<Rightarrow> go_error + bool verdict \<times> notifications" where
  "notify_tx e v message s =
     andthen (mark_processed e (EventID v) (nf_processed s)) (\<lambda>(inserted, seen).
     if \<not> inserted then Inr (Commit False, s)
     else andthen (insert_notification e v message seen (nf_log s)) (\<lambda>rows.
       Inr (Commit True, s\<lparr>nf_processed := seen, nf_log := rows\<rparr>)))"

definition handle_event :: "env \<Rightarrow> json option \<Rightarrow> notifications \<Rightarrow> (go_error + bool) \<times> notifications" where
  "handle_event e value s =
     (case wrap ''decode event envelope'' (Unmarshal value) of
        Inl err \<Rightarrow> (Inl err, s)
      | Inr v \<Rightarrow>
          if EventID v = [] \<or> AggregateID v = [] \<or> EventType v = []
          then (Inl (Failed ''event envelope is missing required fields''), s)
          else case messageFor (EventType v) of
            None \<Rightarrow> (Inr False, s)
          | Some message \<Rightarrow>
              (case with_tx e id id (notify_tx e v message) s of
                 (Inl err, s') \<Rightarrow> (Inl err, s')
               | (Inr (Commit b), s') \<Rightarrow> (Inr b, s')
               | (Inr (Abandon b), s') \<Rightarrow> (Inr b, s')))"

section \<open>Lemmas\<close>

definition notified :: "envelope \<Rightarrow> message_text \<Rightarrow> notifications \<Rightarrow> notifications \<Rightarrow> bool" where
  "notified v message s s' \<longleftrightarrow>
     (\<exists>k o_id. uuid_key (EventID v) = Some k \<and> uuid_key (AggregateID v) = Some o_id \<and>
        k \<notin> set (nf_processed s) \<and> k \<notin> nt_event ` set (nf_log s) \<and>
        nf_processed s' = nf_processed s @ [k] \<and>
        nf_log s' = nf_log s @ [\<lparr>nt_event = k, nt_order = o_id, nt_type = EventType v,
          nt_message = message, nt_correlation = CorrelationID v\<rparr>])"

lemma notify_tx_cases:
  assumes "notify_tx e v message s = Inr (vd, s')"
  shows "vd = Commit False \<and> s' = s \<or> vd = Commit True \<and> notified v message s s'"
  using assms
  by (fastforce simp: notify_tx_def andthen_Inr insert_notification_def as_uuid_Inr exec_insert_Inr
      mark_processed_Inr row_find_None_iff notified_def split: if_splits)

lemma handle_event_cases:
  assumes "handle_event e bytes s = (res, s')"
  obtains (same) "s' = s" "res \<noteq> Inr True"
  | (recorded) v message where "Unmarshal bytes = Inr v" "messageFor (EventType v) = Some message"
      "notified v message s s'" "res = Inr True \<or> (\<exists>err. res = Inl err) \<and> commit_of e = CommitLost"
proof (cases "Unmarshal bytes")
  case (Inl err)
  then show ?thesis using assms same by (auto simp: handle_event_def)
next
  case (Inr v)
  show ?thesis
  proof (cases "EventID v = [] \<or> AggregateID v = [] \<or> EventType v = [] \<or> messageFor (EventType v) = None")
    case True
    then show ?thesis using assms same Inr by (auto simp: handle_event_def split: if_splits)
  next
    case False
    then obtain m where m: "messageFor (EventType v) = Some m" by auto
    obtain x t where w: "with_tx e id id (notify_tx e v m) s = (x, t)" by fastforce
    then have r: "s' = t" "res = (case x of Inl err \<Rightarrow> Inl err | Inr (Commit b) \<Rightarrow> Inr b | Inr (Abandon b) \<Rightarrow> Inr b)"
      using assms Inr False m by (auto simp: handle_event_def split: sum.splits verdict.splits)
    show ?thesis
    proof (cases "notify_tx e v m s")
      case (Inl err)
      then show ?thesis using w r same by (auto simp: with_tx_def split: if_splits)
    next
      case (Inr y)
      then obtain vd u where y: "notify_tx e v m s = Inr (vd, u)" by (cases y) auto
      from notify_tx_cases[OF y] show ?thesis
      proof (elim disjE conjE)
        assume "vd = Commit False" "u = s"
        then show ?thesis using w r y same
          by (auto simp: with_tx_def split: if_splits commit_outcome.splits)
      next
        assume "vd = Commit True" "notified v m s u"
        then show ?thesis using w r y same recorded[OF \<open>Unmarshal bytes = Inr v\<close> m]
          by (auto simp: with_tx_def split: if_splits commit_outcome.splits)
      qed
    qed
  qed
qed

interpretation nb: inbox handle_event "\<lambda>s. set (nf_processed s)"
proof unfold_locales
  fix v k e and s :: notifications
  assume k: "event_key v = Some k" "k \<in> set (nf_processed s)"
  obtain r t where h: "handle_event e v s = (r, t)" by fastforce
  then show "snd (handle_event e v s) = s"
    by (cases rule: handle_event_cases) (use h k in \<open>auto simp: notified_def event_key_def\<close>)
next
  fix e v and s :: notifications
  assume c: "snd (handle_event e v s) \<noteq> s"
  obtain r t where h: "handle_event e v s = (r, t)" by fastforce
  then show "\<exists>k. event_key v = Some k \<and> k \<in> set (nf_processed (snd (handle_event e v s)))"
    by (cases rule: handle_event_cases) (use h c in \<open>auto simp: notified_def event_key_def\<close>)
next
  fix e v and s :: notifications
  obtain r t where h: "handle_event e v s = (r, t)" by fastforce
  then show "set (nf_processed s) \<subseteq> set (nf_processed (snd (handle_event e v s)))"
    by (cases rule: handle_event_cases) (use h in \<open>auto simp: notified_def\<close>)
next
  fix e v err and s s' :: notifications
  assume "handle_event e v s = (Inl err, s')" and "commit_of e \<noteq> CommitLost"
  then show "s' = s" by (cases rule: handle_event_cases) auto
qed

text \<open>The log and the inbox agree: one notification for every event recorded, with its text.\<close>

definition log_ok :: "notifications \<Rightarrow> bool" where
  "log_ok s \<longleftrightarrow> map nt_event (nf_log s) = nf_processed s \<and> distinct (nf_processed s) \<and>
     (\<forall>n \<in> set (nf_log s). messageFor (nt_type n) = Some (nt_message n))"

lemma handle_event_log: "log_ok s \<Longrightarrow> log_ok (snd (handle_event e v s))"
proof -
  assume ok: "log_ok s"
  obtain r t where h: "handle_event e v s = (r, t)" by fastforce
  then show ?thesis
    by (cases rule: handle_event_cases) (use h ok in \<open>auto simp: notified_def log_ok_def\<close>)
qed

lemma deliver_all_log: "log_ok s \<Longrightarrow> log_ok (deliver_all handle_event ds s)"
  by (induction handle_event ds s rule: deliver_all.induct) (simp_all add: handle_event_log)

lemma distinct_map_filter_once: "distinct (map f xs) \<Longrightarrow> length (filter (\<lambda>x. f x = k) xs) \<le> 1"
proof (induction xs)
  case (Cons x xs)
  then have "k = f x \<Longrightarrow> filter (\<lambda>x. f x = k) xs = []" by (auto simp: filter_empty_conv image_iff)
  then show ?case using Cons by auto
qed simp

section \<open>Properties\<close>

definition no_notifications :: notifications where
  "no_notifications = \<lparr>nf_processed = [], nf_log = []\<rparr>"

text \<open>
  C35 One notification per event: along any history of records, with redeliveries, failures and
  lost commits, an event changes the state at most once, and the log holds exactly one
  notification for every recorded event, with the text of the event's type.
\<close>

theorem one_notification_per_event:
  assumes "log_ok s"
  shows "effects_of handle_event k ds s \<le> 1 \<and>
    map nt_event (nf_log (deliver_all handle_event ds s)) = nf_processed (deliver_all handle_event ds s) \<and>
    length (filter (\<lambda>n. nt_event n = k) (nf_log (deliver_all handle_event ds s))) \<le> 1 \<and>
    (\<forall>n \<in> set (nf_log (deliver_all handle_event ds s)). messageFor (nt_type n) = Some (nt_message n))"
proof -
  let ?t = "deliver_all handle_event ds s"
  have ok: "log_ok ?t" using assms by (rule deliver_all_log)
  then have "length (filter (\<lambda>n. nt_event n = k) (nf_log ?t)) \<le> 1"
    by (intro distinct_map_filter_once) (simp add: log_ok_def)
  then show ?thesis using ok nb.effect_at_most_once by (simp add: log_ok_def)
qed

definition order_created_event :: "json option" where
  "order_created_event = Some (JObj
     [(''event_id'', JStr ''70000000-0000-4000-8000-000000000001''), (''event_type'', JStr ''order.created''),
      (''aggregate_id'', JStr ''30000000-0000-4000-8000-00000000000a''), (''payload'', JObj [])])"

theorem one_notification_per_event_witness:
  "length (nf_log (deliver_all handle_event
       [(quiet_env, order_created_event), (quiet_env, order_created_event)] no_notifications)) = 1 \<and>
   effects_of handle_event ''70000000-0000-4000-8000-000000000001''
       [(quiet_env, order_created_event), (quiet_env, order_created_event)] no_notifications \<le> 1"
proof
  show "length (nf_log (deliver_all handle_event
       [(quiet_env, order_created_event), (quiet_env, order_created_event)] no_notifications)) = 1"
    by code_simp
  have "log_ok no_notifications" by (simp add: log_ok_def no_notifications_def)
  then show "effects_of handle_event ''70000000-0000-4000-8000-000000000001''
       [(quiet_env, order_created_event), (quiet_env, order_created_event)] no_notifications \<le> 1"
    using one_notification_per_event by blast
qed

end
