(* ===== verification/Analytics.thy ===== *)
theory Analytics
  imports Inbox Httpx
begin

text \<open>
  The analytics worker (services/analytics-worker/internal/analytics): every event is projected
  (projector.go) to a fact about a delivery, about an order, or both, and the facts are inserted
  into two ClickHouse tables (store.go), from which the dashboard reads. The tables are those of
  db/clickhouse/migrations: both are \<open>ReplacingMergeTree(ingested_at) ORDER BY event_id\<close>, so an
  insertion never fails for a duplicate, and a query with \<open>FINAL\<close> sees one row per event. A row is
  a fact with its \<open>ingested_at\<close>. The package google/uuid is the parameter \<open>up\<close>: the canonical text
  of the UUID a string denotes, if it denotes one. \<open>float64\<close> arithmetic is read as real arithmetic.
\<close>

section \<open>Facts\<close>

record delivery_fact =
  df_event :: string
  df_type :: string
  df_order :: "string option"
  df_delivery :: "string option"
  df_courier :: "string option"
  df_status :: string
  df_lat :: "real option"
  df_lon :: "real option"
  df_predicted :: "int option"
  df_actual :: "int option"
  df_occurred :: time
  df_correlation :: string
  df_trace :: string
  df_payload :: "json option"

record order_fact =
  of_event :: string
  of_order :: string
  of_type :: string
  of_status :: string
  of_previous :: string
  of_total :: int
  of_currency :: string
  of_products :: "string list"
  of_names :: "string list"
  of_quantities :: "int list"
  of_predicted :: "int option"
  of_actual :: "int option"
  of_occurred :: time
  of_correlation :: string
  of_trace :: string

record projection =
  pj_delivery :: "delivery_fact option"
  pj_order :: "order_fact option"

section \<open>The payload of an event\<close>

record event_item =
  ei_product :: string
  ei_name :: string
  ei_quantity :: int

record event_payload =
  pl_order :: string
  pl_delivery :: string
  pl_courier :: string
  pl_status :: string
  pl_previous :: string
  pl_new :: string
  pl_currency :: string
  pl_total :: int
  pl_lat :: "real option"
  pl_lon :: "real option"
  pl_predicted :: "int option"
  pl_actual :: "int option"
  pl_items :: "event_item list"

text \<open>The unsigned integers of \<open>w\<close> bits, and pointers, which \<open>null\<close> leaves \<open>nil\<close>.\<close>

definition to_uint :: "nat \<Rightarrow> json \<Rightarrow> int option" where
  "to_uint w v = (case v of JInt i \<Rightarrow> (if 0 \<le> i \<and> i < 2 ^ w then Some i else None) | _ \<Rightarrow> None)"

definition to_ptr :: "(json \<Rightarrow> 'a option) \<Rightarrow> json \<Rightarrow> 'a option option" where
  "to_ptr conv v = map_option Some (conv v)"

definition decode_event_item :: "json \<Rightarrow> go_error + event_item" where
  "decode_event_item v =
     andthen (struct_fields (Some v)) (\<lambda>kvs.
     andthen (field to_string ''product_id'' [] kvs) (\<lambda>p.
     andthen (field to_string ''product_name'' [] kvs) (\<lambda>n.
     andthen (field (to_uint 32) ''quantity'' 0 kvs) (\<lambda>q.
       Inr \<lparr>ei_product = p, ei_name = n, ei_quantity = q\<rparr>))))"

definition zero_item :: event_item where
  "zero_item = \<lparr>ei_product = [], ei_name = [], ei_quantity = 0\<rparr>"

definition decode_event_payload :: "json option \<Rightarrow> go_error + event_payload" where
  "decode_event_payload bytes =
     andthen (struct_fields bytes) (\<lambda>kvs.
     andthen (field to_string ''order_id'' [] kvs) (\<lambda>o_id.
     andthen (field to_string ''delivery_id'' [] kvs) (\<lambda>d.
     andthen (field to_string ''courier_id'' [] kvs) (\<lambda>c.
     andthen (field to_string ''status'' [] kvs) (\<lambda>st.
     andthen (field to_string ''previous_status'' [] kvs) (\<lambda>prev.
     andthen (field to_string ''new_status'' [] kvs) (\<lambda>new.
     andthen (field to_string ''currency'' [] kvs) (\<lambda>cur.
     andthen (field (to_uint 64) ''total_amount_minor'' 0 kvs) (\<lambda>total.
     andthen (field (to_ptr to_float) ''latitude'' None kvs) (\<lambda>lat.
     andthen (field (to_ptr to_float) ''longitude'' None kvs) (\<lambda>lon.
     andthen (field (to_ptr (to_uint 32)) ''predicted_eta_seconds'' None kvs) (\<lambda>pred.
     andthen (field (to_ptr (to_uint 32)) ''actual_eta_seconds'' None kvs) (\<lambda>act.
     andthen (field (to_array (ok \<circ> decode_event_item) zero_item) ''items'' [] kvs) (\<lambda>items.
       Inr \<lparr>pl_order = o_id, pl_delivery = d, pl_courier = c, pl_status = st, pl_previous = prev,
            pl_new = new, pl_currency = cur, pl_total = total, pl_lat = lat, pl_lon = lon,
            pl_predicted = pred, pl_actual = act, pl_items = items\<rparr>))))))))))))))"

section \<open>Projecting an event\<close>

type_synonym uuid_parse = "string \<Rightarrow> string option"

definition isOrderEvent :: "string \<Rightarrow> bool" where
  "isOrderEvent eventType \<longleftrightarrow>
     eventType \<in> {''order.created'', ''order.confirmed'', ''order.status_changed''}"

definition isDeliveryEvent :: "string \<Rightarrow> bool" where
  "isDeliveryEvent eventType \<longleftrightarrow>
     eventType \<in> {''delivery.assigned'', ''delivery.status_changed'', ''delivery.completed'',
       ''courier.location_updated''}"

definition add_item :: "uuid_parse \<Rightarrow> event_item \<Rightarrow> order_fact \<Rightarrow> go_error + order_fact" where
  "add_item up i f =
     (case up (ei_product i) of
        None \<Rightarrow> Inl (Wrapped ''invalid product_id'' CallFailed)
      | Some p \<Rightarrow> Inr (f\<lparr>of_products := of_products f @ [p], of_names := of_names f @ [ei_name i],
                          of_quantities := of_quantities f @ [ei_quantity i]\<rparr>))"

definition delivery_fact_of ::
  "uuid_parse \<Rightarrow> envelope \<Rightarrow> event_payload \<Rightarrow> string option \<Rightarrow> string \<Rightarrow> time \<Rightarrow> delivery_fact" where
  "delivery_fact_of up v p orderID status occurred =
     \<lparr>df_event = EventID v, df_type = EventType v, df_order = orderID, df_delivery = up (pl_delivery p),
      df_courier = up (pl_courier p), df_status = status, df_lat = pl_lat p, df_lon = pl_lon p,
      df_predicted = pl_predicted p, df_actual = pl_actual p, df_occurred = occurred,
      df_correlation = CorrelationID v, df_trace = TraceID v, df_payload = Payload v\<rparr>"

definition order_fact_of ::
  "uuid_parse \<Rightarrow> envelope \<Rightarrow> event_payload \<Rightarrow> string \<Rightarrow> string \<Rightarrow> time \<Rightarrow> go_error + order_fact" where
  "order_fact_of up v p orderID status occurred =
     (let fact = \<lparr>of_event = EventID v, of_order = orderID, of_type = EventType v, of_status = status,
            of_previous = pl_previous p, of_total = pl_total p, of_currency = pl_currency p,
            of_products = [], of_names = [], of_quantities = [], of_predicted = pl_predicted p,
            of_actual = pl_actual p, of_occurred = occurred, of_correlation = CorrelationID v,
            of_trace = TraceID v\<rparr> in
      andthen (if EventType v = ''order.created''
               then for_each (add_item up) (pl_items p) (fact\<lparr>of_status := ''created''\<rparr>)
               else Inr fact) (\<lambda>fact.
        Inr (if EventType v = ''order.confirmed'' then fact\<lparr>of_status := ''confirmed''\<rparr> else fact)))"

definition Project :: "env \<Rightarrow> uuid_parse \<Rightarrow> envelope \<Rightarrow> go_error + projection" where
  "Project e up v =
     (if up (EventID v) = None then Inl (Wrapped ''invalid event_id'' CallFailed)
      else
        (let occurred = (if OccurredAt v = zero_time then clock e ''project now'' else OccurredAt v) in
         andthen (wrap (''decode '' @ EventType v @ '' payload'') (decode_event_payload (Payload v))) (\<lambda>p.
           (let orderID = (if up (pl_order p) = None \<and> isOrderEvent (EventType v) then up (AggregateID v)
                           else up (pl_order p));
                status = (if pl_new p \<noteq> [] then pl_new p else pl_status p);
                delivery = (if isDeliveryEvent (EventType v)
                            then Some (delivery_fact_of up v p orderID status occurred) else None) in
            case orderID of
              Some o_id \<Rightarrow>
                (if isOrderEvent (EventType v) \<or> isDeliveryEvent (EventType v)
                 then andthen (order_fact_of up v p o_id status occurred) (\<lambda>fact.
                        Inr \<lparr>pj_delivery = delivery, pj_order = Some fact\<rparr>)
                 else Inr \<lparr>pj_delivery = delivery, pj_order = None\<rparr>)
            | None \<Rightarrow> Inr \<lparr>pj_delivery = delivery, pj_order = None\<rparr>))))"

section \<open>Storing facts\<close>

record warehouse =
  wh_deliveries :: "(delivery_fact \<times> time) list"
  wh_orders :: "(order_fact \<times> time) list"

text \<open>A column \<open>DateTime64(3)\<close> keeps milliseconds.\<close>

definition ch_time :: "time \<Rightarrow> time" where
  "ch_time t = t - t mod millisecond"

text \<open>
  An \<open>INSERT\<close>, outside any transaction: it fails, or the row is there and the answer is lost, or
  both are fine. \<open>uuid.MustParse\<close> panics on a text that is no UUID: here it is an error of its own.
\<close>

definition exec_append ::
  "env \<Rightarrow> string \<Rightarrow> 'f \<Rightarrow> ('f \<times> time) list \<Rightarrow> (go_error + unit) \<times> ('f \<times> time) list" where
  "exec_append e lbl f rows =
     (if fails e lbl then (Inl CallFailed, rows)
      else (if fails e (''lost '' @ lbl) then Inl CallFailed else Inr (), rows @ [(f, clock e ''ingested'')]))"

definition MustParse :: "uuid_parse \<Rightarrow> string \<Rightarrow> go_error + string" where
  "MustParse up s = (case up s of None \<Rightarrow> Inl (Failed ''panic: uuid: Parse'') | Some k \<Rightarrow> Inr k)"

definition delivery_row_of :: "uuid_parse \<Rightarrow> delivery_fact \<Rightarrow> go_error + delivery_fact" where
  "delivery_row_of up f =
     andthen (MustParse up (df_event f)) (\<lambda>k.
       Inr (f\<lparr>df_event := k, df_occurred := ch_time (df_occurred f)\<rparr>))"

definition order_row_of :: "uuid_parse \<Rightarrow> order_fact \<Rightarrow> go_error + order_fact" where
  "order_row_of up f =
     andthen (MustParse up (of_event f)) (\<lambda>k.
     andthen (MustParse up (of_order f)) (\<lambda>o_id.
       Inr (f\<lparr>of_event := k, of_order := o_id, of_occurred := ch_time (of_occurred f)\<rparr>)))"

definition insert_delivery_fact ::
  "env \<Rightarrow> uuid_parse \<Rightarrow> delivery_fact option \<Rightarrow> warehouse \<Rightarrow> (go_error + unit) \<times> warehouse" where
  "insert_delivery_fact e up x w =
     (case x of
        None \<Rightarrow> (Inr (), w)
      | Some f \<Rightarrow>
          (case delivery_row_of up f of
             Inl err \<Rightarrow> (Inl err, w)
           | Inr row \<Rightarrow>
               (case exec_append e ''insert delivery event'' row (wh_deliveries w) of
                  (r, rows) \<Rightarrow> (wrap ''insert delivery event'' r, w\<lparr>wh_deliveries := rows\<rparr>))))"

definition insert_order_fact ::
  "env \<Rightarrow> uuid_parse \<Rightarrow> order_fact option \<Rightarrow> warehouse \<Rightarrow> (go_error + unit) \<times> warehouse" where
  "insert_order_fact e up x w =
     (case x of
        None \<Rightarrow> (Inr (), w)
      | Some f \<Rightarrow>
          (case order_row_of up f of
             Inl err \<Rightarrow> (Inl err, w)
           | Inr row \<Rightarrow>
               (case exec_append e ''insert order analytic'' row (wh_orders w) of
                  (r, rows) \<Rightarrow> (wrap ''insert order analytic'' r, w\<lparr>wh_orders := rows\<rparr>))))"

definition Insert_facts ::
  "env \<Rightarrow> uuid_parse \<Rightarrow> projection \<Rightarrow> warehouse \<Rightarrow> (go_error + unit) \<times> warehouse" where
  "Insert_facts e up p w =
     (case insert_delivery_fact e up (pj_delivery p) w of
        (Inl err, w1) \<Rightarrow> (Inl err, w1)
      | (Inr _, w1) \<Rightarrow> insert_order_fact e up (pj_order p) w1)"

section \<open>The consumer\<close>

definition handle_record ::
  "uuid_parse \<Rightarrow> env \<Rightarrow> json option \<Rightarrow> warehouse \<Rightarrow> (go_error + unit) \<times> warehouse" where
  "handle_record up e value w =
     (case wrap ''decode event envelope'' (Unmarshal value) of
        Inl err \<Rightarrow> (Inl err, w)
      | Inr v \<Rightarrow>
          (let v = (if OccurredAt v = zero_time then v\<lparr>OccurredAt := clock e ''now''\<rparr> else v) in
           case Project e up v of
             Inl err \<Rightarrow> (Inl err, w)
           | Inr p \<Rightarrow>
               (if pj_delivery p = None \<and> pj_order p = None then (Inr (), w)
                else Insert_facts e up p w)))"

end
