(* ===== verification/Telemetry.thy ===== *)
theory Telemetry
  imports Config Complex_Main
begin

text \<open>
  The metrics of pkg/platform/telemetry/telemetry.go: what each observation does to the registry.
  A counter or gauge vector is a function of its labels, a histogram the list of its observations;
  the buckets, the exporters and the tracer are the client libraries'.
\<close>

record metrics =
  mt_http :: "string \<times> string \<times> string \<times> string \<Rightarrow> real list"
  mt_errors :: "string \<times> string \<times> string \<times> string \<Rightarrow> nat"
  mt_orders :: nat
  mt_lag :: "string \<times> string \<times> string \<Rightarrow> real option"
  mt_retries :: "string \<times> string \<Rightarrow> nat"
  mt_dead :: "string \<times> string \<Rightarrow> nat"
  mt_dlq_failures :: "string \<times> string \<Rightarrow> nat"
  mt_eta :: "string \<times> string \<Rightarrow> real list"
  mt_projection :: "string \<Rightarrow> real option"
  mt_on_time :: "string \<times> string \<Rightarrow> real option"
  mt_completed :: "string \<times> string \<Rightarrow> real option"

definition no_metrics :: metrics where
  "no_metrics = \<lparr>mt_http = (\<lambda>_. []), mt_errors = (\<lambda>_. 0), mt_orders = 0, mt_lag = (\<lambda>_. None),
     mt_retries = (\<lambda>_. 0), mt_dead = (\<lambda>_. 0), mt_dlq_failures = (\<lambda>_. 0), mt_eta = (\<lambda>_. []),
     mt_projection = (\<lambda>_. None), mt_on_time = (\<lambda>_. None), mt_completed = (\<lambda>_. None)\<rparr>"

definition in_seconds :: "duration \<Rightarrow> real" where
  "in_seconds d = of_int d / of_int second"

definition observe :: "'l \<Rightarrow> real \<Rightarrow> ('l \<Rightarrow> real list) \<Rightarrow> 'l \<Rightarrow> real list" where
  "observe l x h = h(l := h l @ [x])"

definition inc :: "'l \<Rightarrow> ('l \<Rightarrow> nat) \<Rightarrow> 'l \<Rightarrow> nat" where
  "inc l f = f(l := f l + 1)"

section \<open>Observations\<close>

definition ObserveHTTP :: "string \<Rightarrow> string \<Rightarrow> string \<Rightarrow> int \<Rightarrow> duration \<Rightarrow> metrics \<Rightarrow> metrics" where
  "ObserveHTTP service route method_name status d m =
     (let route = (if route = [] then ''unmatched'' else route);
          labels = (service, route, method_name, Itoa status);
          m1 = m\<lparr>mt_http := observe labels (in_seconds d) (mt_http m)\<rparr> in
      if status \<ge> 400 then m1\<lparr>mt_errors := inc labels (mt_errors m1)\<rparr> else m1)"

definition IncOrdersCreated :: "metrics \<Rightarrow> metrics" where
  "IncOrdersCreated m = m\<lparr>mt_orders := mt_orders m + 1\<rparr>"

definition ObserveKafkaRecord :: "string \<Rightarrow> string \<Rightarrow> int \<Rightarrow> int \<Rightarrow> int \<Rightarrow> metrics \<Rightarrow> metrics" where
  "ObserveKafkaRecord service topic part offset highWatermark m =
     (let lag = wrap64 (wrap64 (highWatermark - offset) - 1);
          lag = (if lag < 0 then 0 else lag) in
      m\<lparr>mt_lag := (mt_lag m)((service, topic, Itoa part) \<mapsto> of_int lag)\<rparr>)"

text \<open>A fetched partition: topic, partition, high watermark and the offsets of its records.\<close>

record fetched_partition =
  fp_topic :: string
  fp_partition :: int
  fp_high :: int
  fp_offsets :: "int list"

definition ObserveKafkaFetches :: "string \<Rightarrow> fetched_partition list \<Rightarrow> metrics \<Rightarrow> metrics" where
  "ObserveKafkaFetches service =
     fold (\<lambda>p m. if fp_offsets p = [] then m
        else ObserveKafkaRecord service (fp_topic p) (fp_partition p) (last (fp_offsets p)) (fp_high p) m)"

definition IncKafkaRetry :: "string \<Rightarrow> string \<Rightarrow> metrics \<Rightarrow> metrics" where
  "IncKafkaRetry service topic m = m\<lparr>mt_retries := inc (service, topic) (mt_retries m)\<rparr>"

definition IncKafkaDeadLetter :: "string \<Rightarrow> string \<Rightarrow> metrics \<Rightarrow> metrics" where
  "IncKafkaDeadLetter service topic m = m\<lparr>mt_dead := inc (service, topic) (mt_dead m)\<rparr>"

definition IncKafkaDLQPublishFailure :: "string \<Rightarrow> string \<Rightarrow> metrics \<Rightarrow> metrics" where
  "IncKafkaDLQPublishFailure service topic m =
     m\<lparr>mt_dlq_failures := inc (service, topic) (mt_dlq_failures m)\<rparr>"

definition ObserveETAPrediction :: "string \<Rightarrow> string \<Rightarrow> duration \<Rightarrow> metrics \<Rightarrow> metrics" where
  "ObserveETAPrediction caller status d m =
     m\<lparr>mt_eta := observe (caller, status) (in_seconds d) (mt_eta m)\<rparr>"

definition ObserveAnalyticsProjectionLag :: "string \<Rightarrow> duration \<Rightarrow> metrics \<Rightarrow> metrics" where
  "ObserveAnalyticsProjectionLag service d m =
     (let d = (if d < 0 then 0 else d) in
      m\<lparr>mt_projection := (mt_projection m)(service \<mapsto> in_seconds d)\<rparr>)"

definition ObserveDeliveryOnTimeRatio ::
  "string \<Rightarrow> string \<Rightarrow> real option \<Rightarrow> int \<Rightarrow> metrics \<Rightarrow> metrics" where
  "ObserveDeliveryOnTimeRatio service window ratio completed m =
     (let m1 = m\<lparr>mt_completed := (mt_completed m)((service, window) \<mapsto> of_int completed)\<rparr> in
      case ratio of None \<Rightarrow> m1 | Some r \<Rightarrow> m1\<lparr>mt_on_time := (mt_on_time m1)((service, window) \<mapsto> r)\<rparr>)"

section \<open>What the gauges show\<close>

lemma kafka_lag_nonneg: "mt_lag (ObserveKafkaRecord service topic p offset hw m) (service, topic, Itoa p) = Some x \<Longrightarrow> 0 \<le> x"
  by (auto simp: ObserveKafkaRecord_def Let_def split: if_splits)

text \<open>The lag is the number of records after the last one processed.\<close>

lemma kafka_lag_counts:
  assumes "0 \<le> offset" and "offset < hw" and "hw < 2 ^ 63"
  shows "mt_lag (ObserveKafkaRecord service topic p offset hw m) (service, topic, Itoa p) =
    Some (of_int (hw - offset - 1))"
  using assms by (simp add: ObserveKafkaRecord_def Let_def wrap64_id)

text \<open>The error counter of a set of labels counts the observations with an error status.\<close>

lemma http_errors_counted:
  "mt_errors (ObserveHTTP service route meth status d m) l =
     mt_errors m l + (if status \<ge> 400 \<and> l = (service, if route = [] then ''unmatched'' else route, meth, Itoa status) then 1 else 0)"
  by (simp add: ObserveHTTP_def Let_def inc_def)

end
