(* ===== verification/Dashboard.thy ===== *)
theory Dashboard
  imports Analytics Telemetry "HOL-Library.Multiset"
begin

text \<open>
  What is read from the warehouse: the queries of store.go, the endpoints of handler.go and the
  reporter of slo.go. \<open>final\<close> is the reading of a \<open>ReplacingMergeTree\<close> with \<open>FINAL\<close>: for each event
  id the row ingested last. The order in which ClickHouse delivers the rows it reads and the groups
  it forms is a parameter, so an \<open>ORDER BY\<close> leaves the order of equals open.
\<close>

section \<open>Reading with FINAL\<close>

fun newest :: "('f \<times> time) list \<Rightarrow> 'f" where
  "newest (r # rs) = fst (foldl (\<lambda>b x. if snd b \<le> snd x then x else b) r rs)"

definition final :: "('f \<Rightarrow> string) \<Rightarrow> ('f \<times> time) list \<Rightarrow> 'f list" where
  "final key rows =
     map (\<lambda>k. newest (filter (\<lambda>r. key (fst r) = k) rows)) (sort (remdups (map (key \<circ> fst) rows)))"

record product_stat =
  ps_product :: string
  ps_name :: string
  ps_quantity :: int

text \<open>The order of the rows of a table and of the groups of a \<open>GROUP BY\<close>: any at all.\<close>

record clickhouse =
  ch_rows :: "order_fact list \<Rightarrow> order_fact list"
  ch_groups :: "product_stat list \<Rightarrow> product_stat list"

definition any_order :: "clickhouse \<Rightarrow> bool" where
  "any_order db \<longleftrightarrow> (\<forall>fs. mset (ch_rows db fs) = mset fs) \<and> (\<forall>gs. mset (ch_groups db gs) = mset gs)"

definition by_id :: clickhouse where "by_id = \<lparr>ch_rows = id, ch_groups = id\<rparr>"

definition order_facts :: "clickhouse \<Rightarrow> warehouse \<Rightarrow> order_fact list" where
  "order_facts db w = ch_rows db (final of_event (wh_orders w))"

section \<open>Queries\<close>

record hour_bucket =
  hb_hour :: time
  hb_orders :: int

record eta_stats =
  es_predicted :: "real option"
  es_actual :: "real option"

record status_duration =
  sd_status :: string
  sd_average :: real

record analytics_summary =
  sm_hours :: "hour_bucket list"
  sm_eta :: eta_stats
  sm_on_time :: "real option"
  sm_cancellations :: int
  sm_products :: "product_stat list"
  sm_durations :: "status_duration list"

definition of_kind :: "string \<Rightarrow> order_fact list \<Rightarrow> order_fact list" where
  "of_kind eventType = filter (\<lambda>f. of_type f = eventType)"

definition hour_of :: "time \<Rightarrow> time" where
  "hour_of t = t - t mod (3600 * second)"

definition orders_by_hour :: "order_fact list \<Rightarrow> hour_bucket list" where
  "orders_by_hour fs =
     (let hours = map (hour_of \<circ> of_occurred) (of_kind ''order.created'' fs) in
      map (\<lambda>h. \<lparr>hb_hour = h, hb_orders = int (length (filter ((=) h) hours))\<rparr>) (sort (remdups hours)))"

definition OrdersByHour :: "clickhouse \<Rightarrow> env \<Rightarrow> warehouse \<Rightarrow> go_error + hour_bucket list" where
  "OrdersByHour db e w =
     andthen (io e ''orders by hour'') (\<lambda>_. Inr (orders_by_hour (order_facts db w)))"

text \<open>\<open>avg\<close> of a \<open>Nullable\<close> column: the \<open>NULL\<close>s are skipped, and over nothing it is \<open>NULL\<close>.\<close>

definition average :: "int option list \<Rightarrow> real option" where
  "average xs =
     (let ys = map the (filter (\<lambda>x. x \<noteq> None) xs) in
      if ys = [] then None else Some (of_int (sum_list ys) / of_nat (length ys)))"

definition ETA :: "clickhouse \<Rightarrow> env \<Rightarrow> warehouse \<Rightarrow> go_error + eta_stats" where
  "ETA db e w =
     andthen (io e ''eta'') (\<lambda>_.
       (let fs = of_kind ''delivery.completed'' (order_facts db w) in
        Inr \<lparr>es_predicted = average (map of_predicted fs), es_actual = average (map of_actual fs)\<rparr>))"

definition timed :: "order_fact \<Rightarrow> bool" where
  "timed f \<longleftrightarrow> of_predicted f \<noteq> None \<and> of_actual f \<noteq> None"

text \<open>A comparison with \<open>NULL\<close> is \<open>NULL\<close>, which \<open>countIf\<close> does not count.\<close>

definition on_time :: "order_fact \<Rightarrow> bool" where
  "on_time f =
     (case (of_actual f, of_predicted f) of (Some a, Some p) \<Rightarrow> a \<le> p | _ \<Rightarrow> False)"

definition OnTimeRatio :: "clickhouse \<Rightarrow> env \<Rightarrow> warehouse \<Rightarrow> go_error + real option" where
  "OnTimeRatio db e w =
     andthen (io e ''on time ratio'') (\<lambda>_.
       (let fs = of_kind ''delivery.completed'' (order_facts db w); n = length (filter timed fs) in
        Inr (if n = 0 then None else Some (of_nat (length (filter on_time fs)) / of_nat n))))"

definition day :: duration where "day = 24 * 3600 * second"

text \<open>\<open>now()\<close> of the database server is a number of whole seconds.\<close>

definition DeliverySLO :: "clickhouse \<Rightarrow> env \<Rightarrow> warehouse \<Rightarrow> go_error + real option \<times> int" where
  "DeliverySLO db e w =
     andthen (io e ''delivery slo'') (\<lambda>_.
       (let now = clock e ''server now'' - clock e ''server now'' mod second;
            fs = filter (\<lambda>f. now - day \<le> of_occurred f) (order_facts db w);
            completed = length (filter (\<lambda>f. of_type f = ''delivery.completed'' \<and> timed f) fs);
            onTime = length (filter (\<lambda>f. of_type f = ''delivery.completed'' \<and> timed f \<and> on_time f) fs) in
        if completed = 0 then Inr (None, 0)
        else Inr (Some (of_nat onTime / of_nat completed), int completed)))"

definition Cancellations :: "clickhouse \<Rightarrow> env \<Rightarrow> warehouse \<Rightarrow> go_error + int" where
  "Cancellations db e w =
     andthen (io e ''cancellations'') (\<lambda>_.
       Inr (int (length (remdups (map of_order (filter (\<lambda>f. of_status f = ''cancelled'') (order_facts db w)))))))"

text \<open>\<open>arrayJoin(arrayZip(...))\<close>: one row per item of each created order.\<close>

definition sold_items :: "order_fact list \<Rightarrow> (string \<times> string \<times> int) list" where
  "sold_items fs =
     concat (map (\<lambda>f. zip (of_products f) (zip (of_names f) (of_quantities f))) (of_kind ''order.created'' fs))"

definition product_groups :: "(string \<times> string \<times> int) list \<Rightarrow> product_stat list" where
  "product_groups items =
     map (\<lambda>(p, n). \<lparr>ps_product = p, ps_name = n, ps_quantity =
            sum_list (map (snd \<circ> snd) (filter (\<lambda>(q, m, _). q = p \<and> m = n) items)) mod 2 ^ 64\<rparr>)
       (remdups (map (\<lambda>(p, n, _). (p, n)) items))"

definition popular_products :: "clickhouse \<Rightarrow> order_fact list \<Rightarrow> product_stat list" where
  "popular_products db fs =
     take 10 (sort_key (\<lambda>g. - ps_quantity g) (sort_key ps_name (ch_groups db (product_groups (sold_items fs)))))"

definition PopularProducts :: "clickhouse \<Rightarrow> env \<Rightarrow> warehouse \<Rightarrow> go_error + product_stat list" where
  "PopularProducts db e w =
     andthen (io e ''popular products'') (\<lambda>_. Inr (popular_products db (order_facts db w)))"

text \<open>
  \<open>lagInFrame(occurred_at, 1, occurred_at) OVER (PARTITION BY order_id ORDER BY occurred_at)\<close>, and
  \<open>dateDiff('second', ...)\<close>, the number of second boundaries between two times.
\<close>

definition transitions :: "order_fact list \<Rightarrow> (string \<times> int) list" where
  "transitions fs =
     (let kept = filter (\<lambda>f. of_type f = ''order.created'' \<or> of_type f = ''order.status_changed'') fs in
      concat (map (\<lambda>o_id.
        (let rows = sort_key of_occurred (filter (\<lambda>f. of_order f = o_id) kept) in
         map (\<lambda>(prev, f). (of_previous f, of_occurred f div second - of_occurred prev div second))
           (zip (take 1 rows @ rows) rows)))
        (sort (remdups (map of_order kept)))))"

definition status_durations :: "order_fact list \<Rightarrow> status_duration list" where
  "status_durations fs =
     (let ts = filter (\<lambda>(st, d). st \<noteq> [] \<and> 0 < d) (transitions fs) in
      map (\<lambda>st. (let ds = map snd (filter (\<lambda>t. fst t = st) ts) in
             \<lparr>sd_status = st, sd_average = of_int (sum_list ds) / of_nat (length ds)\<rparr>))
        (sort (remdups (map fst ts))))"

definition StatusDurations :: "clickhouse \<Rightarrow> env \<Rightarrow> warehouse \<Rightarrow> go_error + status_duration list" where
  "StatusDurations db e w =
     andthen (io e ''status durations'') (\<lambda>_. Inr (status_durations (order_facts db w)))"

definition Summary :: "clickhouse \<Rightarrow> env \<Rightarrow> warehouse \<Rightarrow> go_error + analytics_summary" where
  "Summary db e w =
     andthen (OrdersByHour db e w) (\<lambda>hours.
     andthen (ETA db e w) (\<lambda>eta.
     andthen (OnTimeRatio db e w) (\<lambda>ratio.
     andthen (Cancellations db e w) (\<lambda>cancelled.
     andthen (PopularProducts db e w) (\<lambda>products.
     andthen (StatusDurations db e w) (\<lambda>durations.
       Inr \<lparr>sm_hours = hours, sm_eta = eta, sm_on_time = ratio, sm_cancellations = cancelled,
            sm_products = products, sm_durations = durations\<rparr>))))))"

section \<open>Endpoints\<close>

definition json_ratio :: "real option \<Rightarrow> json" where
  "json_ratio x = (case x of None \<Rightarrow> JNull | Some r \<Rightarrow> JFloat r)"

definition json_hours :: "hour_bucket list \<Rightarrow> json" where
  "json_hours hs = JArr (map (\<lambda>h. JObj [(''hour'', JTime (hb_hour h)), (''orders'', JInt (hb_orders h))]) hs)"

definition json_eta :: "eta_stats \<Rightarrow> json" where
  "json_eta s = JObj
     [(''average_predicted_eta_seconds'', json_ratio (es_predicted s)),
      (''average_actual_eta_seconds'', json_ratio (es_actual s))]"

definition json_stats :: "product_stat list \<Rightarrow> json" where
  "json_stats ps = JArr (map (\<lambda>p. JObj [(''product_id'', JStr (ps_product p)),
     (''product_name'', JStr (ps_name p)), (''quantity'', JInt (ps_quantity p))]) ps)"

definition json_durations :: "status_duration list \<Rightarrow> json" where
  "json_durations ds = JArr (map (\<lambda>d. JObj [(''status'', JStr (sd_status d)),
     (''average_duration_seconds'', JFloat (sd_average d))]) ds)"

definition json_summary :: "analytics_summary \<Rightarrow> json" where
  "json_summary s = JObj
     [(''orders_by_hour'', json_hours (sm_hours s)), (''eta'', json_eta (sm_eta s)),
      (''on_time_ratio'', json_ratio (sm_on_time s)), (''cancellations'', JInt (sm_cancellations s)),
      (''popular_products'', json_stats (sm_products s)), (''status_durations'', json_durations (sm_durations s))]"

text \<open>Each endpoint answers with what its query returns, or with the error of \<open>failed\<close>.\<close>

definition failed_query :: "ctx \<Rightarrow> reply" where
  "failed_query c = WriteError (ctx_correlation c)
     (Some (Error 500 ''analytics_query_failed'' ''analytics query failed'' None))"

definition answer :: "ctx \<Rightarrow> ('a \<Rightarrow> json) \<Rightarrow> go_error + 'a \<Rightarrow> reply" where
  "answer c enc r = (case r of Inl _ \<Rightarrow> failed_query c | Inr x \<Rightarrow> WriteJSON 200 (enc x))"

definition summary :: "clickhouse \<Rightarrow> env \<Rightarrow> ctx \<Rightarrow> warehouse \<Rightarrow> reply" where
  "summary db e c w = answer c json_summary (Summary db e w)"

definition ordersByHour :: "clickhouse \<Rightarrow> env \<Rightarrow> ctx \<Rightarrow> warehouse \<Rightarrow> reply" where
  "ordersByHour db e c w = answer c (\<lambda>v. JObj [(''orders_by_hour'', json_hours v)]) (OrdersByHour db e w)"

definition eta_averages :: "clickhouse \<Rightarrow> env \<Rightarrow> ctx \<Rightarrow> warehouse \<Rightarrow> reply" where
  "eta_averages db e c w = answer c json_eta (ETA db e w)"

definition onTime :: "clickhouse \<Rightarrow> env \<Rightarrow> ctx \<Rightarrow> warehouse \<Rightarrow> reply" where
  "onTime db e c w = answer c (\<lambda>v. JObj [(''on_time_ratio'', json_ratio v)]) (OnTimeRatio db e w)"

definition cancellations :: "clickhouse \<Rightarrow> env \<Rightarrow> ctx \<Rightarrow> warehouse \<Rightarrow> reply" where
  "cancellations db e c w = answer c (\<lambda>v. JObj [(''cancellations'', JInt v)]) (Cancellations db e w)"

definition popularProducts :: "clickhouse \<Rightarrow> env \<Rightarrow> ctx \<Rightarrow> warehouse \<Rightarrow> reply" where
  "popularProducts db e c w = answer c (\<lambda>v. JObj [(''popular_products'', json_stats v)]) (PopularProducts db e w)"

definition statusDurations :: "clickhouse \<Rightarrow> env \<Rightarrow> ctx \<Rightarrow> warehouse \<Rightarrow> reply" where
  "statusDurations db e c w = answer c (\<lambda>v. JObj [(''status_durations'', json_durations v)]) (StatusDurations db e w)"

section \<open>The delivery SLO\<close>

definition deliverySLOWindow :: string where "deliverySLOWindow = ''24h''"

text \<open>A ratio that is missing leaves the last one in its gauge; a failed query leaves both gauges.\<close>

definition collect :: "clickhouse \<Rightarrow> env \<Rightarrow> warehouse \<Rightarrow> metrics \<Rightarrow> metrics" where
  "collect db e w m =
     (case DeliverySLO db e w of
        Inl _ \<Rightarrow> m
      | Inr (ratio, completed) \<Rightarrow>
          ObserveDeliveryOnTimeRatio ''analytics-worker'' deliverySLOWindow ratio completed m)"

end
