(* ===== verification/DashboardProps.thy ===== *)
theory DashboardProps
  imports Dashboard OrderHistory
begin

text \<open>
  What the dashboard shows is a function of the events: neither redelivery nor the order of
  arrival nor failed and lost insertions show in it. The interface is a log of facts
  (\<open>event_log\<close>): a delivered event appends its fact or nothing, and its fact is there once a
  delivery has succeeded.
\<close>

section \<open>Logs of facts\<close>

fun succeeded :: "('s, 'r) handler \<Rightarrow> (env \<times> json option) list \<Rightarrow> 's \<Rightarrow> json option list" where
  "succeeded handle [] s = []"
| "succeeded handle ((e, v) # ds) s =
     (case handle e v s of
        (Inl _, s') \<Rightarrow> succeeded handle ds s'
      | (Inr _, s') \<Rightarrow> v # succeeded handle ds s')"

locale event_log =
  fixes handle :: "('s, 'r) handler"
    and facts :: "'s \<Rightarrow> 'f list"
    and fact_of :: "json option \<Rightarrow> 'f option"
    and dated :: "json option \<Rightarrow> bool"
  assumes appends: "dated v \<Longrightarrow> facts (snd (handle e v s)) = facts s \<or>
      (\<exists>f. fact_of v = Some f \<and> facts (snd (handle e v s)) = facts s @ [f])"
    and stored: "dated v \<Longrightarrow> handle e v s = (Inr u, s') \<Longrightarrow> fact_of v = Some f \<Longrightarrow> f \<in> set (facts s')"
begin

lemma facts_come_from_events:
  "\<forall>v \<in> snd ` set ds. dated v \<Longrightarrow>
     set (facts (deliver_all handle ds s)) \<subseteq> set (facts s) \<union> {f. \<exists>v \<in> snd ` set ds. fact_of v = Some f}"
proof (induction ds arbitrary: s)
  case (Cons d ds)
  obtain e v where d: "d = (e, v)" by (cases d)
  then have "set (facts (snd (handle e v s))) \<subseteq> set (facts s) \<union> {f. fact_of v = Some f}"
    using appends[of v e s] Cons.prems by auto
  then show ?case using Cons.IH[of "snd (handle e v s)"] Cons.prems d by auto
qed simp

lemma facts_stay:
  "\<forall>v \<in> snd ` set ds. dated v \<Longrightarrow> set (facts s) \<subseteq> set (facts (deliver_all handle ds s))"
proof (induction ds arbitrary: s)
  case (Cons d ds)
  obtain e v where d: "d = (e, v)" by (cases d)
  have "set (facts s) \<subseteq> set (facts (snd (handle e v s)))" using appends[of v e s] Cons.prems d by auto
  then show ?case using Cons.IH[of "snd (handle e v s)"] Cons.prems d by auto
qed simp

lemma succeeded_are_stored:
  "\<forall>v \<in> snd ` set ds. dated v \<Longrightarrow> v \<in> set (succeeded handle ds s) \<Longrightarrow> fact_of v = Some f \<Longrightarrow>
     f \<in> set (facts (deliver_all handle ds s))"
proof (induction ds arbitrary: s)
  case (Cons d ds)
  obtain e x where d: "d = (e, x)" by (cases d)
  obtain r t where h: "handle e x s = (r, t)" by fastforce
  show ?case
  proof (cases "v \<in> set (succeeded handle ds t)")
    case True
    then show ?thesis using Cons d h by simp
  next
    case False
    then obtain u where "r = Inr u" "x = v" using Cons.prems(2) d h by (cases r) auto
    then have "f \<in> set (facts t)" using stored h Cons.prems d by auto
    then show ?thesis using facts_stay[of ds t] Cons.prems(1) d h by auto
  qed
qed simp

text \<open>Every event that has a fact was handled with success at least once.\<close>

lemma facts_are_those_of_events:
  assumes "\<forall>v \<in> snd ` set ds. dated v" and "facts s = []"
    and "\<forall>v \<in> snd ` set ds. fact_of v \<noteq> None \<longrightarrow> v \<in> set (succeeded handle ds s)"
  shows "set (facts (deliver_all handle ds s)) = {f. \<exists>v \<in> snd ` set ds. fact_of v = Some f}"
  using facts_come_from_events[OF assms(1), of s] succeeded_are_stored[OF assms(1), of _ s] assms(2,3)
  by (fastforce dest: bspec)

end

section \<open>The facts of an event\<close>

definition dated_event :: "json option \<Rightarrow> bool" where
  "dated_event value \<longleftrightarrow> (\<forall>v. Unmarshal value = Inr v \<longrightarrow> OccurredAt v \<noteq> zero_time)"

definition projection_of :: "uuid_parse \<Rightarrow> json option \<Rightarrow> projection option" where
  "projection_of up value =
     (case Unmarshal value of Inl _ \<Rightarrow> None | Inr v \<Rightarrow> ok (Project quiet_env up v))"

definition order_fact_row :: "uuid_parse \<Rightarrow> json option \<Rightarrow> order_fact option" where
  "order_fact_row up value =
     (case projection_of up value of
        None \<Rightarrow> None
      | Some p \<Rightarrow>
          (case pj_order p of None \<Rightarrow> None
           | Some f \<Rightarrow>
               (case pj_delivery p of
                  None \<Rightarrow> ok (order_row_of up f)
                | Some d \<Rightarrow> (if is_ok (delivery_row_of up d) then ok (order_row_of up f) else None))))"

lemma Project_env: "OccurredAt v \<noteq> zero_time \<Longrightarrow> Project e up v = Project quiet_env up v"
  by (simp add: Project_def)

lemma insert_delivery_orders:
  "insert_delivery_fact e up x w = (r, w') \<Longrightarrow> wh_orders w' = wh_orders w \<and>
     (is_ok r \<longrightarrow> (\<forall>d. x = Some d \<longrightarrow> is_ok (delivery_row_of up d)))"
  by (auto simp: insert_delivery_fact_def split: option.splits sum.splits prod.splits)

lemma insert_order_cases:
  assumes "insert_order_fact e up x w = (r, w')"
  obtains (none) "w' = w" "is_ok r \<longrightarrow> x = None"
  | (row) f row where "x = Some f" "order_row_of up f = Inr row"
      "wh_orders w' = wh_orders w @ [(row, clock e ''ingested'')]"
  using assms
  by (cases x; cases "order_row_of up (the x)")
     (auto simp: insert_order_fact_def exec_append_def split: if_splits)

lemma Insert_facts_cases:
  assumes "Insert_facts e up p w = (r, w')"
  obtains (none) "wh_orders w' = wh_orders w" "is_ok r \<longrightarrow> pj_order p = None"
  | (row) f row where "pj_order p = Some f" "order_row_of up f = Inr row"
      "\<forall>d. pj_delivery p = Some d \<longrightarrow> is_ok (delivery_row_of up d)"
      "wh_orders w' = wh_orders w @ [(row, clock e ''ingested'')]"
proof -
  obtain r1 w1 where d: "insert_delivery_fact e up (pj_delivery p) w = (r1, w1)" by fastforce
  show ?thesis
  proof (cases r1)
    case (Inl err)
    then show ?thesis using assms d none insert_delivery_orders[OF d] by (auto simp: Insert_facts_def)
  next
    case (Inr u)
    then have "insert_order_fact e up (pj_order p) w1 = (r, w')" using assms d by (simp add: Insert_facts_def)
    then show ?thesis
      by (cases rule: insert_order_cases)
         (use insert_delivery_orders[OF d] Inr none row in \<open>auto\<close>)
  qed
qed

lemma handle_record_cases:
  assumes "handle_record up e value w = (r, w')" and "dated_event value"
  obtains (none) "wh_orders w' = wh_orders w" "is_ok r \<longrightarrow> order_fact_row up value = None"
  | (row) row where "order_fact_row up value = Some row"
      "wh_orders w' = wh_orders w @ [(row, clock e ''ingested'')]"
proof (cases "Unmarshal value")
  case (Inl err)
  then have "handle_record up e value w = (Inl (Wrapped ''decode event envelope'' err), w)"
    by (simp add: handle_record_def)
  then have "wh_orders w' = wh_orders w" "\<not> is_ok r" using assms(1) by auto
  then show ?thesis by (intro none) simp_all
next
  case (Inr v)
  then have t: "OccurredAt v \<noteq> zero_time" using assms(2) by (simp add: dated_event_def)
  have h: "handle_record up e value w = (case Project quiet_env up v of
      Inl err \<Rightarrow> (Inl err, w)
    | Inr p \<Rightarrow> if pj_delivery p = None \<and> pj_order p = None then (Inr (), w) else Insert_facts e up p w)"
    using Inr t by (simp add: handle_record_def Project_env[OF t, of e up])
  show ?thesis
  proof (cases "Project quiet_env up v")
    case (Inl err)
    then have "wh_orders w' = wh_orders w" "\<not> is_ok r" using assms(1) h by auto
    then show ?thesis by (intro none) simp_all
  next
    case (Inr p)
    have po: "projection_of up value = Some p"
      using Inr \<open>Unmarshal value = Inr v\<close> by (simp add: projection_of_def)
    show ?thesis
    proof (cases "pj_delivery p = None \<and> pj_order p = None")
      case True
      then show ?thesis using assms(1) h Inr po by (intro none) (auto simp: order_fact_row_def)
    next
      case False
      then have "Insert_facts e up p w = (r, w')" using assms(1) Inr h by auto
      then show ?thesis
      proof (cases rule: Insert_facts_cases)
        case none
        then show ?thesis using po by (intro that(1)) (auto simp: order_fact_row_def)
      next
        case (row f x)
        have "order_fact_row up value = Some x"
          using row po by (cases "pj_delivery p") (simp_all add: order_fact_row_def)
        then show ?thesis using row(4) by (rule that(2))
      qed
    qed
  qed
qed

interpretation orders_log: event_log "handle_record up" "\<lambda>w. map fst (wh_orders w)" "order_fact_row up" dated_event
  for up
proof unfold_locales
  fix v e and w :: warehouse
  assume d: "dated_event v"
  obtain r t where h: "handle_record up e v w = (r, t)" by fastforce
  then show "map fst (wh_orders (snd (handle_record up e v w))) = map fst (wh_orders w) \<or>
      (\<exists>f. order_fact_row up v = Some f \<and>
         map fst (wh_orders (snd (handle_record up e v w))) = map fst (wh_orders w) @ [f])"
    using d by (cases rule: handle_record_cases) (use h in auto)
next
  fix v e u f and w w' :: warehouse
  assume "dated_event v" "handle_record up e v w = (Inr u, w')" "order_fact_row up v = Some f"
  then show "f \<in> set (map fst (wh_orders w'))"
    by (cases rule: handle_record_cases[OF \<open>handle_record up e v w = (Inr u, w')\<close> \<open>dated_event v\<close>]) auto
qed

section \<open>What FINAL reads\<close>

lemma newest_in: "rs \<noteq> [] \<Longrightarrow> newest rs \<in> fst ` set rs"
proof -
  assume "rs \<noteq> []"
  then obtain r xs where rs: "rs = r # xs" by (cases rs) auto
  have "foldl (\<lambda>b x. if snd b \<le> snd x then x else b) r xs \<in> insert r (set xs)"
  proof (induction xs arbitrary: r)
    case (Cons a xs)
    show ?case using Cons.IH[of "if snd r \<le> snd a then a else r"] by (cases "snd r \<le> snd a") (simp_all, blast)
  qed simp
  then show ?thesis using rs by auto
qed

text \<open>Rows with the same key hold the same fact.\<close>

definition keyed_facts :: "('f \<Rightarrow> string) \<Rightarrow> 'f set \<Rightarrow> bool" where
  "keyed_facts key F \<longleftrightarrow> (\<forall>f \<in> F. \<forall>g \<in> F. key f = key g \<longrightarrow> f = g)"

lemma newest_of_key:
  assumes "keyed_facts key (fst ` set rows)" and "f \<in> fst ` set rows"
  shows "newest (filter (\<lambda>r. key (fst r) = key f) rows) = f"
proof -
  have "filter (\<lambda>r. key (fst r) = key f) rows \<noteq> []" using assms(2) by (auto simp: filter_empty_conv)
  from newest_in[OF this] show ?thesis using assms unfolding keyed_facts_def by fastforce
qed

lemma final_depends_on_facts:
  assumes "fst ` set rows = fst ` set rows'" and "keyed_facts key (fst ` set rows)"
  shows "final key rows = final key rows'"
proof -
  have k: "set (map (key \<circ> fst) rows) = set (map (key \<circ> fst) rows')"
    using arg_cong[OF assms(1), of "(`) key"] by (simp add: image_image)
  then have ks: "sort (remdups (map (key \<circ> fst) rows)) = sort (remdups (map (key \<circ> fst) rows'))"
    by (metis sorted_list_of_set_sort_remdups)
  have "newest (filter (\<lambda>r. key (fst r) = x) rows) = newest (filter (\<lambda>r. key (fst r) = x) rows')"
    if "x \<in> set (sort (remdups (map (key \<circ> fst) rows)))" for x
  proof -
    obtain f where "f \<in> fst ` set rows" "x = key f" using \<open>x \<in> _\<close> by auto
    then show ?thesis using newest_of_key[of key rows f] newest_of_key[of key rows' f] assms by simp
  qed
  then show ?thesis unfolding final_def ks[symmetric] by (intro map_cong refl) blast
qed

section \<open>Events and their ids\<close>

lemma add_items_keep: "for_each (add_item up) xs f = Inr g \<Longrightarrow> of_event g = of_event f"
  by (induction xs arbitrary: f) (auto simp: err_simps add_item_def split: option.splits)

lemma order_fact_of_event: "order_fact_of up v p o_id st t = Inr f \<Longrightarrow> of_event f = EventID v"
  using add_items_keep[of up "pl_items p"]
  by (fastforce simp: order_fact_of_def Let_def andthen_Inr split: if_splits)

lemma Project_order_event: "Project e up v = Inr p \<Longrightarrow> pj_order p = Some f \<Longrightarrow> of_event f = EventID v"
  by (auto simp: Project_def Let_def andthen_Inr wrap_Inr dest!: order_fact_of_event
      split: if_splits option.splits)

lemma order_fact_row_event:
  assumes "order_fact_row up value = Some row"
  shows "\<exists>v. Unmarshal value = Inr v \<and> up (EventID v) = Some (of_event row)"
proof -
  obtain p f where p: "projection_of up value = Some p" "pj_order p = Some f" "order_row_of up f = Inr row"
    using assms by (auto simp: order_fact_row_def ok_def split: option.splits if_splits sum.splits)
  then obtain v where v: "Unmarshal value = Inr v" "Project quiet_env up v = Inr p"
    by (auto simp: projection_of_def ok_def split: sum.splits)
  then have "of_event f = EventID v" using p(2) Project_order_event by blast
  then show ?thesis using v(1) p(3)
    by (auto simp: order_row_of_def MustParse_def andthen_Inr split: option.splits)
qed

text \<open>An event id names one event: records with the same id hold the same envelope.\<close>

definition ids_name_events :: "uuid_parse \<Rightarrow> json option set \<Rightarrow> bool" where
  "ids_name_events up vals \<longleftrightarrow> (\<forall>a \<in> vals. \<forall>b \<in> vals. \<forall>v u. Unmarshal a = Inr v \<longrightarrow> Unmarshal b = Inr u \<longrightarrow>
     up (EventID v) \<noteq> None \<longrightarrow> up (EventID v) = up (EventID u) \<longrightarrow> v = u)"

lemma order_rows_keyed:
  assumes "ids_name_events up vals"
  shows "keyed_facts of_event {f. \<exists>v \<in> vals. order_fact_row up v = Some f}"
  unfolding keyed_facts_def
proof (intro ballI impI)
  fix f g assume "f \<in> {f. \<exists>v \<in> vals. order_fact_row up v = Some f}" "g \<in> {f. \<exists>v \<in> vals. order_fact_row up v = Some f}"
    and k: "of_event f = of_event g"
  then obtain a b where a: "a \<in> vals" "order_fact_row up a = Some f" and b: "b \<in> vals" "order_fact_row up b = Some g"
    by blast
  obtain v u where v: "Unmarshal a = Inr v" "up (EventID v) = Some (of_event f)"
    and u: "Unmarshal b = Inr u" "up (EventID u) = Some (of_event g)"
    using order_fact_row_event[OF a(2)] order_fact_row_event[OF b(2)] by blast
  then have "v = u" using assms a(1) b(1) k unfolding ids_name_events_def by auto
  then show "f = g" using a(2) b(2) v(1) u(1) by (simp add: order_fact_row_def projection_of_def)
qed

definition no_facts :: warehouse where
  "no_facts = \<lparr>wh_deliveries = [], wh_orders = []\<rparr>"

text \<open>A history in which every record that makes a fact is handled with success at least once.\<close>

definition delivered_well :: "uuid_parse \<Rightarrow> (env \<times> json option) list \<Rightarrow> bool" where
  "delivered_well up ds \<longleftrightarrow> (\<forall>v \<in> snd ` set ds. dated_event v \<and>
     (order_fact_row up v \<noteq> None \<longrightarrow> v \<in> set (succeeded (handle_record up) ds no_facts)))"

lemma facts_of_history:
  assumes "delivered_well up ds"
  shows "fst ` set (wh_orders (deliver_all (handle_record up) ds no_facts)) =
    {f. \<exists>v \<in> snd ` set ds. order_fact_row up v = Some f}"
  using orders_log.facts_are_those_of_events[of ds no_facts up] assms
  by (simp add: delivered_well_def no_facts_def)

section \<open>A placed order\<close>

lemma add_items_all:
  assumes "\<forall>i \<in> set xs. up (ei_product i) \<noteq> None"
  shows "for_each (add_item up) xs f = Inr (f\<lparr>of_products := of_products f @ map (the \<circ> up \<circ> ei_product) xs,
    of_names := of_names f @ map ei_name xs, of_quantities := of_quantities f @ map ei_quantity xs\<rparr>)"
  using assms by (induction xs arbitrary: f) (auto simp: add_item_def)

definition event_item_of :: "order_item \<Rightarrow> event_item" where
  "event_item_of i = \<lparr>ei_product = oi_product i, ei_name = oi_name i, ei_quantity = oi_quantity i\<rparr>"

lemma decode_event_item_json:
  "0 \<le> oi_quantity i \<Longrightarrow> oi_quantity i < 2 ^ 32 \<Longrightarrow>
     decode_event_item (json_order_item i) = Inr (event_item_of i)"
  by (simp add: decode_event_item_def json_order_item_def event_item_of_def same_key_def ascii_lower_def to_uint_def)

definition quantities_ok :: "order \<Rightarrow> bool" where
  "quantities_ok v \<longleftrightarrow> 0 \<le> od_total v \<and> od_total v < 2 ^ 64 \<and>
     (\<forall>i \<in> set (od_items v). uuid_key (oi_product i) \<noteq> None \<and> 0 \<le> oi_quantity i \<and> oi_quantity i < 2 ^ 32)"

lemma to_list_image:
  "(\<And>x. x \<in> set xs \<Longrightarrow> enc x \<noteq> JNull \<and> conv (enc x) = Some (f x)) \<Longrightarrow> to_list conv z (map enc xs) = Some (map f xs)"
  by (induction xs) auto

lemma created_keys: "plain_key ''order_id''" "plain_key ''user_id''" "plain_key ''reservation_id''" "plain_key ''currency''"
    "plain_key ''total_amount_minor''" "plain_key ''item_count''" "plain_key ''items''" "plain_key ''created_at''"
    "plain_key ''delivery_latitude''" "plain_key ''delivery_longitude''" "plain_key ''delivery_id''"
    "plain_key ''courier_id''" "plain_key ''status''" "plain_key ''previous_status''" "plain_key ''new_status''"
    "plain_key ''latitude''" "plain_key ''longitude''" "plain_key ''predicted_eta_seconds''" "plain_key ''actual_eta_seconds''"
  by code_simp+

lemma decode_created_payload:
  assumes "quantities_ok v"
  shows "\<exists>p. decode_event_payload (Some (created_payload v)) = Inr p \<and> pl_order p = od_id v \<and>
     pl_total p = od_total v \<and> pl_currency p = od_currency v \<and> pl_items p = map event_item_of (od_items v)"
proof -
  have "to_list (ok \<circ> decode_event_item) zero_item (map json_order_item (od_items v)) =
      Some (map event_item_of (od_items v))"
    using assms by (intro to_list_image) (auto simp: quantities_ok_def decode_event_item_json)
  then show ?thesis using assms
    by (simp add: decode_event_payload_def created_payload_def same_key_plain created_keys to_uint_def quantities_ok_def)
qed

lemma created_order_row:
  assumes "quantities_ok v" and "uuid_key (od_id v) = Some k" and "\<And>s x. uuid_key s = Some x \<Longrightarrow> up s = Some x"
    and "EventType m = ''order.created''" and "Payload m = Some (created_payload v)" and "OccurredAt m \<noteq> zero_time"
    and "uuid_key (EventID m) = Some j"
  shows "\<exists>f row. Project e up m = Inr \<lparr>pj_delivery = None, pj_order = Some f\<rparr> \<and> order_row_of up f = Inr row \<and>
     of_event row = j \<and> of_order row = k \<and> of_status row = ''created'' \<and> of_total row = od_total v \<and>
     of_currency row = od_currency v \<and> of_names row = map oi_name (od_items v) \<and>
     of_quantities row = map oi_quantity (od_items v) \<and>
     map Some (of_products row) = map (uuid_key \<circ> oi_product) (od_items v)"
proof -
  obtain p where p: "decode_event_payload (Some (created_payload v)) = Inr p" "pl_order p = od_id v"
      "pl_total p = od_total v" "pl_currency p = od_currency v" "pl_items p = map event_item_of (od_items v)"
    using decode_created_payload[OF assms(1)] by blast
  have items: "\<forall>i \<in> set (pl_items p). up (ei_product i) \<noteq> None"
    using assms(1,3) p(5) by (fastforce simp: quantities_ok_def event_item_of_def)
  have prods: "map Some (map (the \<circ> up \<circ> ei_product) (pl_items p)) = map (uuid_key \<circ> oi_product) (od_items v)"
    using assms(1,3) p(5) by (fastforce simp: quantities_ok_def event_item_of_def)
  have ids: "up (od_id v) = Some k" "up k = Some k" "up (EventID m) = Some j"
    using assms(2,3,7) uuid_key_idem[OF assms(2)] by auto
  show ?thesis
    using p ids assms(4-6) add_items_all[OF items] prods
    by (simp add: Project_def Let_def order_fact_of_def isOrderEvent_def isDeliveryEvent_def order_row_of_def
        MustParse_def comp_def event_item_of_def)
qed

section \<open>Queries over rows in any order\<close>

lemma sort_remdups_set: "set xs = set ys \<Longrightarrow> sort (remdups xs) = sort (remdups ys)"
  by (metis sorted_list_of_set_sort_remdups)

lemma mset_remdups: "set xs = set ys \<Longrightarrow> mset (remdups xs) = mset (remdups ys)"
  by (simp add: set_eq_iff_mset_remdups_eq)

lemma filter_length_mset: "mset fs = mset gs \<Longrightarrow> length (filter P fs) = length (filter P gs)"
  by (metis mset_filter size_mset)

lemma sum_list_mset: "mset xs = mset ys \<Longrightarrow> sum_list xs = (sum_list ys :: int)"
  by (metis sum_mset_sum_list)

lemma of_kind_mset: "mset fs = mset gs \<Longrightarrow> mset (of_kind k fs) = mset (of_kind k gs)"
  by (simp add: of_kind_def)

lemma orders_by_hour_mset:
  assumes "mset fs = mset gs"
  shows "orders_by_hour fs = orders_by_hour gs"
proof -
  let ?h = "\<lambda>xs. map (hour_of \<circ> of_occurred) (of_kind ''order.created'' xs)"
  have m: "mset (?h fs) = mset (?h gs)" using of_kind_mset[OF assms] by simp
  then have "sort (remdups (?h fs)) = sort (remdups (?h gs))" by (intro sort_remdups_set mset_eq_setD)
  then show ?thesis using filter_length_mset[OF m] by (simp add: orders_by_hour_def Let_def)
qed

lemma average_mset:
  assumes "mset xs = mset ys"
  shows "average xs = average ys"
proof -
  let ?k = "\<lambda>xs. map the (filter (\<lambda>x. x \<noteq> None) xs)"
  have m: "mset (?k xs) = mset (?k ys)" using assms by simp
  then have "sum_list (?k xs) = sum_list (?k ys)" "length (?k xs) = length (?k ys)" "?k xs = [] \<longleftrightarrow> ?k ys = []"
    using sum_list_mset mset_eq_length by (blast, blast, metis mset_zero_iff)
  then show ?thesis by (simp add: average_def Let_def)
qed

text \<open>Two stable sorts in a row put rows in one order, when no two share both keys.\<close>

lemma two_sorts_mset:
  assumes "mset xs = mset ys" and "inj_on (\<lambda>x. (f x, g x)) (set xs)"
  shows "sort_key f (sort_key g xs) = sort_key f (sort_key g ys)"
proof (rule properties_for_sort_key)
  fix k assume "k \<in> set (sort_key f (sort_key g ys))"
  have "inj_on g (set (filter (\<lambda>x. f k = f x) xs))" using assms(2) by (auto simp: inj_on_def)
  moreover have "mset (filter (\<lambda>x. f k = f x) xs) = mset (filter (\<lambda>x. f k = f x) ys)" using assms(1) by simp
  ultimately have "sort_key g (filter (\<lambda>x. f k = f x) xs) = sort_key g (filter (\<lambda>x. f k = f x) ys)"
    by (intro sort_key_eq_sort_key)
  moreover have stable: "filter (\<lambda>x. f k = f x) (sort_key f zs) = filter (\<lambda>x. f k = f x) zs" for zs
    by (rule sort_key_stable[of f "f k" zs, unfolded eq_commute[of _ "f k"]])
  ultimately show "filter (\<lambda>x. f k = f x) (sort_key f (sort_key g ys)) = filter (\<lambda>x. f k = f x) (sort_key g xs)"
    by (simp only: stable filter_sort[where f = g])
qed (use assms(1) in simp_all)

text \<open>No two products of the list share their quantity and their name.\<close>

definition distinct_sales :: "order_fact list \<Rightarrow> bool" where
  "distinct_sales fs \<longleftrightarrow> inj_on (\<lambda>g. (- ps_quantity g, ps_name g)) (set (product_groups (sold_items fs)))"

lemma product_groups_mset:
  assumes "mset items = mset items'"
  shows "mset (product_groups items) = mset (product_groups items')"
proof -
  have "sum_list (map (snd \<circ> snd) (filter P items)) = sum_list (map (snd \<circ> snd) (filter P items'))"
    for P :: "string \<times> string \<times> int \<Rightarrow> bool"
    using assms by (intro sum_list_mset) simp
  moreover have "mset (remdups (map (\<lambda>(p, n, _). (p, n)) items)) = mset (remdups (map (\<lambda>(p, n, _). (p, n)) items'))"
    using mset_eq_setD[OF assms] by (intro mset_remdups) simp
  ultimately show ?thesis by (simp add: product_groups_def)
qed

lemma sold_items_mset:
  assumes "mset fs = mset gs"
  shows "mset (sold_items fs) = mset (sold_items gs)"
proof -
  have "mset (concat (map z xs)) = sum_mset (image_mset (\<lambda>f. mset (z f)) (mset xs))"
    for z :: "order_fact \<Rightarrow> (string \<times> string \<times> int) list" and xs
    by (induction xs) simp_all
  then show ?thesis using of_kind_mset[OF assms] by (simp add: sold_items_def)
qed

lemma popular_products_mset:
  assumes "mset fs = mset gs" and "any_order db" "any_order db'" and "distinct_sales fs"
  shows "popular_products db fs = popular_products db' gs"
proof -
  have "mset (product_groups (sold_items fs)) = mset (product_groups (sold_items gs))"
    using assms(1) sold_items_mset product_groups_mset by blast
  then have m: "mset (ch_groups db (product_groups (sold_items fs))) = mset (ch_groups db' (product_groups (sold_items gs)))"
    using assms(2,3) by (simp add: any_order_def)
  have "set (ch_groups db (product_groups (sold_items fs))) = set (product_groups (sold_items fs))"
    using assms(2) by (intro mset_eq_setD) (simp add: any_order_def)
  then show ?thesis
    using two_sorts_mset[OF m, of "\<lambda>g. - ps_quantity g" ps_name] assms(4)
    by (simp add: popular_products_def distinct_sales_def)
qed

text \<open>No two changes of status of one order share an instant.\<close>

definition status_event :: "order_fact \<Rightarrow> bool" where
  "status_event f \<longleftrightarrow> of_type f = ''order.created'' \<or> of_type f = ''order.status_changed''"

definition distinct_instants :: "order_fact list \<Rightarrow> bool" where
  "distinct_instants fs \<longleftrightarrow> inj_on (\<lambda>f. (of_order f, of_occurred f)) (set (filter status_event fs))"

lemma transitions_mset:
  assumes "mset fs = mset gs" and "distinct_instants fs"
  shows "transitions fs = transitions gs"
proof -
  have m: "mset (filter status_event fs) = mset (filter status_event gs)" using assms(1) by simp
  have o: "sort (remdups (map of_order (filter status_event fs))) = sort (remdups (map of_order (filter status_event gs)))"
    using mset_eq_setD[OF m] by (intro sort_remdups_set) simp
  have "mset (filter P (filter status_event fs)) = mset (filter P (filter status_event gs))" for P
    using arg_cong[OF m, of "filter_mset P"] by (simp only: mset_filter)
  moreover have "inj_on of_occurred (set (filter (\<lambda>f. of_order f = k) (filter status_event fs)))" for k
    using assms(2) by (auto simp: distinct_instants_def inj_on_def)
  ultimately have "sort_key of_occurred (filter (\<lambda>f. of_order f = k) (filter status_event fs)) =
      sort_key of_occurred (filter (\<lambda>f. of_order f = k) (filter status_event gs))" for k
    by (intro sort_key_eq_sort_key)
  then show ?thesis unfolding transitions_def Let_def status_event_def[symmetric] using o by simp
qed

section \<open>Properties\<close>

lemma order_facts_mset: "any_order db \<Longrightarrow> mset (order_facts db w) = mset (final of_event (wh_orders w))"
  by (simp add: order_facts_def any_order_def)

lemma facts_of_same_events:
  assumes "delivered_well up ds1" and "delivered_well up ds2" and "snd ` set ds1 = snd ` set ds2"
    and "ids_name_events up (snd ` set ds1)"
  shows "final of_event (wh_orders (deliver_all (handle_record up) ds1 no_facts)) =
    final of_event (wh_orders (deliver_all (handle_record up) ds2 no_facts))"
proof -
  let ?rows = "\<lambda>ds. wh_orders (deliver_all (handle_record up) ds no_facts)"
  have "fst ` set (?rows ds1) = fst ` set (?rows ds2)" using assms(1-3) by (simp add: facts_of_history)
  moreover have "keyed_facts of_event (fst ` set (?rows ds1))"
    using order_rows_keyed[OF assms(4)] assms(1) by (simp add: facts_of_history)
  ultimately show ?thesis by (rule final_depends_on_facts)
qed

lemma counting_queries_mset:
  assumes "mset (order_facts db w) = mset (order_facts db' w')"
  shows "OrdersByHour db e w = OrdersByHour db' e w' \<and> ETA db e w = ETA db' e w' \<and>
    OnTimeRatio db e w = OnTimeRatio db' e w' \<and> Cancellations db e w = Cancellations db' e w' \<and>
    DeliverySLO db e w = DeliverySLO db' e w'"
proof -
  let ?f = "order_facts db w" and ?g = "order_facts db' w'"
  have hours: "orders_by_hour ?f = orders_by_hour ?g" using assms by (rule orders_by_hour_mset)
  have kind: "mset (of_kind k ?f) = mset (of_kind k ?g)" for k using assms by (rule of_kind_mset)
  have avg: "average (map c (of_kind k ?f)) = average (map c (of_kind k ?g))" for c k
    using kind by (intro average_mset) simp
  have count: "length (filter P (of_kind k ?f)) = length (filter P (of_kind k ?g))" for P k
    using kind by (rule filter_length_mset)
  have recent: "length (filter P ?f) = length (filter P ?g)" for P using assms by (rule filter_length_mset)
  have gone: "length (remdups (map of_order (filter P ?f))) = length (remdups (map of_order (filter P ?g)))" for P
    using mset_eq_setD[OF assms] by (simp add: length_remdups_card_conv)
  show ?thesis
    by (simp only: OrdersByHour_def ETA_def OnTimeRatio_def Cancellations_def DeliverySLO_def Let_def hours avg
        count recent gone filter_filter)
qed

text \<open>
  C36 The dashboard depends on the events only: let two histories hold the same events, each with its
  time (an event without one is dated by its arrival) and its own id, delivered however often and in
  whatever order, whichever insertions fail or lose their answer on the way, and every projectable
  event handled with success at least once. Then, in whatever order ClickHouse reads rows and forms
  groups, both show the same orders by hour, delivery times, on-time ratio, cancellations and
  delivery SLO; the same durations of the statuses, if no two changes of status of one order share
  an instant; and the same popular products, if no two products share quantity and name (with such
  ties the queries leave the answer open). Without ties the whole dashboard is the same.
\<close>

theorem dashboard_depends_on_events:
  assumes "delivered_well up ds1" and "delivered_well up ds2" and "snd ` set ds1 = snd ` set ds2"
    and "ids_name_events up (snd ` set ds1)" and "any_order db1" and "any_order db2"
    and w: "w1 = deliver_all (handle_record up) ds1 no_facts" "w2 = deliver_all (handle_record up) ds2 no_facts"
  shows "OrdersByHour db1 e w1 = OrdersByHour db2 e w2 \<and> ETA db1 e w1 = ETA db2 e w2 \<and>
    OnTimeRatio db1 e w1 = OnTimeRatio db2 e w2 \<and> Cancellations db1 e w1 = Cancellations db2 e w2 \<and>
    DeliverySLO db1 e w1 = DeliverySLO db2 e w2 \<and>
    (distinct_instants (order_facts db1 w1) \<longrightarrow> StatusDurations db1 e w1 = StatusDurations db2 e w2) \<and>
    (distinct_sales (order_facts db1 w1) \<longrightarrow> PopularProducts db1 e w1 = PopularProducts db2 e w2) \<and>
    (distinct_instants (order_facts db1 w1) \<and> distinct_sales (order_facts db1 w1) \<longrightarrow>
       Summary db1 e w1 = Summary db2 e w2)"
proof -
  have m: "mset (order_facts db1 w1) = mset (order_facts db2 w2)"
    using facts_of_same_events[OF assms(1-4)] assms(5,6) by (simp add: order_facts_mset w)
  have durations: "distinct_instants (order_facts db1 w1) \<longrightarrow> StatusDurations db1 e w1 = StatusDurations db2 e w2"
    using transitions_mset[OF m] by (simp add: StatusDurations_def status_durations_def)
  have products: "distinct_sales (order_facts db1 w1) \<longrightarrow> PopularProducts db1 e w1 = PopularProducts db2 e w2"
    using popular_products_mset[OF m assms(5,6)] by (simp add: PopularProducts_def)
  show ?thesis using counting_queries_mset[OF m, of e] durations products by (simp add: Summary_def)
qed

lemma on_time_timed: "on_time f \<Longrightarrow> timed f"
  by (auto simp: on_time_def timed_def split: option.splits)

lemma ratio_bounds:
  assumes "\<And>f. P f \<Longrightarrow> Q f" and "length (filter Q fs) \<noteq> 0"
  shows "0 \<le> of_nat (length (filter P fs)) / (of_nat (length (filter Q fs)) :: real) \<and>
    of_nat (length (filter P fs)) / (of_nat (length (filter Q fs)) :: real) \<le> 1"
proof -
  have "length (filter P fs) \<le> length (filter Q fs)" using assms(1) by (induction fs) auto
  then show ?thesis using assms(2) by (simp add: divide_le_eq_1)
qed

text \<open>
  Ratios are ratios: whatever the warehouse holds, the on-time ratio of the dashboard and of the
  delivery SLO lie between 0 and 1, and the SLO has a ratio exactly when its window holds a
  completed delivery with a forecast, whose number it reports.
\<close>

lemma on_time_ratio_bounded:
  assumes "OnTimeRatio db e w = Inr x" and "DeliverySLO db e w = Inr (y, n)"
  shows "(\<forall>r. x = Some r \<longrightarrow> 0 \<le> r \<and> r \<le> 1) \<and> (\<forall>r. y = Some r \<longrightarrow> 0 \<le> r \<and> r \<le> 1) \<and>
    0 \<le> n \<and> (y = None \<longleftrightarrow> n = 0)"
proof -
  let ?now = "clock e ''server now'' - clock e ''server now'' mod second"
  let ?fs = "filter (\<lambda>f. ?now - day \<le> of_occurred f) (order_facts db w)"
  let ?done = "\<lambda>f. of_type f = ''delivery.completed'' \<and> timed f"
  have x: "0 \<le> r \<and> r \<le> 1" if "x = Some r" for r
    using assms(1) that ratio_bounds[of on_time timed, OF on_time_timed]
    by (auto simp: OnTimeRatio_def andthen_Inr Let_def split: if_splits)
  have d: "(y, n) = (if length (filter ?done ?fs) = 0 then (None, 0)
      else (Some (of_nat (length (filter (\<lambda>f. of_type f = ''delivery.completed'' \<and> timed f \<and> on_time f) ?fs)) /
              of_nat (length (filter ?done ?fs))), int (length (filter ?done ?fs))))"
    using assms(2) by (simp add: DeliverySLO_def andthen_Inr Let_def split: if_splits)
  have y: "0 \<le> r \<and> r \<le> 1" if "y = Some r" for r
    using d that ratio_bounds[of "\<lambda>f. of_type f = ''delivery.completed'' \<and> timed f \<and> on_time f" ?done ?fs]
    by (simp split: if_splits)
  show ?thesis using x y d by (simp split: if_splits)
qed

text \<open>
  C37 A placed order reaches the dashboard: the event the order service emits for an order is
  projected to one row that holds the order's id, total and currency and, item by item, its
  products, names and quantities, whatever UUID parser reads the canonical ids.
\<close>

theorem created_order_is_projected:
  assumes "quantities_ok v" and "uuid_key (od_id v) = Some k" and "\<And>s x. uuid_key s = Some x \<Longrightarrow> up s = Some x"
    and "New e0 c ''order.created'' ''order-service'' (od_id v) (created_payload v) = Inr m"
    and "OccurredAt m \<noteq> zero_time" and "\<not> fails e ''insert order analytic''" and "\<not> fails e ''lost insert order analytic''"
  shows "\<exists>row. handle_record up e (Some (Marshal m)) w =
      (Inr (), w\<lparr>wh_orders := wh_orders w @ [(row, clock e ''ingested'')]\<rparr>) \<and>
    of_order row = k \<and> of_status row = ''created'' \<and> of_total row = od_total v \<and> of_currency row = od_currency v \<and>
    of_names row = map oi_name (od_items v) \<and> of_quantities row = map oi_quantity (od_items v) \<and>
    map Some (of_products row) = map (uuid_key \<circ> oi_product) (od_items v)"
proof -
  have m: "EventType m = ''order.created''" "Payload m = Some (created_payload v)" "EventVersion m = 1"
      "uuid_key (EventID m) = Some (EventID m)"
    using assms(4) by (auto simp: New_Inr format_uuid_key)
  have "Unmarshal (Some (Marshal m)) = Inr m"
    using m by (intro envelope_roundtrip[where p = "created_payload v"]) simp_all
  then show ?thesis
    using created_order_row[where up = up and e = e, OF assms(1,2) assms(3) m(1,2) assms(5) m(4)] assms(5-7)
    by (auto simp: handle_record_def Insert_facts_def insert_delivery_fact_def insert_order_fact_def exec_append_def)
qed


section \<open>Witnesses\<close>

definition completed_event :: "string \<Rightarrow> int \<Rightarrow> int \<Rightarrow> json option" where
  "completed_event i predicted actual = Some (JObj
     [(''event_id'', JStr i), (''event_type'', JStr ''delivery.completed''), (''occurred_at'', JTime (5 * second)),
      (''payload'', JObj [(''order_id'', JStr ''o1''), (''predicted_eta_seconds'', JInt predicted),
                          (''actual_eta_seconds'', JInt actual)])])"

definition parse_all :: uuid_parse where
  "parse_all s = (if s = [] then None else Some s)"

definition completed_envelope :: "string \<Rightarrow> int \<Rightarrow> int \<Rightarrow> envelope" where
  "completed_envelope i predicted actual = \<lparr>EventID = i, EventType = ''delivery.completed'', EventVersion = 0,
     OccurredAt = 5 * second, Producer = [], CorrelationID = [], TraceID = [], SpanID = [], AggregateID = [],
     Payload = Some (JObj [(''order_id'', JStr ''o1''), (''predicted_eta_seconds'', JInt predicted),
                          (''actual_eta_seconds'', JInt actual)])\<rparr>"

definition completed_payload :: "int \<Rightarrow> int \<Rightarrow> event_payload" where
  "completed_payload predicted actual = \<lparr>pl_order = ''o1'', pl_delivery = [], pl_courier = [], pl_status = [],
     pl_previous = [], pl_new = [], pl_currency = [], pl_total = 0, pl_lat = None, pl_lon = None,
     pl_predicted = Some predicted, pl_actual = Some actual, pl_items = []\<rparr>"

definition completed_order :: "string \<Rightarrow> int \<Rightarrow> int \<Rightarrow> order_fact" where
  "completed_order i predicted actual = \<lparr>of_event = i, of_order = ''o1'', of_type = ''delivery.completed'',
     of_status = [], of_previous = [], of_total = 0, of_currency = [], of_products = [], of_names = [],
     of_quantities = [], of_predicted = Some predicted, of_actual = Some actual, of_occurred = 5 * second,
     of_correlation = [], of_trace = []\<rparr>"

lemma completed_Unmarshal: "Unmarshal (completed_event i p a) = Inr (completed_envelope i p a)"
  by (simp add: Unmarshal_def completed_event_def completed_envelope_def same_key_def ascii_lower_def)

lemma completed_payload: "0 \<le> p \<Longrightarrow> p < 2 ^ 32 \<Longrightarrow> 0 \<le> a \<Longrightarrow> a < 2 ^ 32 \<Longrightarrow>
    decode_event_payload (Payload (completed_envelope i p a)) = Inr (completed_payload p a)"
  by (simp add: decode_event_payload_def completed_envelope_def completed_payload_def same_key_def ascii_lower_def
      to_ptr_def to_uint_def)

lemma completed_fields:
  "EventID (completed_envelope i p a) = i" "EventType (completed_envelope i p a) = ''delivery.completed''"
  "OccurredAt (completed_envelope i p a) = 5 * second" "CorrelationID (completed_envelope i p a) = []"
  "TraceID (completed_envelope i p a) = []"
  "pl_order (completed_payload p a) = ''o1''" "pl_new (completed_payload p a) = []"
  "pl_status (completed_payload p a) = []" "pl_previous (completed_payload p a) = []"
  "pl_currency (completed_payload p a) = []" "pl_total (completed_payload p a) = 0"
  "pl_predicted (completed_payload p a) = Some p" "pl_actual (completed_payload p a) = Some a"
  by (simp_all add: completed_envelope_def completed_payload_def)

definition completed_delivery :: "string \<Rightarrow> int \<Rightarrow> int \<Rightarrow> delivery_fact" where
  "completed_delivery i p a =
     delivery_fact_of parse_all (completed_envelope i p a) (completed_payload p a) (Some ''o1'') [] (5 * second)"

lemma completed_projected:
  assumes "i \<noteq> []" "0 \<le> p" "p < 2 ^ 32" "0 \<le> a" "a < 2 ^ 32"
  shows "Project e parse_all (completed_envelope i p a) =
    Inr \<lparr>pj_delivery = Some (completed_delivery i p a), pj_order = Some (completed_order i p a)\<rparr>"
  using assms completed_payload[OF assms(2-5), of i]
  by (simp add: Project_def order_fact_of_def isOrderEvent_def isDeliveryEvent_def completed_order_def parse_all_def
      completed_fields zero_time_def second_def completed_delivery_def)

lemma completed_rows:
  assumes "i \<noteq> []"
  shows "delivery_row_of parse_all (completed_delivery i p a) = Inr (completed_delivery i p a)"
    and "order_row_of parse_all (completed_order i p a) = Inr (completed_order i p a)"
  using assms
  by (simp_all add: delivery_row_of_def completed_delivery_def delivery_fact_of_def order_row_of_def completed_order_def
      completed_fields MustParse_def parse_all_def ch_time_def second_def millisecond_def)

lemma completed_handled:
  assumes "i \<noteq> []" "0 \<le> p" "p < 2 ^ 32" "0 \<le> a" "a < 2 ^ 32"
    and "\<not> fails e ''insert delivery event''" "\<not> fails e ''lost insert delivery event''" "\<not> fails e ''insert order analytic''"
  shows "handle_record parse_all e (completed_event i p a) w =
      (if fails e ''lost insert order analytic'' then Inl (Wrapped ''insert order analytic'' CallFailed) else Inr (),
       w\<lparr>wh_deliveries := wh_deliveries w @ [(completed_delivery i p a, clock e ''ingested'')],
         wh_orders := wh_orders w @ [(completed_order i p a, clock e ''ingested'')]\<rparr>)"
  using assms
  by (simp add: handle_record_def completed_Unmarshal completed_fields zero_time_def second_def
      Insert_facts_def insert_delivery_fact_def insert_order_fact_def exec_append_def completed_projected completed_rows)

lemma completed_dated: "dated_event (completed_event i p a)"
  by (simp add: dated_event_def completed_Unmarshal completed_fields zero_time_def second_def)

definition lost_insert :: env where
  "lost_insert = quiet_env\<lparr>fails := (\<lambda>l. l = ''lost insert order analytic'')\<rparr>"

definition once :: "(env \<times> json option) list" where
  "once = [(quiet_env, completed_event ''e1'' 900 800), (quiet_env, completed_event ''e2'' 900 1000)]"

definition redelivered :: "(env \<times> json option) list" where
  "redelivered = [(quiet_env, completed_event ''e2'' 900 1000), (lost_insert, completed_event ''e1'' 900 800),
     (quiet_env, completed_event ''e1'' 900 800), (quiet_env, completed_event ''e2'' 900 1000)]"

lemmas sample_histories = once_def redelivered_def lost_insert_def quiet_env_def

definition backwards :: clickhouse where "backwards = \<lparr>ch_rows = rev, ch_groups = rev\<rparr>"

theorem dashboard_depends_on_events_witness:
  "Summary by_id quiet_env (deliver_all (handle_record parse_all) once no_facts) =
     Summary backwards quiet_env (deliver_all (handle_record parse_all) redelivered no_facts) \<and>
   length (wh_orders (deliver_all (handle_record parse_all) redelivered no_facts)) = 4 \<and>
   length (order_facts by_id (deliver_all (handle_record parse_all) once no_facts)) = 2"
proof -
  let ?w = "deliver_all (handle_record parse_all) once no_facts"
  have four: "length (wh_orders (deliver_all (handle_record parse_all) redelivered no_facts)) = 4"
    by (simp add: sample_histories completed_handled no_facts_def)
  have same: "snd ` set once = snd ` set redelivered" by (auto simp: once_def redelivered_def)
  have ids: "ids_name_events parse_all (snd ` set once)"
    by (auto simp: ids_name_events_def once_def completed_Unmarshal completed_fields parse_all_def)
  have well: "delivered_well parse_all once" "delivered_well parse_all redelivered"
    by (auto simp: delivered_well_def sample_histories completed_handled completed_dated)
  have "any_order by_id" "any_order backwards" by (simp_all add: any_order_def by_id_def backwards_def)
  note same_dashboard = dashboard_depends_on_events[OF well same ids this refl refl, of quiet_env]
  have facts: "order_facts by_id ?w = [completed_order ''e1'' 900 800, completed_order ''e2'' 900 1000]"
    by (simp add: order_facts_def by_id_def final_def sample_histories completed_handled no_facts_def
        completed_order_def)
  then have "distinct_instants (order_facts by_id ?w)" "distinct_sales (order_facts by_id ?w)"
    by (simp_all add: distinct_instants_def distinct_sales_def status_event_def completed_order_def sold_items_def
        of_kind_def product_groups_def)
  then show ?thesis using same_dashboard four facts by simp
qed

definition placed_order :: order where
  "placed_order = \<lparr>od_id = ''30000000-0000-4000-8000-00000000000a'', od_user = ''30000000-0000-4000-8000-00000000000b'',
     od_reservation = [], od_version = 1, od_status = ''created'',
     od_items = [\<lparr>oi_product = ''10000000-0000-4000-8000-000000000001'', oi_name = ''Apples'', oi_quantity = 2,
                  oi_price = 24900, oi_currency = ''RUB''\<rparr>],
     od_total = 49800, od_currency = ''RUB'', od_lat = 0, od_lon = 0, od_created = 0\<rparr>"

theorem created_order_is_projected_witness:
  "\<exists>m row. New quiet_env \<lparr>ctx_correlation = [], ctx_span = None\<rparr> ''order.created'' ''order-service''
       (od_id placed_order) (created_payload placed_order) = Inr m \<and>
     handle_record uuid_key quiet_env (Some (Marshal m)) no_facts = (Inr (), no_facts\<lparr>wh_orders := [(row, 0)]\<rparr>) \<and>
     of_total row = 49800 \<and> of_quantities row = [2]"
proof -
  let ?c = "\<lparr>ctx_correlation = [], ctx_span = None\<rparr> :: ctx"
  have ids: "uuid_key (od_id placed_order) = Some (od_id placed_order)" "quantities_ok placed_order"
    by code_simp+
  obtain m where m: "New quiet_env ?c ''order.created'' ''order-service'' (od_id placed_order) (created_payload placed_order) = Inr m"
    by (simp add: New_Inr quiet_env_def)
  then have "OccurredAt m \<noteq> zero_time" by (auto simp: New_Inr quiet_env_def zero_time_def second_def)
  from created_order_is_projected[OF ids(2,1) _ m this, where up = uuid_key and e = quiet_env and w = no_facts] obtain row
    where "handle_record uuid_key quiet_env (Some (Marshal m)) no_facts =
        (Inr (), no_facts\<lparr>wh_orders := wh_orders no_facts @ [(row, clock quiet_env ''ingested'')]\<rparr>)"
      "of_total row = od_total placed_order" "of_quantities row = map oi_quantity (od_items placed_order)"
    by (auto simp: quiet_env_def)
  then show ?thesis using m by (auto simp: no_facts_def quiet_env_def placed_order_def)
qed

end
