(* ===== verification/DlqReplay.thy ===== *)
theory DlqReplay
  imports Kafkax
begin

text \<open>
  The dead-letter tool (cmd/dlq-replay/main.go): it reads a dead-letter topic from its start,
  decodes each record and, when asked to, publishes the original bytes back to the topic they came
  from. What the polls return, until the deadline, is a list; the broker's answers are parameters.
\<close>

section \<open>Configuration\<close>

record replay_config =
  cf_topic :: string
  cf_limit :: int
  cf_execute :: bool
  cf_confirm :: string
  cf_timeout :: duration

definition confirmationPhrase :: string where "confirmationPhrase = ''REPLAY''"

text \<open>\<open>strings.TrimSuffix\<close>.\<close>

definition trim_suffix :: "string \<Rightarrow> string \<Rightarrow> string" where
  "trim_suffix s suf = (if has_suffix s suf then take (length s - length suf) s else s)"

definition validate :: "replay_config \<Rightarrow> go_error option" where
  "validate c =
     (if \<not> has_suffix (cf_topic c) ''.dlq'' \<or> trim_suffix (cf_topic c) ''.dlq'' = []
      then Some (Failed ''--topic must be a non-empty topic ending in .dlq'')
      else if cf_limit c \<le> 0 then Some (Failed ''--limit must be positive'')
      else if cf_timeout c \<le> 0 then Some (Failed ''--timeout must be positive'')
      else if cf_execute c \<and> cf_confirm c \<noteq> confirmationPhrase
      then Some (Failed ''--execute requires --confirm REPLAY'')
      else if \<not> cf_execute c \<and> cf_confirm c \<noteq> []
      then Some (Failed ''--confirm is only valid together with --execute'')
      else None)"

section \<open>Replaying\<close>

record dlq_message =
  dm_topic :: string
  dm_partition :: int
  dm_offset :: int
  dm_key :: "byte list"
  dm_value :: "json option"

record replayed =
  ry_topic :: string
  ry_key :: "byte list"
  ry_value :: "byte list"

record replay_state =
  rp_processed :: int
  rp_sent :: "replayed list"
  rp_committed :: "dlq_message list"

text \<open>What a poll returns; \<open>PollTimeout\<close> is an error that is \<open>context.DeadlineExceeded\<close>.\<close>

datatype poll = Fetched "dlq_message list" | PollTimeout | PollFailed

definition replay_record ::
  "replay_config \<Rightarrow> (dlq_message \<Rightarrow> produce_outcome) \<Rightarrow> (dlq_message \<Rightarrow> bool) \<Rightarrow> dlq_message \<Rightarrow>
   replay_state \<Rightarrow> go_error option \<times> replay_state" where
  "replay_record c broker commit_fails m s =
     (case DecodeDeadLetter (dm_value m) of
        Inl err \<Rightarrow> (Some (Wrapped ''invalid DLQ record'' err), s)
      | Inr (d, original) \<Rightarrow>
          (let counted = (\<lambda>t. t\<lparr>rp_processed := rp_processed t + 1\<rparr>);
               sent = s\<lparr>rp_sent := rp_sent s @
                 [\<lparr>ry_topic = SourceTopic d, ry_key = dm_key m, ry_value = original\<rparr>]\<rparr> in
           if \<not> cf_execute c then (None, counted s)
           else case broker m of
             ProduceFailed \<Rightarrow> (Some (Wrapped ''replay'' CallFailed), s)
           | ProduceLost \<Rightarrow> (Some (Wrapped ''replay'' CallFailed), sent)
           | Produced \<Rightarrow>
               (if commit_fails m then (Some (Wrapped ''commit replayed DLQ record'' CallFailed), sent)
                else (None, counted (sent\<lparr>rp_committed := rp_committed sent @ [m]\<rparr>)))))"

text \<open>\<open>EachRecord\<close>: after an error, and once the limit is reached, the records left are skipped.\<close>

fun each_record ::
  "replay_config \<Rightarrow> (dlq_message \<Rightarrow> produce_outcome) \<Rightarrow> (dlq_message \<Rightarrow> bool) \<Rightarrow> dlq_message list \<Rightarrow>
   replay_state \<Rightarrow> go_error option \<times> replay_state" where
  "each_record c broker commit_fails [] s = (None, s)"
| "each_record c broker commit_fails (m # ms) s =
     (if rp_processed s \<ge> cf_limit c then (None, s)
      else case replay_record c broker commit_fails m s of
        (Some err, s') \<Rightarrow> (Some err, s')
      | (None, s') \<Rightarrow> each_record c broker commit_fails ms s')"

text \<open>The polling loop; when the polls end, the context's deadline has passed.\<close>

fun consume_dlq ::
  "replay_config \<Rightarrow> (dlq_message \<Rightarrow> produce_outcome) \<Rightarrow> (dlq_message \<Rightarrow> bool) \<Rightarrow> poll list \<Rightarrow>
   replay_state \<Rightarrow> go_error option \<times> replay_state" where
  "consume_dlq c broker commit_fails [] s = (None, s)"
| "consume_dlq c broker commit_fails (p # ps) s =
     (if rp_processed s \<ge> cf_limit c then (None, s)
      else case p of
        PollTimeout \<Rightarrow> (None, s)
      | PollFailed \<Rightarrow> (Some (Wrapped ''poll DLQ'' CallFailed), s)
      | Fetched ms \<Rightarrow>
          (case each_record c broker commit_fails ms s of
             (Some err, s') \<Rightarrow> (Some err, s')
           | (None, s') \<Rightarrow> consume_dlq c broker commit_fails ps s'))"

definition nothing_replayed :: replay_state where
  "nothing_replayed = \<lparr>rp_processed = 0, rp_sent = [], rp_committed = []\<rparr>"

definition run_replay ::
  "replay_config \<Rightarrow> (dlq_message \<Rightarrow> produce_outcome) \<Rightarrow> (dlq_message \<Rightarrow> bool) \<Rightarrow> poll list \<Rightarrow>
   go_error option \<times> replay_state" where
  "run_replay c broker commit_fails polls =
     (case validate c of
        Some err \<Rightarrow> (Some err, nothing_replayed)
      | None \<Rightarrow> consume_dlq c broker commit_fails polls nothing_replayed)"

section \<open>Lemmas\<close>

text \<open>Polling in pieces is the same as reading one long list of records.\<close>

lemma each_record_append:
  "each_record c broker cf (xs @ ys) s =
     (case each_record c broker cf xs s of
        (Some err, s') \<Rightarrow> (Some err, s') | (None, s') \<Rightarrow> each_record c broker cf ys s')"
proof (induction xs arbitrary: s)
  case (Cons x xs)
  then show ?case by (cases ys) (auto split: prod.splits option.splits)
qed simp

lemma each_record_full: "rp_processed s \<ge> cf_limit c \<Longrightarrow> each_record c broker cf ms s = (None, s)"
  by (cases ms) auto

lemma consume_dlq_concat:
  "consume_dlq c broker cf (map Fetched xss) s = each_record c broker cf (concat xss) s"
proof (induction xss arbitrary: s)
  case (Cons xs xss)
  show ?case
  proof (cases "rp_processed s \<ge> cf_limit c")
    case True
    then show ?thesis by (simp add: each_record_full)
  next
    case False
    then show ?thesis using Cons by (auto simp: each_record_append split: prod.splits option.splits)
  qed
qed simp

text \<open>The record the retry loop wrote for message \<open>m\<close>, as the tool reads it.\<close>

definition dlq_message_of :: "string \<Rightarrow> (message \<Rightarrow> string) \<Rightarrow> (message \<Rightarrow> time) \<Rightarrow> (message \<Rightarrow> int \<times> int) \<Rightarrow> message \<Rightarrow> dlq_message" where
  "dlq_message_of service reason failed position m =
     (let r = dlq_record_of (msg_key m) (dead_letter_of service m (reason m) (failed m)) in
      \<lparr>dm_topic = dq_topic r, dm_partition = fst (position m), dm_offset = snd (position m),
       dm_key = dq_key r, dm_value = Some (dq_value r)\<rparr>)"

text \<open>A record of a topic that can be dead-lettered; partitions are 32 and offsets 64 bits wide.\<close>

definition message_ok :: "message \<Rightarrow> bool" where
  "message_ok m \<longleftrightarrow> trim_space (msg_topic m) \<noteq> [] \<and> \<not> has_suffix (msg_topic m) ''.dlq'' \<and>
     - (2 ^ 31) \<le> msg_partition m \<and> msg_partition m < 2 ^ 31 \<and> int64 (msg_offset m)"

definition original_of :: "message \<Rightarrow> replayed" where
  "original_of m = \<lparr>ry_topic = msg_topic m, ry_key = msg_key m, ry_value = msg_value m\<rparr>"

lemma decode_dlq_message:
  assumes "message_ok m"
  shows "DecodeDeadLetter (dm_value (dlq_message_of service reason failed position m)) =
    Inr (dead_letter_of service m (reason m) (failed m), msg_value m)"
  using assms
  by (simp add: dlq_message_of_def dlq_record_of_def Let_def message_ok_def int64_def dead_letter_roundtrip
      dead_letter_of_def maxAttempts_def)

lemma replay_record_dead_letter:
  assumes "message_ok m" and "broker x = Produced" and "\<not> cf x" and "x = dlq_message_of service reason failed position m"
  shows "replay_record c broker cf x s = (None, s\<lparr>rp_processed := rp_processed s + 1,
      rp_sent := rp_sent s @ (if cf_execute c then [original_of m] else []),
      rp_committed := rp_committed s @ (if cf_execute c then [x] else [])\<rparr>)"
proof -
  have "dm_key x = msg_key m" by (simp add: assms(4) dlq_message_of_def dlq_record_of_def Let_def)
  then show ?thesis
    using decode_dlq_message[OF assms(1), of service reason failed position] assms(2-4)
    by (simp add: replay_record_def original_of_def dead_letter_of_def)
qed

lemma each_record_dead_letters:
  assumes "\<forall>m \<in> set ms. message_ok m" and "\<forall>x. broker x = Produced \<and> \<not> cf x"
    and "xs = map (dlq_message_of service reason failed position) ms"
  shows "each_record c broker cf xs s =
    (let n = nat (cf_limit c - rp_processed s) in
     (None, s\<lparr>rp_processed := rp_processed s + int (min n (length ms)),
       rp_sent := rp_sent s @ (if cf_execute c then map original_of (take n ms) else []),
       rp_committed := rp_committed s @ (if cf_execute c then take n xs else [])\<rparr>))"
  using assms(1,3)
proof (induction ms arbitrary: xs s)
  case (Cons m ms)
  let ?x = "dlq_message_of service reason failed position m"
  note r = replay_record_dead_letter[OF _ _ _ refl, of m broker service reason failed position cf c s]
  show ?case
  proof (cases "rp_processed s \<ge> cf_limit c")
    case True
    then show ?thesis by (simp add: each_record_full)
  next
    case False
    define s' where "s' = snd (replay_record c broker cf ?x s)"
    have b: "broker ?x = Produced" "\<not> cf ?x" using assms(2) by blast+
    have s': "replay_record c broker cf ?x s = (None, s')"
        "s' = s\<lparr>rp_processed := rp_processed s + 1, rp_sent := rp_sent s @ (if cf_execute c then [original_of m] else []),
           rp_committed := rp_committed s @ (if cf_execute c then [?x] else [])\<rparr>"
      using r[OF _ b] Cons.prems(1) by (simp_all add: s'_def)
    have n: "nat (cf_limit c - rp_processed s) = Suc (nat (cf_limit c - rp_processed s'))"
      using False by (simp add: s'(2) Suc_nat_eq_nat_zadd1)
    have "each_record c broker cf (?x # map (dlq_message_of service reason failed position) ms) s =
        each_record c broker cf (map (dlq_message_of service reason failed position) ms) s'"
      using False s'(1) by simp
    then show ?thesis
      using Cons.IH[of "map (dlq_message_of service reason failed position) ms" s'] Cons.prems
      unfolding n by (simp add: Let_def s'(2))
  qed
qed (simp add: Let_def)

section \<open>Properties\<close>

text \<open>
  C38 Replay returns what was dead-lettered: reading the dead letters the retry loop wrote for a list
  of messages (of topics that are not dead-letter topics, with partitions and offsets in their
  ranges), in any batches, with a valid command line, while the broker accepts every record and every
  commit succeeds, the tool publishes the first \<open>limit\<close> of them to their topics with their keys and
  their bytes, in order, and commits just those; without \<open>--execute\<close> it publishes and commits
  nothing.
\<close>

theorem replay_returns_originals:
  assumes "validate c = None" and "\<forall>m \<in> set ms. message_ok m" and "\<forall>x. broker x = Produced \<and> \<not> commit_fails x"
    and "concat xss = map (dlq_message_of service reason failed position) ms"
  shows "\<exists>s. run_replay c broker commit_fails (map Fetched xss) = (None, s) \<and>
    rp_processed s = min (cf_limit c) (int (length ms)) \<and>
    rp_sent s = (if cf_execute c then map original_of (take (nat (cf_limit c)) ms) else []) \<and>
    rp_committed s = (if cf_execute c then take (nat (cf_limit c)) (concat xss) else [])"
proof -
  have "0 < cf_limit c" using assms(1) by (auto simp: validate_def split: if_splits)
  then show ?thesis
    using each_record_dead_letters[OF assms(2,3,4), of c nothing_replayed] assms(1)
    by (simp add: run_replay_def consume_dlq_concat nothing_replayed_def Let_def min_def nat_le_iff)
qed

definition replay_now :: replay_config where
  "replay_now = \<lparr>cf_topic = ''freshflow.order.events.v1.dlq'', cf_limit = 1, cf_execute = True,
     cf_confirm = ''REPLAY'', cf_timeout = 30 * second\<rparr>"

theorem replay_returns_originals_witness:
  "\<exists>s. run_replay replay_now (\<lambda>_. Produced) (\<lambda>_. False)
      (map Fetched [[], map (dlq_message_of ''svc'' (\<lambda>_. []) (\<lambda>_. 0) (\<lambda>_. (0, 0))) [poison_message, poison_message]]) =
      (None, s) \<and> rp_sent s = [original_of poison_message]"
proof -
  have "validate replay_now = None" "message_ok poison_message" by code_simp+
  then show ?thesis
    using replay_returns_originals[where c = replay_now and ms = "[poison_message, poison_message]" and
        broker = "\<lambda>_. Produced" and commit_fails = "\<lambda>_. False" and service = "''svc''" and
        reason = "\<lambda>_. []" and failed = "\<lambda>_. 0" and position = "\<lambda>_. (0, 0)" and
        xss = "[[], map (dlq_message_of ''svc'' (\<lambda>_. []) (\<lambda>_. 0) (\<lambda>_. (0, 0))) [poison_message, poison_message]]"]
    by (auto simp: replay_now_def)
qed

end
