(* ===== verification/Tracing.thy ===== *)
theory Tracing
  imports Telemetry
begin

text \<open>
  The tracing side of pkg/platform/telemetry/telemetry.go: the ratio of sampled traces
  (\<open>sampleRatio\<close>, with \<open>strconv.ParseFloat\<close>), the span a consumer opens for an event
  (\<open>StartConsumerSpan\<close>) and the fields of a log line (\<open>TraceFields\<close>). The tracer itself and its parsing
  of ids are the client library's, so parameters.
\<close>

section \<open>Numbers as text\<close>

text \<open>A digit of a base up to 16.\<close>

definition digit_in :: "int \<Rightarrow> char \<Rightarrow> int option" where
  "digit_in base c =
     (let l = ascii_lower c;
          d = (case digit_value c of
                 Some d \<Rightarrow> d
               | None \<Rightarrow> if CHR ''a'' \<le> l \<and> l \<le> CHR ''z'' then int (of_char l) - 87 else base) in
      if d < base then Some d else None)"

text \<open>
  Where underscores may stand: after a digit or a base prefix, and before a digit. \<open>AfterDigit\<close>,
  \<open>AfterUnderscore\<close> and \<open>AfterOther\<close> say what was last seen.
\<close>

datatype seen = AfterDigit | AfterUnderscore | AfterOther

fun underscores_fit :: "bool \<Rightarrow> seen \<Rightarrow> string \<Rightarrow> bool" where
  "underscores_fit hex saw [] \<longleftrightarrow> saw \<noteq> AfterUnderscore"
| "underscores_fit hex saw (c # cs) \<longleftrightarrow>
     (if digit_in (if hex then 16 else 10) c \<noteq> None then underscores_fit hex AfterDigit cs
      else if c = CHR ''_'' then saw = AfterDigit \<and> underscores_fit hex AfterUnderscore cs
      else saw \<noteq> AfterUnderscore \<and> underscores_fit hex AfterOther cs)"

definition based :: "string \<Rightarrow> string \<Rightarrow> bool" where
  "based letters t \<longleftrightarrow> 2 \<le> length t \<and> t ! 0 = CHR ''0'' \<and> ascii_lower (t ! 1) \<in> set letters"

definition underscoreOK :: "string \<Rightarrow> bool" where
  "underscoreOK s =
     (let t = snd (split_sign s) in
      if based ''box'' t then underscores_fit (based ''x'' t) AfterDigit (drop 2 t)
      else underscores_fit False AfterOther t)"

text \<open>A \<open>float64\<close>; the finite ones are read as real numbers.\<close>

datatype go_float = NaN | Infinite bool | Finite real

text \<open>The comparison \<open><\<close> of Go, which no NaN satisfies.\<close>

fun float_less :: "go_float \<Rightarrow> go_float \<Rightarrow> bool" where
  "float_less (Finite x) (Finite y) \<longleftrightarrow> x < y"
| "float_less (Infinite negative) (Finite y) \<longleftrightarrow> negative"
| "float_less (Finite x) (Infinite negative) \<longleftrightarrow> \<not> negative"
| "float_less (Infinite a) (Infinite b) \<longleftrightarrow> a \<and> \<not> b"
| "float_less _ _ \<longleftrightarrow> False"

text \<open>
  Digits with one point and underscores: whether there was a digit, their value without the point,
  how many follow the point, and the text after them.
\<close>

fun mantissa :: "bool \<Rightarrow> bool \<Rightarrow> bool \<Rightarrow> int \<Rightarrow> nat \<Rightarrow> string \<Rightarrow> bool \<times> int \<times> nat \<times> string" where
  "mantissa hex dot found m f [] = (found, m, f, [])"
| "mantissa hex dot found m f (c # cs) =
     (if c = CHR ''_'' then mantissa hex dot found m f cs
      else if c = CHR ''.'' \<and> \<not> dot then mantissa hex True found m f cs
      else case digit_in (if hex then 16 else 10) c of
        Some d \<Rightarrow> mantissa hex dot True ((if hex then 16 else 10) * m + d) (if dot then Suc f else f) cs
      | None \<Rightarrow> (found, m, f, c # cs))"

text \<open>The digits of an exponent, of which those beyond 10000 no longer count.\<close>

fun exponent_digits :: "int \<Rightarrow> string \<Rightarrow> int \<times> string" where
  "exponent_digits e [] = (e, [])"
| "exponent_digits e (c # cs) =
     (if c = CHR ''_'' then exponent_digits e cs
      else case digit_value c of
        Some d \<Rightarrow> exponent_digits (if e < 10000 then 10 * e + d else e) cs
      | None \<Rightarrow> (e, c # cs))"

text \<open>The exponent at the start of a text, and the text after it; without one a decimal has exponent 0.\<close>

definition exponent :: "bool \<Rightarrow> string \<Rightarrow> (int \<times> string) option" where
  "exponent hex t =
     (case t of
        c # cs \<Rightarrow>
          (if ascii_lower c = (if hex then CHR ''p'' else CHR ''e'')
           then (case split_sign cs of (neg, ds) \<Rightarrow>
             if ds = [] \<or> digit_value (hd ds) = None then None
             else case exponent_digits 0 ds of (e, rest) \<Rightarrow> Some (if neg then - e else e, rest))
           else if hex then None else Some (0, t))
      | [] \<Rightarrow> if hex then None else Some (0, []))"

definition scaled :: "int \<Rightarrow> real \<Rightarrow> int \<Rightarrow> real" where
  "scaled m base e = (if 0 \<le> e then of_int m * base ^ nat e else of_int m / base ^ nat (- e))"

text \<open>A number out of the range of \<open>float64\<close> is an error; this is where rounding gives an infinity.\<close>

definition in_range :: "real \<Rightarrow> bool" where
  "in_range x \<longleftrightarrow> \<bar>x\<bar> < 2 ^ 1024 - 2 ^ 970"

definition readFloat :: "string \<Rightarrow> go_float option" where
  "readFloat s =
     (case split_sign s of (neg, t) \<Rightarrow>
        (let hex = 2 < length t \<and> based ''x'' t in
         case mantissa hex False False 0 0 (if hex then drop 2 t else t) of (found, m, f, u) \<Rightarrow>
           if \<not> found then None
           else case exponent hex u of
             None \<Rightarrow> None
           | Some (e, rest) \<Rightarrow>
               (let x = (if hex then scaled m 2 (e - 4 * int f) else scaled m 10 (e - int f)) in
                if rest \<noteq> [] \<or> CHR ''_'' \<in> set s \<and> \<not> underscoreOK s \<or> \<not> in_range x then None
                else Some (Finite (if neg then - x else x)))))"

definition ParseFloat :: "string \<Rightarrow> go_float option" where
  "ParseFloat s =
     (let l = map ascii_lower s in
      if l = ''nan'' then Some NaN
      else if snd (split_sign l) \<in> {''inf'', ''infinity''} then Some (Infinite (fst (split_sign l)))
      else readFloat s)"

section \<open>Sampling\<close>

definition sampleRatio :: "environment \<Rightarrow> go_float" where
  "sampleRatio getenv =
     (let raw = getenv ''FRESHFLOW_OTEL_SAMPLE_RATIO'' in
      if raw = [] then Finite 1
      else case ParseFloat raw of
        None \<Rightarrow> Finite 1
      | Some v \<Rightarrow> if float_less v (Finite 0) \<or> float_less (Finite 1) v then Finite 1 else v)"

text \<open>What the tracer samples is a ratio, whatever the variable holds, unless it holds a NaN.\<close>

lemma sampleRatio_range:
  "sampleRatio getenv = NaN \<or> (\<exists>x. sampleRatio getenv = Finite x \<and> 0 \<le> x \<and> x \<le> 1)"
proof -
  have "v = NaN \<or> (\<exists>x. v = Finite x \<and> 0 \<le> x \<and> x \<le> 1)"
    if "\<not> float_less v (Finite 0)" "\<not> float_less (Finite 1) v" for v
    using that by (cases v) auto
  then show ?thesis by (auto simp: sampleRatio_def Let_def split: option.split)
qed

lemma sampleRatio_nan:
  assumes "getenv ''FRESHFLOW_OTEL_SAMPLE_RATIO'' = ''NaN''"
  shows "sampleRatio getenv = NaN"
proof -
  have "map ascii_lower ''NaN'' = ''nan''" by code_simp
  then have "ParseFloat ''NaN'' = Some NaN" by (simp only: ParseFloat_def Let_def simp_thms if_True)
  then show ?thesis using assms by (simp add: sampleRatio_def)
qed

lemma sampleRatio_quarter: "sampleRatio (\<lambda>_. ''2.5e-1'') = Finite (1 / 4)"
proof -
  have t: "split_sign ''2.5e-1'' = (False, ''2.5e-1'')" "\<not> based ''x'' ''2.5e-1''"
    "mantissa False False False 0 0 ''2.5e-1'' = (True, 25, 1, ''e-1'')" "exponent False ''e-1'' = Some (-1, [])"
    "map ascii_lower ''2.5e-1'' = ''2.5e-1''"
    by code_simp+
  have x: "scaled 25 10 (- 2) = 1 / 4" "in_range (1 / 4)" by (simp_all add: scaled_def in_range_def)
  have "readFloat ''2.5e-1'' = Some (Finite (1 / 4))" by (simp add: readFloat_def t x Let_def del: mantissa.simps)
  then have "ParseFloat ''2.5e-1'' = Some (Finite (1 / 4))"
    unfolding ParseFloat_def t Let_def by simp
  then show ?thesis by (simp add: sampleRatio_def)
qed

section \<open>Spans\<close>

text \<open>The span a consumer asks for: its tracer, its name, its parent and its attributes.\<close>

record consumer_span =
  cp_tracer :: string
  cp_name :: string
  cp_parent :: "(string \<times> string) option"
  cp_attributes :: "(string \<times> string) list"

text \<open>
  An event whose ids parse is the parent; otherwise it is the span of the context. \<open>start\<close> gives
  the ids of the span it opens.
\<close>

definition span_for ::
  "(string \<Rightarrow> string option) \<Rightarrow> (string \<Rightarrow> string option) \<Rightarrow> ctx \<Rightarrow> string \<Rightarrow> string \<Rightarrow> string \<Rightarrow> string \<Rightarrow> consumer_span" where
  "span_for parse_trace parse_span c service ty traceID spanID =
     \<lparr>cp_tracer = service, cp_name = ''consume '' @ ty,
      cp_parent = (case (parse_trace traceID, parse_span spanID) of
        (Some t, Some s) \<Rightarrow> Some (t, s) | _ \<Rightarrow> ctx_span c),
      cp_attributes = [(''messaging.system'', ''kafka''), (''messaging.operation'', ''process''),
        (''messaging.message.type'', ty)]\<rparr>"

definition StartConsumerSpan ::
  "(string \<Rightarrow> string option) \<Rightarrow> (string \<Rightarrow> string option) \<Rightarrow> (consumer_span \<Rightarrow> (string \<times> string) option) \<Rightarrow>
   ctx \<Rightarrow> string \<Rightarrow> string \<Rightarrow> string \<Rightarrow> string \<Rightarrow> ctx" where
  "StartConsumerSpan parse_trace parse_span start c service ty traceID spanID =
     c\<lparr>ctx_span := start (span_for parse_trace parse_span c service ty traceID spanID)\<rparr>"

definition TraceFields :: "ctx \<Rightarrow> (string \<times> string) list" where
  "TraceFields c =
     (case ctx_span c of None \<Rightarrow> [] | Some (t, s) \<Rightarrow> [(''trace_id'', t), (''span_id'', s)])"

text \<open>The context the consumers work in is the one \<open>StartConsumerSpan\<close> gives for the event.\<close>

lemma consumer_ctx_span:
  assumes "ctx_correlation c = CorrelationID v"
  shows "StartConsumerSpan parse_trace parse_span start c service (EventType v) (TraceID v) (SpanID v) =
    consumer_ctx (start (span_for parse_trace parse_span c service (EventType v) (TraceID v) (SpanID v))) v"
  using assms by (cases c) (simp add: StartConsumerSpan_def consumer_ctx_def)

text \<open>
  A trace goes on from event to event when the tracer keeps the trace of the parent: what a consumer
  publishes for an event carries the trace of that event.
\<close>

lemma trace_goes_on:
  assumes "\<And>q t s. cp_parent q = Some (t, s) \<Longrightarrow> \<exists>s'. start q = Some (t, s')"
    and "parse_trace (TraceID v) = Some t" and "parse_span (SpanID v) = Some s"
    and "New e (StartConsumerSpan parse_trace parse_span start c service (EventType v) (TraceID v) (SpanID v)) ty prd agg p = Inr w"
  shows "TraceID w = t"
proof -
  obtain s' where "start (span_for parse_trace parse_span c service (EventType v) (TraceID v) (SpanID v)) = Some (t, s')"
    using assms(1)[of "span_for parse_trace parse_span c service (EventType v) (TraceID v) (SpanID v)" t s] assms(2,3)
    by (auto simp: span_for_def)
  then show ?thesis using assms(4) by (auto simp: StartConsumerSpan_def New_Inr)
qed

end
