(* ===== verification/ReplayFlags.thy ===== *)
theory ReplayFlags
  imports DlqReplay Tracing
begin

text \<open>
  The command line of the dead-letter tool (\<open>main\<close> and \<open>run\<close> of cmd/dlq-replay/main.go) with Go's
  flag package: what the arguments set, which are errors, and how the process ends.
\<close>

section \<open>Values of flags\<close>

text \<open>\<open>strconv.ParseInt\<close> with base 0: the base is that of the prefix, and underscores may separate digits.\<close>

fun radix_value :: "int \<Rightarrow> int \<Rightarrow> string \<Rightarrow> int option" where
  "radix_value base acc [] = Some acc"
| "radix_value base acc (c # cs) =
     (if c = CHR ''_'' then radix_value base acc cs
      else case digit_in base c of None \<Rightarrow> None | Some d \<Rightarrow> radix_value base (base * acc + d) cs)"

definition literal_base :: "string \<Rightarrow> int \<times> string" where
  "literal_base t =
     (if 3 \<le> length t \<and> based ''b'' t then (2, drop 2 t)
      else if 3 \<le> length t \<and> based ''o'' t then (8, drop 2 t)
      else if 3 \<le> length t \<and> based ''x'' t then (16, drop 2 t)
      else if hd t = CHR ''0'' then (8, tl t)
      else (10, t))"

definition ParseInt :: "string \<Rightarrow> int option" where
  "ParseInt s =
     (case split_sign s of (neg, t) \<Rightarrow>
        if t = [] then None
        else case literal_base t of (base, ds) \<Rightarrow>
          (case radix_value base 0 ds of
             None \<Rightarrow> None
           | Some n \<Rightarrow>
               (let x = (if neg then - n else n) in
                if CHR ''_'' \<in> set s \<and> \<not> underscoreOK s \<or> \<not> int64 x then None else Some x)))"

definition ParseBool :: "string \<Rightarrow> bool option" where
  "ParseBool s =
     (if s \<in> {''1'', ''t'', ''T'', ''true'', ''TRUE'', ''True''} then Some True
      else if s \<in> {''0'', ''f'', ''F'', ''false'', ''FALSE'', ''False''} then Some False
      else None)"

section \<open>Flags\<close>

definition flag_defaults :: replay_config where
  "flag_defaults = \<lparr>cf_topic = [], cf_limit = 10, cf_execute = False, cf_confirm = [], cf_timeout = 30 * second\<rparr>"

definition flag_names :: "string list" where
  "flag_names = [''topic'', ''limit'', ''execute'', ''confirm'', ''timeout'']"

definition set_flag :: "string \<Rightarrow> string \<Rightarrow> replay_config \<Rightarrow> go_error + replay_config" where
  "set_flag name value c =
     (let bad = Inl (Failed (''invalid value for flag -'' @ name)) in
      if name = ''topic'' then Inr (c\<lparr>cf_topic := value\<rparr>)
      else if name = ''confirm'' then Inr (c\<lparr>cf_confirm := value\<rparr>)
      else if name = ''limit'' then (case ParseInt value of None \<Rightarrow> bad | Some n \<Rightarrow> Inr (c\<lparr>cf_limit := n\<rparr>))
      else if name = ''timeout'' then (case ParseDuration value of None \<Rightarrow> bad | Some d \<Rightarrow> Inr (c\<lparr>cf_timeout := d\<rparr>))
      else case ParseBool value of None \<Rightarrow> bad | Some b \<Rightarrow> Inr (c\<lparr>cf_execute := b\<rparr>))"

text \<open>The name of a flag without its dashes, and what follows the first \<open>=\<close> after it.\<close>

definition split_flag :: "string \<Rightarrow> string \<times> string option" where
  "split_flag t =
     (let name = takeWhile (\<lambda>c. c \<noteq> CHR ''='') t in
      (name, if length name < length t then Some (drop (Suc (length name)) t) else None))"

text \<open>
  \<open>FlagSet.Parse\<close>: the flags end at the first argument that is none, and after \<open>--\<close>. Only a boolean
  flag needs no value; the value of another is in the same argument or is the next one.
\<close>

fun parse_flags :: "string list \<Rightarrow> replay_config \<Rightarrow> go_error + replay_config" where
  "parse_flags [] c = Inr c"
| "parse_flags (s # args) c =
     (if length s < 2 \<or> s ! 0 \<noteq> CHR ''-'' \<or> s = ''--'' then Inr c
      else
        (let t = drop (if s ! 1 = CHR ''-'' then 2 else 1) s in
         if t = [] \<or> hd t = CHR ''-'' \<or> hd t = CHR ''='' then Inl (Failed (''bad flag syntax: '' @ s))
         else case split_flag t of (name, value) \<Rightarrow>
           if name \<notin> set flag_names
           then Inl (Failed (if name = ''help'' \<or> name = ''h'' then ''flag: help requested''
                             else ''flag provided but not defined: -'' @ name))
           else if name = ''execute'' \<or> value \<noteq> None
           then (case set_flag name (case value of None \<Rightarrow> ''true'' | Some v \<Rightarrow> v) c of
                   Inl err \<Rightarrow> Inl err | Inr c' \<Rightarrow> parse_flags args c')
           else case args of
             [] \<Rightarrow> Inl (Failed (''flag needs an argument: -'' @ name))
           | v # rest \<Rightarrow>
               (case set_flag name v c of Inl err \<Rightarrow> Inl err | Inr c' \<Rightarrow> parse_flags rest c')))"

section \<open>The process\<close>

definition run_tool ::
  "string list \<Rightarrow> (dlq_message \<Rightarrow> produce_outcome) \<Rightarrow> (dlq_message \<Rightarrow> bool) \<Rightarrow> poll list \<Rightarrow>
   go_error option \<times> replay_state" where
  "run_tool args broker commit_fails polls =
     (case parse_flags args flag_defaults of
        Inl err \<Rightarrow> (Some err, nothing_replayed)
      | Inr c \<Rightarrow> run_replay c broker commit_fails polls)"

definition exit_code :: "go_error option \<Rightarrow> int" where
  "exit_code err = (if err = None then 0 else 1)"

section \<open>Nothing is published by accident\<close>

text \<open>A word that an operator typed, as an argument of its own or after \<open>=\<close>.\<close>

definition typed :: "string \<Rightarrow> string list \<Rightarrow> bool" where
  "typed w args \<longleftrightarrow> (\<exists>a \<in> set args. a = w \<or> (\<exists>x. a = x @ CHR ''='' # w))"

lemma typed_later: "typed w args \<Longrightarrow> typed w (a # args)"
  by (auto simp: typed_def)

lemma set_flag_confirm:
  "set_flag name value c = Inr c' \<Longrightarrow> cf_confirm c' = (if name = ''confirm'' then value else cf_confirm c)"
  by (auto simp: set_flag_def Let_def split: if_splits option.splits)

lemma split_flag_value:
  assumes "split_flag t = (name, Some v)"
  shows "t = name @ CHR ''='' # v"
proof -
  let ?n = "takeWhile (\<lambda>c. c \<noteq> CHR ''='') t"
  have n: "name = ?n" "length ?n < length t" "v = drop (Suc (length ?n)) t"
    using assms by (auto simp: split_flag_def Let_def split: if_splits)
  have "t ! length ?n = CHR ''=''" using nth_length_takeWhile[OF n(2)] by simp
  moreover have "take (length ?n) t = ?n" by (rule takeWhile_eq_take[symmetric])
  ultimately show ?thesis using id_take_nth_drop[OF n(2)] n(1,3) by simp
qed

lemma parse_flags_confirm:
  "parse_flags args c = Inr c' \<Longrightarrow> cf_confirm c' = cf_confirm c \<or> typed (cf_confirm c') args"
proof (induction args c rule: parse_flags.induct)
  case (2 s args c)
  let ?t = "drop (if s ! 1 = CHR ''-'' then 2 else 1) s"
  obtain name given where sp: "split_flag ?t = (name, given)" by (cases "split_flag ?t")
  show ?case
  proof (cases "length s < 2 \<or> s ! 0 \<noteq> CHR ''-'' \<or> s = ''--''")
    case False
    then have ok: "\<not> (?t = [] \<or> hd ?t = CHR ''-'' \<or> hd ?t = CHR ''='')" "name \<in> set flag_names"
      using "2.prems" sp by (auto simp: Let_def split: if_splits)
    have nn: "\<not> name \<notin> set flag_names" using ok(2) by simp
    show ?thesis
    proof (cases "name = ''execute'' \<or> given \<noteq> None")
      case True
      then obtain c1 where c1: "set_flag name (case given of None \<Rightarrow> ''true'' | Some v \<Rightarrow> v) c = Inr c1" "parse_flags args c1 = Inr c'"
        using "2.prems" False ok sp by (auto simp: Let_def split: sum.splits)
      have "cf_confirm c1 = cf_confirm c \<or> typed (cf_confirm c1) (s # args)"
      proof (cases "name = ''confirm''")
        case True
        then obtain v where v: "given = Some v" using \<open>name = ''execute'' \<or> given \<noteq> None\<close> by auto
        have "s = take (if s ! 1 = CHR ''-'' then 2 else 1) s @ ?t" by simp
        then have "s = (take (if s ! 1 = CHR ''-'' then 2 else 1) s @ name) @ CHR ''='' # v"
          using split_flag_value[of ?t name v] sp v by (metis append.assoc)
        then have "typed v (s # args)" unfolding typed_def by (metis list.set_intros(1))
        then show ?thesis using set_flag_confirm[OF c1(1)] True v by simp
      qed (use set_flag_confirm[OF c1(1)] in simp)
      then show ?thesis using "2.IH"(1)[OF False refl ok(1) sp[symmetric] nn True c1] typed_later by metis
    next
      case none: False
      then obtain v others c1 where c1: "args = v # others" "set_flag name v c = Inr c1" "parse_flags others c1 = Inr c'"
        using "2.prems" False ok sp by (auto simp: Let_def split: sum.splits list.splits)
      have "cf_confirm c1 = cf_confirm c \<or> cf_confirm c1 = v" using set_flag_confirm[OF c1(2)] by simp
      moreover have "typed v (s # args)" using c1(1) by (simp add: typed_def)
      ultimately show ?thesis
        using "2.IH"(2)[OF False refl ok(1) sp[symmetric] nn none c1] typed_later unfolding c1(1) by metis
    qed
  qed (use "2.prems" in auto)
qed simp

lemma dry_record: "\<not> cf_execute c \<Longrightarrow> rp_sent (snd (replay_record c broker cf m s)) = rp_sent s"
  by (auto simp: replay_record_def Let_def split: sum.splits)

lemma dry_records:
  assumes "\<not> cf_execute c"
  shows "rp_sent (snd (each_record c broker cf ms s)) = rp_sent s"
proof (induction ms arbitrary: s)
  case (Cons m ms)
  obtain r s' where m: "replay_record c broker cf m s = (r, s')" by fastforce
  then have "rp_sent s' = rp_sent s" using dry_record[OF assms, of broker cf m s] by simp
  then show ?case using Cons m by (simp split: option.split)
qed simp

lemma dry_polls:
  assumes "\<not> cf_execute c"
  shows "rp_sent (snd (consume_dlq c broker cf polls s)) = rp_sent s"
proof (induction polls arbitrary: s)
  case (Cons p ps)
  show ?case
  proof (cases p)
    case (Fetched ms)
    obtain r s' where m: "each_record c broker cf ms s = (r, s')" by fastforce
    then have "rp_sent s' = rp_sent s" using dry_records[OF assms, of broker cf ms s] by simp
    then show ?thesis using Cons m Fetched by (simp split: option.split)
  qed simp_all
qed simp

text \<open>Whatever else is typed and whatever the topic holds, only a run with the word REPLAY publishes.\<close>

lemma replay_was_confirmed:
  assumes "rp_sent (snd (run_tool args broker cf polls)) \<noteq> []"
  shows "typed ''REPLAY'' args"
proof -
  obtain c where c: "parse_flags args flag_defaults = Inr c" "validate c = None"
      "rp_sent (snd (consume_dlq c broker cf polls nothing_replayed)) \<noteq> []"
    using assms by (auto simp: run_tool_def run_replay_def nothing_replayed_def split: sum.splits option.splits)
  then have "cf_execute c" using dry_polls by (fastforce simp: nothing_replayed_def)
  then have "cf_confirm c = ''REPLAY''" using c(2) by (auto simp: validate_def confirmationPhrase_def split: if_splits)
  then show ?thesis using parse_flags_confirm[OF c(1)] by (simp add: flag_defaults_def)
qed

end
