(* ===== verification/Server.thy ===== *)
theory Server
  imports Httpx Telemetry "HOL-Library.Multiset"
begin

text \<open>
  How a service serves a request: Go's \<open>http.ServeMux\<close> (patterns with a method and one-segment
  wildcards, subtree patterns that end in a slash, path cleaning and redirects), the health
  endpoints of pkg/platform/health/health.go, and the middleware \<open>Wrap\<close> of
  pkg/platform/httpx/httpx.go. Paths are decoded and hold no percent escapes; replies that are not
  JSON have no body here.
\<close>

section \<open>Requests and paths\<close>

record http_request =
  hr_method :: string
  hr_path :: string
  hr_correlation :: string
  hr_idempotency :: string
  hr_body :: http_body

text \<open>
  \<open>cleanPath\<close>: empty and \<open>.\<close> segments go, \<open>..\<close> takes the segment before it, a trailing slash stays.
  A path is its segments and whether it ends in a slash.
\<close>

type_synonym path = "string list \<times> bool"

definition clean_step :: "string \<Rightarrow> string list \<Rightarrow> string list" where
  "clean_step seg acc =
     (if seg = [] \<or> seg = ''.'' then acc else if seg = ''..'' then butlast acc else acc @ [seg])"

definition clean_path :: "string \<Rightarrow> path" where
  "clean_path p =
     (let q = (if p = [] \<or> hd p \<noteq> CHR ''/'' then CHR ''/'' # p else p);
          segs = fold clean_step (split_on (CHR ''/'') q) [] in
      (segs, segs = [] \<or> last q = CHR ''/''))"

definition path_text :: "path \<Rightarrow> string" where
  "path_text p = concat (map (\<lambda>s. CHR ''/'' # s) (fst p)) @ (if snd p then ''/'' else [])"

text \<open>The path of a CONNECT request is taken as it comes, empty and dotted segments included.\<close>

definition raw_path :: "string \<Rightarrow> path" where
  "raw_path p =
     (let segs = tl (split_on (CHR ''/'') p) in
      if segs \<noteq> [] \<and> last segs = [] then (butlast segs, True) else (segs, False))"

definition mux_path :: "string \<Rightarrow> string \<Rightarrow> path" where
  "mux_path m p = (if m = ''CONNECT'' then raw_path p else clean_path p)"

section \<open>ServeMux\<close>

datatype segment = Lit string | Wild

record pattern =
  pt_text :: string
  pt_method :: "string option"
  pt_segments :: "segment list"
  pt_subtree :: bool

text \<open>A pattern as it is written: an optional method and a path with \<open>{...}\<close> for wildcards.\<close>

definition segment_of :: "string \<Rightarrow> segment" where
  "segment_of s = (if s \<noteq> [] \<and> hd s = CHR ''{'' then Wild else Lit s)"

definition pattern_of :: "string option \<Rightarrow> string \<Rightarrow> pattern" where
  "pattern_of m p =
     \<lparr>pt_text = (case m of None \<Rightarrow> p | Some x \<Rightarrow> x @ '' '' @ p),
      pt_method = m, pt_segments = map segment_of (fst (clean_path p)), pt_subtree = snd (clean_path p)\<rparr>"

fun match_segment :: "segment \<Rightarrow> string \<Rightarrow> bool" where
  "match_segment (Lit l) s = (l = s)"
| "match_segment Wild s = True"

definition match_path :: "pattern \<Rightarrow> path \<Rightarrow> bool" where
  "match_path t p =
     (case p of (segs, slash) \<Rightarrow>
        if pt_subtree t
        then (let n = length (pt_segments t) in
              n \<le> length segs \<and> list_all2 match_segment (pt_segments t) (take n segs) \<and>
              (n < length segs \<or> slash))
        else \<not> slash \<and> list_all2 match_segment (pt_segments t) segs)"

definition match_method :: "pattern \<Rightarrow> string \<Rightarrow> bool" where
  "match_method t m =
     (case pt_method t of None \<Rightarrow> True | Some x \<Rightarrow> x = m \<or> x = ''GET'' \<and> m = ''HEAD'')"

definition bindings :: "pattern \<Rightarrow> path \<Rightarrow> string list" where
  "bindings t p = map snd (filter (\<lambda>(g, s). g = Wild) (zip (pt_segments t) (fst p)))"

datatype 'h routing =
    Found 'h "string list"
  | Redirected string
  | MethodNotAllowed "string list"
  | NotFound

text \<open>
  \<open>findHandler\<close>: a path without a match whose form with a slash is exactly that of a subtree pattern
  is redirected to it, a path that is not clean to its clean form, unless the method is CONNECT;
  otherwise the match, or 405 when another method would match, or 404. The tables of the services hold no two patterns that match the
  same request, so the first match is the most specific one.
\<close>

definition match_request :: "(pattern \<times> 'h) list \<Rightarrow> string \<Rightarrow> path \<Rightarrow> (pattern \<times> 'h) option" where
  "match_request table m p = find (\<lambda>(t, h). match_method t m \<and> match_path t p) table"

definition allowed_methods :: "(pattern \<times> 'h) list \<Rightarrow> path \<Rightarrow> string list" where
  "allowed_methods table p =
     (let ms = concat (map (\<lambda>(t, h). case pt_method t of None \<Rightarrow> [] | Some x \<Rightarrow>
             (if match_path t p \<or> \<not> snd p \<and> match_path t (fst p, True)
              then (if x = ''GET'' then [''GET'', ''HEAD''] else [x]) else [])) table) in
      sort (remdups ms))"

definition exact_subtree :: "pattern \<Rightarrow> path \<Rightarrow> bool" where
  "exact_subtree t p \<longleftrightarrow> pt_subtree t \<and> list_all2 match_segment (pt_segments t) (fst p)"

definition find_handler :: "(pattern \<times> 'h) list \<Rightarrow> string \<Rightarrow> string \<Rightarrow> 'h routing" where
  "find_handler table m p =
     (let q = mux_path m p; unclean = m \<noteq> ''CONNECT'' \<and> path_text q \<noteq> p in
      case match_request table m q of
        Some (t, h) \<Rightarrow> (if unclean then Redirected (path_text q) else Found h (bindings t q))
      | None \<Rightarrow>
          if \<not> snd q \<and> list_ex (\<lambda>(t, h). match_method t m \<and> exact_subtree t q) table
          then Redirected (path_text (fst (clean_path p), True))
          else if unclean then Redirected (path_text q)
          else if allowed_methods table q \<noteq> [] then MethodNotAllowed (allowed_methods table q)
          else NotFound)"

text \<open>\<open>r.Pattern\<close>: the pattern a request was routed by, or the path it is redirected to for its slash.\<close>

definition route_of :: "(pattern \<times> 'h) list \<Rightarrow> http_request \<Rightarrow> string" where
  "route_of table r =
     (let q = mux_path (hr_method r) (hr_path r) in
      case match_request table (hr_method r) q of
        Some (t, h) \<Rightarrow> pt_text t
      | None \<Rightarrow>
          if \<not> snd q \<and> list_ex (\<lambda>(t, h). match_method t (hr_method r) \<and> exact_subtree t q) table
          then path_text (fst (clean_path (hr_path r)), True) else [])"

text \<open>\<open>PathValue\<close> of the \<open>i\<close>th wildcard.\<close>

definition path_value :: "string list \<Rightarrow> nat \<Rightarrow> string" where
  "path_value b i = (if i < length b then b ! i else [])"

definition plain_reply :: "int \<Rightarrow> (string \<times> string) list \<Rightarrow> reply" where
  "plain_reply status headers = \<lparr>rp_status = status, rp_body = None, rp_headers = headers\<rparr>"

fun join_comma :: "string list \<Rightarrow> string" where
  "join_comma [] = []"
| "join_comma [x] = x"
| "join_comma (x # xs) = x @ '', '' @ join_comma xs"

text \<open>What a mux answers by itself.\<close>

definition mux_reply :: "'h routing \<Rightarrow> reply" where
  "mux_reply r =
     (case r of
        Redirected loc \<Rightarrow> plain_reply 301 [(''Location'', loc)]
      | MethodNotAllowed ms \<Rightarrow> plain_reply 405 [(''Allow'', join_comma ms)]
      | _ \<Rightarrow> plain_reply 404 [])"

section \<open>Health\<close>

text \<open>
  \<open>/readyz\<close>: every dependency is checked in a goroutine of its own; the results come over a channel
  in the order in which the checks end. A result is a name, whether the check passed, and its
  duration in milliseconds. \<open>checks\<close> is a Go map, encoded in the order of its keys.
\<close>

type_synonym check_result = "string \<times> bool \<times> int"

definition json_check :: "bool \<times> int \<Rightarrow> json" where
  "json_check r =
     JObj [(''status'', JStr (if fst r then ''up'' else ''down'')), (''duration_ms'', JInt (snd r))]"

definition checks_map :: "check_result list \<Rightarrow> string \<rightharpoonup> bool \<times> int" where
  "checks_map results = fold (\<lambda>(n, r) m. m(n \<mapsto> r)) results Map.empty"

definition json_checks :: "check_result list \<Rightarrow> json" where
  "json_checks results =
     JObj (map (\<lambda>n. (n, case checks_map results n of None \<Rightarrow> JNull | Some r \<Rightarrow> json_check r))
       (sort (remdups (map fst results))))"

definition readyz :: "check_result list \<Rightarrow> reply" where
  "readyz results =
     (let up = list_all (\<lambda>(n, up, d). up) results in
      WriteJSON (if up then 200 else 503)
        (JObj [(''checks'', json_checks results), (''status'', JStr (if up then ''ready'' else ''not_ready''))]))"

definition healthz :: "string \<Rightarrow> reply" where
  "healthz service = WriteJSON 200 (JObj [(''service'', JStr service), (''status'', JStr ''up'')])"

datatype health_endpoint = Healthz | Readyz

definition health_routes :: "(pattern \<times> health_endpoint) list" where
  "health_routes =
     [(pattern_of (Some ''GET'') ''/healthz'', Healthz), (pattern_of (Some ''GET'') ''/readyz'', Readyz)]"

fun health_reply :: "string \<Rightarrow> check_result list \<Rightarrow> health_endpoint \<Rightarrow> reply" where
  "health_reply service results Healthz = healthz service"
| "health_reply service results Readyz = readyz results"

section \<open>Middleware\<close>

text \<open>
  What a handler does to the response: it replies, or panics, before or after it has written a
  reply of its own.
\<close>

datatype served = Replied reply | Panicked "reply option"

text \<open>
  \<open>recoverPanic\<close> around \<open>accessLog\<close>: the access log and its metrics come after the handler has
  returned, so a panicking request is in neither; its reply is an internal error, written after what
  the handler had written already.
\<close>

definition recover_panic :: "string \<Rightarrow> served \<Rightarrow> reply" where
  "recover_panic correlationID x =
     (case x of
        Replied r \<Rightarrow> r
      | Panicked None \<Rightarrow> WriteError correlationID (Some internalError)
      | Panicked (Some r) \<Rightarrow> r\<lparr>rp_body := None\<rparr>)"

definition access_log :: "string \<Rightarrow> string \<Rightarrow> string \<Rightarrow> duration \<Rightarrow> served \<Rightarrow> metrics \<Rightarrow> metrics" where
  "access_log service route method_name d x m =
     (case x of Replied r \<Rightarrow> ObserveHTTP service route method_name (rp_status r) d m | Panicked _ \<Rightarrow> m)"

definition CorrelationHeader :: string where "CorrelationHeader = ''X-Correlation-ID''"

text \<open>
  \<open>Wrap\<close>: \<open>tm\<close> is the time as text, used when the random source fails; \<open>d\<close> how long the handler
  takes; \<open>route\<close> the pattern the mux records. \<open>next_handler\<close> serves the request under its
  correlation id in the state of the service.
\<close>

definition Wrap ::
  "string \<Rightarrow> env \<Rightarrow> string \<Rightarrow> duration \<Rightarrow> (http_request \<Rightarrow> string) \<Rightarrow>
   (string \<Rightarrow> http_request \<Rightarrow> 's \<Rightarrow> served \<times> 's) \<Rightarrow> http_request \<Rightarrow> metrics \<times> 's \<Rightarrow> reply \<times> metrics \<times> 's" where
  "Wrap service e tm d route next_handler r ms =
     (let cid = correlation_id e tm (hr_correlation r);
          own = (hr_path r = ''/metrics'') in
      case (if own then (Replied (plain_reply 200 []), snd ms) else next_handler cid r (snd ms)) of
        (x, s') \<Rightarrow>
          (let reply = recover_panic cid x in
           (reply\<lparr>rp_headers := (CorrelationHeader, cid) # rp_headers reply\<rparr>,
            access_log service (if own then [] else route r) (hr_method r) d x (fst ms), s')))"

section \<open>Lemmas\<close>

subsection \<open>Paths\<close>

lemma clean_steps_plain:
  "\<forall>s \<in> set segs. s \<noteq> [] \<and> s \<noteq> ''.'' \<and> s \<noteq> ''..'' \<Longrightarrow> fold clean_step segs acc = acc @ segs"
  by (induction segs arbitrary: acc) (auto simp: clean_step_def)

lemma clean_blank [simp]: "clean_step [] acc = acc"
  by (simp add: clean_step_def)

lemma split_on_segments:
  assumes "\<forall>s \<in> set segs. CHR ''/'' \<notin> set s"
  shows "split_on (CHR ''/'') (concat (map (\<lambda>s. CHR ''/'' # s) segs) @ (if slash then ''/'' else [])) =
    (if segs = [] \<and> \<not> slash then [[]] else [] # segs @ (if slash then [[]] else []))"
  using assms
proof (induction segs)
  case (Cons x xs)
  let ?rest = "concat (map (\<lambda>s. CHR ''/'' # s) xs) @ (if slash then ''/'' else [])"
  show ?case
  proof (cases "xs = [] \<and> \<not> slash")
    case True
    then show ?thesis using Cons.prems by (simp add: split_on_single)
  next
    case False
    then obtain t where t: "?rest = CHR ''/'' # t" by (cases xs) auto
    then have "split_on (CHR ''/'') t = xs @ (if slash then [[]] else [])"
      using Cons False by auto
    then show ?thesis using Cons.prems t split_on_append[of "CHR ''/''" x t] by simp
  qed
qed simp

text \<open>A path of proper segments is clean, and is its own text.\<close>

definition proper :: "string \<Rightarrow> bool" where
  "proper s \<longleftrightarrow> s \<noteq> [] \<and> s \<noteq> ''.'' \<and> s \<noteq> ''..'' \<and> CHR ''/'' \<notin> set s"

lemma last_path_text:
  assumes "\<forall>s \<in> set segs. proper s" and "segs \<noteq> []"
  shows "last (path_text (segs, slash)) = CHR ''/'' \<longleftrightarrow> slash"
proof -
  obtain xs x where s: "segs = xs @ [x]" using assms(2) by (metis append_butlast_last_id)
  then have "proper x" using assms(1) by simp
  then have "x \<noteq> []" "last x \<noteq> CHR ''/''" by (auto simp: proper_def) (metis last_in_set)
  then show ?thesis by (simp add: path_text_def s)
qed

lemma clean_path_text:
  assumes "\<forall>s \<in> set segs. proper s" and "segs = [] \<longrightarrow> slash"
  shows "clean_path (path_text (segs, slash)) = (segs, slash)"
proof -
  let ?p = "path_text (segs, slash)"
  have h: "?p \<noteq> []" "hd ?p = CHR ''/''" using assms(2) by (cases segs; simp add: path_text_def)+
  have "split_on (CHR ''/'') ?p = [] # segs @ (if slash then [[]] else [])"
    using assms split_on_segments[of segs slash] by (auto simp: path_text_def proper_def)
  then have "fold clean_step (split_on (CHR ''/'') ?p) [] = segs"
    using clean_steps_plain[of segs "[]"] clean_blank assms(1) by (simp add: proper_def)
  moreover have "(segs = [] \<or> last ?p = CHR ''/'') \<longleftrightarrow> slash"
    using assms last_path_text[of segs slash] by (cases "segs = []") simp_all
  ultimately show ?thesis using h by (simp add: clean_path_def)
qed

lemma clean_step_proper:
  "\<forall>s \<in> set acc. proper s \<Longrightarrow> CHR ''/'' \<notin> set x \<Longrightarrow> \<forall>s \<in> set (clean_step x acc). proper s"
  unfolding clean_step_def using in_set_butlastD[of _ acc] by (auto simp: proper_def)

lemma clean_steps_proper:
  "\<forall>s \<in> set acc. proper s \<Longrightarrow> \<forall>x \<in> set xs. CHR ''/'' \<notin> set x \<Longrightarrow>
     \<forall>s \<in> set (fold clean_step xs acc). proper s"
proof (induction xs arbitrary: acc)
  case (Cons x xs)
  have "\<forall>s \<in> set (clean_step x acc). proper s" by (rule clean_step_proper) (use Cons.prems in simp_all)
  then show ?case using Cons.IH Cons.prems(2) by simp
qed simp

lemma clean_path_proper: "s \<in> set (fst (clean_path p)) \<Longrightarrow> proper s"
proof -
  let ?q = "if p = [] \<or> hd p \<noteq> CHR ''/'' then CHR ''/'' # p else p"
  assume "s \<in> set (fst (clean_path p))"
  then have "s \<in> set (fold clean_step (split_on (CHR ''/'') ?q) [])" by (simp add: clean_path_def Let_def)
  moreover have "\<forall>x \<in> set (split_on (CHR ''/'') ?q). CHR ''/'' \<notin> set x" using split_on_pieces by blast
  ultimately show ?thesis using clean_steps_proper[of "[]" "split_on (CHR ''/'') ?q"] by simp
qed

lemma clean_path_slash: "fst (clean_path p) = [] \<Longrightarrow> snd (clean_path p)"
  by (simp add: clean_path_def Let_def)

text \<open>Cleaning a clean path changes nothing, so a redirect is followed at most once.\<close>

lemma clean_path_idem: "clean_path (path_text (clean_path p)) = clean_path p"
  using clean_path_text[of "fst (clean_path p)" "snd (clean_path p)"] clean_path_proper clean_path_slash by auto

lemma redirect_once:
  assumes "find_handler table m p = Redirected loc" and "find_handler table m loc = Redirected loc'"
    and [simp]: "m \<noteq> ''CONNECT''"
  shows "snd (clean_path loc') \<and> loc' = loc @ ''/''"
proof -
  define q where "q = clean_path p"
  have q: "\<forall>s \<in> set (fst q). proper s" "fst q = [] \<longrightarrow> snd q"
    using clean_path_proper clean_path_slash by (auto simp: q_def)
  have t: "clean_path (path_text (fst q, True)) = (fst q, True)" using q by (intro clean_path_text) auto
  consider "loc = path_text q" | "loc = path_text (fst q, True)" "\<not> snd q"
    "\<exists>(t, h) \<in> set table. match_method t m \<and> exact_subtree t q"
    using assms(1)
    by (auto simp: find_handler_def mux_path_def q_def[symmetric] Let_def list_ex_iff split: option.splits if_splits)
  then show ?thesis
  proof cases
    case 1
    have c: "clean_path loc = q" using 1 clean_path_idem by (simp add: q_def)
    then have "\<not> snd q" "loc' = path_text (fst q, True)"
      using assms(2) 1 by (auto simp: find_handler_def mux_path_def Let_def split: option.splits if_splits)
    then show ?thesis using t 1 by (cases q) (simp add: path_text_def)
  next
    case 2
    then obtain u h where u: "(u, h) \<in> set table" "match_method u m" "exact_subtree u q" by auto
    then have "length (pt_segments u) = length (fst q)" by (auto simp: exact_subtree_def dest: list_all2_lengthD)
    then have "match_method u m \<and> match_path u (fst q, True)"
      using u by (auto simp: match_path_def exact_subtree_def)
    then have "match_request table m (fst q, True) \<noteq> None"
      using u(1) unfolding match_request_def find_None_iff by blast
    then show ?thesis using assms(2) 2 t
      by (auto simp: find_handler_def mux_path_def Let_def split: option.splits if_splits)
  qed
qed

subsection \<open>Readiness\<close>

lemma checks_map_eq: "checks_map results = map_of (rev results)"
proof -
  have "fold (\<lambda>(n, r) m. m(n \<mapsto> r)) xs m = m ++ map_of (rev xs)" for xs :: "check_result list" and m
    by (induction xs arbitrary: m) (auto simp: map_add_def split: option.splits)
  then show ?thesis by (simp add: checks_map_def)
qed

text \<open>The reply does not depend on the order in which the checks end.\<close>

lemma readyz_interleaving:
  assumes "mset xs = mset ys" and "distinct (map fst xs)"
  shows "readyz xs = readyz ys"
proof -
  have s: "set xs = set ys" using assms(1) by (rule mset_eq_setD)
  have d: "distinct (map fst ys)" using assms by (metis mset_map mset_eq_imp_distinct_iff)
  have "map_of (rev xs) = map_of (rev ys)"
    using assms(2) d s by (intro map_of_eqI) (auto simp: rev_map[symmetric] map_of_eq_Some_iff)
  moreover have "sort (remdups (map fst xs)) = sort (remdups (map fst ys))"
    using s by (metis (mono_tags) list.set_map sorted_list_of_set_sort_remdups)
  moreover have "list_all P xs = list_all P ys" for P using s by (simp add: list_all_iff)
  ultimately show ?thesis by (simp add: readyz_def json_checks_def checks_map_eq)
qed

lemma readyz_ready: "rp_status (readyz results) = 200 \<longleftrightarrow> (\<forall>(n, up, d) \<in> set results. up)"
  by (auto simp: readyz_def WriteJSON_def list_all_iff Let_def)

subsection \<open>The middleware\<close>

lemma hex_bytes_text: "concat (map (\<lambda>c. hex_byte (of_char c)) tm) = hex_of (map of_char tm)"
  by (simp add: hex_of_def comp_def)

lemma correlation_kept: "safe_token h \<Longrightarrow> correlation_id e tm h = h"
  by (simp add: correlation_id_def)

lemma Wrap_eq:
  assumes "hr_path r \<noteq> ''/metrics''" and "cid = correlation_id e tm (hr_correlation r)"
  shows "Wrap service e tm d route h r ms =
    (let x = fst (h cid r (snd ms)); y = recover_panic cid x in
     (y\<lparr>rp_headers := (CorrelationHeader, cid) # rp_headers y\<rparr>,
      access_log service (route r) (hr_method r) d x (fst ms), snd (h cid r (snd ms))))"
  using assms by (simp add: Wrap_def Let_def split: prod.split)

text \<open>A request on whose handler \<open>panic\<close> ends is in neither the access log's histogram nor its errors.\<close>

lemma panics_unobserved:
  assumes "hr_path r \<noteq> ''/metrics''" and "fst (h (correlation_id e tm (hr_correlation r)) r s) = Panicked x"
  shows "fst (snd (Wrap service e tm d route h r (m, s))) = m"
  using assms by (simp add: Wrap_eq Let_def access_log_def)

text \<open>
  C17 Every response but that of /metrics, which no handler of a service sees, names the request:
  whatever header a client sends and whether or not the random
  source works, the handler serves the request under one safe correlation id, the client's own when
  that is safe; the response carries the same id, the next service the id is sent to keeps it, and
  a handler that panics before it has written anything gives an internal error that quotes it.
\<close>

theorem responses_carry_correlation:
  assumes "tm \<noteq> []" and "length tm \<le> 64" and "hr_path r \<noteq> ''/metrics''"
    and "Wrap service e tm d route h r (m, s) = (y, m', s')"
  shows "\<exists>cid. safe_token cid \<and> (safe_token (hr_correlation r) \<longrightarrow> cid = hr_correlation r) \<and>
    hd (rp_headers y) = (CorrelationHeader, cid) \<and> s' = snd (h cid r s) \<and>
    (\<forall>e' tm'. correlation_id e' tm' cid = cid) \<and>
    (fst (h cid r s) = Panicked None \<longrightarrow>
       rp_status y = 500 \<and> rp_body y = rp_body (WriteError cid (Some internalError)))"
proof -
  let ?cid = "correlation_id e tm (hr_correlation r)"
  have "safe_token ?cid" using assms(1,2) by (rule correlation_id_safe)
  moreover have "s' = snd (h ?cid r s) \<and> hd (rp_headers y) = (CorrelationHeader, ?cid) \<and>
      (fst (h ?cid r s) = Panicked None \<longrightarrow>
         rp_status y = 500 \<and> rp_body y = rp_body (WriteError ?cid (Some internalError)))"
    using assms(4) Wrap_eq[OF assms(3) refl, of service e tm d route h "(m, s)"]
    by (auto simp: Let_def recover_panic_def WriteError_def WriteJSON_def internalError_def Error_def)
  ultimately show ?thesis using correlation_kept by metis
qed

definition bad_header :: http_request where
  "bad_header = \<lparr>hr_method = ''GET'', hr_path = ''/boom'', hr_correlation = ''a b'', hr_idempotency = [],
     hr_body = \<lparr>bd_size = 0, bd_values = []\<rparr>\<rparr>"

theorem responses_carry_correlation_witness:
  "rp_status (fst (Wrap ''demo'' (quiet_env\<lparr>fails := (\<lambda>_. True)\<rparr>) ''2026-01-02T03:04:05Z'' 5 (\<lambda>_. [])
     (\<lambda>_ _ n. (Panicked None, n + 1)) bad_header (no_metrics, 0::nat))) = 500"
proof -
  let ?w = "Wrap ''demo'' (quiet_env\<lparr>fails := (\<lambda>_. True)\<rparr>) ''2026-01-02T03:04:05Z'' 5 (\<lambda>_. [])
     (\<lambda>_ _ n. (Panicked None, n + 1)) bad_header (no_metrics, 0::nat)"
  obtain y m' s' where w: "?w = (y, m', s')" by (cases ?w) auto
  have "hr_path bad_header \<noteq> ''/metrics''" by (simp add: bad_header_def)
  from responses_carry_correlation[OF _ _ this w] show ?thesis unfolding w by auto
qed

end
