(* ===== verification/Gateway.thy ===== *)
theory Gateway
  imports Server
begin

text \<open>
  The API gateway (services/api-gateway/internal/httpapi/server.go and the readiness checks of
  internal/dependencies/dependencies.go): its routes, the reverse proxies with their rewritten paths,
  and its own endpoints. An upstream is what \<open>url.Parse\<close> makes of a configured URL, its host and its
  path, or nothing when the URL is not usable; what it answers is a parameter.
\<close>

section \<open>Reverse proxies\<close>

record upstream =
  up_host :: string
  up_path :: string

definition trim_prefix :: "string \<Rightarrow> string \<Rightarrow> string" where
  "trim_prefix pre s = (if take (length pre) s = pre then drop (length pre) s else s)"

text \<open>\<open>singleJoiningSlash\<close>, with which the director of \<open>NewSingleHostReverseProxy\<close> joins paths.\<close>

definition join_slash :: "string \<Rightarrow> string \<Rightarrow> string" where
  "join_slash a b =
     (let aslash = a \<noteq> [] \<and> last a = CHR ''/''; bslash = b \<noteq> [] \<and> hd b = CHR ''/'' in
      if aslash \<and> bslash then a @ tl b
      else if \<not> aslash \<and> \<not> bslash then a @ CHR ''/'' # b
      else a @ b)"

definition direct :: "upstream \<Rightarrow> string \<Rightarrow> string \<Rightarrow> string \<Rightarrow> http_request \<Rightarrow> http_request" where
  "direct u publicPrefix internalPrefix cid r =
     r\<lparr>hr_path := internalPrefix @ trim_prefix publicPrefix (join_slash (up_path u) (hr_path r)),
       hr_correlation := cid\<rparr>"

text \<open>No answer, an answer, or one whose body breaks off, on which the proxy panics.\<close>

datatype upstream_answer = NoAnswer | Answer reply | BrokenAnswer reply

definition unavailable_reply :: "string \<Rightarrow> reply" where
  "unavailable_reply cid =
     WriteError cid (Some (Error 503 ''upstream_unavailable'' ''service is unavailable'' None))"

definition reverseProxy ::
  "(upstream \<Rightarrow> http_request \<Rightarrow> 's \<Rightarrow> upstream_answer \<times> 's) \<Rightarrow> upstream option \<Rightarrow> string \<Rightarrow> string \<Rightarrow>
   string \<Rightarrow> http_request \<Rightarrow> 's \<Rightarrow> served \<times> 's" where
  "reverseProxy send target publicPrefix internalPrefix cid r s =
     (case target of
        None \<Rightarrow> (Replied (unavailable_reply cid), s)
      | Some u \<Rightarrow>
          (case send u (direct u publicPrefix internalPrefix cid r) s of
             (NoAnswer, s') \<Rightarrow> (Replied (unavailable_reply cid), s')
           | (Answer x, s') \<Rightarrow> (Replied x, s')
           | (BrokenAnswer x, s') \<Rightarrow> (Panicked (Some x), s')))"

section \<open>Routes\<close>

record gateway_options =
  op_catalog :: "upstream option"
  op_cart :: "upstream option"
  op_order :: "upstream option"
  op_delivery :: "upstream option"
  op_analytics :: "upstream option"

datatype gateway_endpoint =
    GatewayHealth
  | GatewayReady
  | ApiRoot
  | Proxy "upstream option" string string

definition gateway_routes :: "gateway_options \<Rightarrow> (pattern \<times> gateway_endpoint) list" where
  "gateway_routes opts =
     [(pattern_of (Some ''GET'') ''/healthz'', GatewayHealth),
      (pattern_of (Some ''GET'') ''/readyz'', GatewayReady),
      (pattern_of (Some ''GET'') ''/api/v1'', ApiRoot),
      (pattern_of None ''/api/v1/catalog/'', Proxy (op_catalog opts) ''/api/v1/catalog'' ''/internal/v1''),
      (pattern_of None ''/api/v1/carts/'', Proxy (op_cart opts) ''/api/v1/carts'' ''/internal/v1/carts''),
      (pattern_of None ''/api/v1/orders'', Proxy (op_order opts) ''/api/v1/orders'' ''/internal/v1/orders''),
      (pattern_of None ''/api/v1/orders/'', Proxy (op_order opts) ''/api/v1/orders'' ''/internal/v1/orders''),
      (pattern_of None ''/api/v1/deliveries/'', Proxy (op_delivery opts) ''/api/v1/deliveries'' ''/internal/v1/deliveries''),
      (pattern_of None ''/api/v1/operations/'', Proxy (op_delivery opts) ''/api/v1/operations'' ''/internal/v1/operations''),
      (pattern_of None ''/api/v1/analytics/'', Proxy (op_analytics opts) ''/api/v1/analytics'' ''/internal/v1/analytics'')]"

definition apiRoot :: reply where
  "apiRoot = WriteJSON 200 (JObj [(''name'', JStr ''FreshFlow API''), (''status'', JStr ''bootstrapped''),
     (''version'', JStr ''v1'')])"

definition gateway_health :: reply where
  "gateway_health = WriteJSON 200 (JObj [(''service'', JStr ''api-gateway''), (''status'', JStr ''up'')])"

text \<open>\<open>ready\<close> is the readiness endpoint of the gateway's own checks, in the shape of \<open>readyz\<close>.\<close>

definition ready :: "check_result list \<Rightarrow> reply" where
  "ready results =
     (let up = list_all (\<lambda>(n, up, d). up) results in
      WriteJSON (if up then 200 else 503)
        (JObj [(''checks'', json_checks results), (''status'', JStr (if up then ''ready'' else ''not_ready''))]))"

definition gateway ::
  "gateway_options \<Rightarrow> (upstream \<Rightarrow> http_request \<Rightarrow> 's \<Rightarrow> upstream_answer \<times> 's) \<Rightarrow> check_result list \<Rightarrow>
   string \<Rightarrow> http_request \<Rightarrow> 's \<Rightarrow> served \<times> 's" where
  "gateway opts send results cid r s =
     (case find_handler (gateway_routes opts) (hr_method r) (hr_path r) of
        Found GatewayHealth _ \<Rightarrow> (Replied gateway_health, s)
      | Found GatewayReady _ \<Rightarrow> (Replied (ready results), s)
      | Found ApiRoot _ \<Rightarrow> (Replied apiRoot, s)
      | Found (Proxy target pub inner) _ \<Rightarrow> reverseProxy send target pub inner cid r s
      | x \<Rightarrow> (Replied (mux_reply x), s))"

section \<open>Checks of other services\<close>

definition trim_right_slash :: "string \<Rightarrow> string" where
  "trim_right_slash s = rev (dropWhile (\<lambda>c. c = CHR ''/'') (rev s))"

text \<open>\<open>HTTPChecker\<close>: \<open>get\<close> is the status a \<open>GET\<close> of a URL is answered with, if any.\<close>

definition HTTPChecker :: "env \<Rightarrow> (string \<Rightarrow> int option) \<Rightarrow> string \<Rightarrow> go_error + unit" where
  "HTTPChecker e get baseURL =
     andthen (io e ''new request'') (\<lambda>_.
       case get (trim_right_slash baseURL @ ''/readyz'') of
         None \<Rightarrow> Inl CallFailed
       | Some status \<Rightarrow> (if status \<noteq> 200 then Inl (Failed ''readiness status'') else Inr ()))"

section \<open>What is forwarded\<close>

text \<open>The public prefixes, with the prefix at the service and the service.\<close>

definition public_prefixes :: "gateway_options \<Rightarrow> (string \<times> string \<times> upstream option) list" where
  "public_prefixes opts =
     [(''/api/v1/catalog'', ''/internal/v1'', op_catalog opts),
      (''/api/v1/carts'', ''/internal/v1/carts'', op_cart opts),
      (''/api/v1/orders'', ''/internal/v1/orders'', op_order opts),
      (''/api/v1/deliveries'', ''/internal/v1/deliveries'', op_delivery opts),
      (''/api/v1/operations'', ''/internal/v1/operations'', op_delivery opts),
      (''/api/v1/analytics'', ''/internal/v1/analytics'', op_analytics opts)]"

text \<open>A subtree pattern of literals matches the clean paths that start with its text.\<close>

lemma match_lits: "list_all2 match_segment (map Lit xs) ys \<longleftrightarrow> ys = xs"
  by (induction xs arbitrary: ys) (auto simp: list_all2_Cons1)

lemma pattern_simps:
  "pattern_of (Some ''GET'') ''/healthz'' =
     \<lparr>pt_text = ''GET /healthz'', pt_method = Some ''GET'', pt_segments = map Lit [''healthz''], pt_subtree = False\<rparr>"
  "pattern_of (Some ''GET'') ''/readyz'' =
     \<lparr>pt_text = ''GET /readyz'', pt_method = Some ''GET'', pt_segments = map Lit [''readyz''], pt_subtree = False\<rparr>"
  "pattern_of (Some ''GET'') ''/api/v1'' =
     \<lparr>pt_text = ''GET /api/v1'', pt_method = Some ''GET'', pt_segments = map Lit [''api'', ''v1''], pt_subtree = False\<rparr>"
  "pattern_of None ''/api/v1/catalog/'' =
     \<lparr>pt_text = ''/api/v1/catalog/'', pt_method = None, pt_segments = map Lit [''api'', ''v1'', ''catalog''], pt_subtree = True\<rparr>"
  "pattern_of None ''/api/v1/carts/'' =
     \<lparr>pt_text = ''/api/v1/carts/'', pt_method = None, pt_segments = map Lit [''api'', ''v1'', ''carts''], pt_subtree = True\<rparr>"
  "pattern_of None ''/api/v1/orders'' =
     \<lparr>pt_text = ''/api/v1/orders'', pt_method = None, pt_segments = map Lit [''api'', ''v1'', ''orders''], pt_subtree = False\<rparr>"
  "pattern_of None ''/api/v1/orders/'' =
     \<lparr>pt_text = ''/api/v1/orders/'', pt_method = None, pt_segments = map Lit [''api'', ''v1'', ''orders''], pt_subtree = True\<rparr>"
  "pattern_of None ''/api/v1/deliveries/'' =
     \<lparr>pt_text = ''/api/v1/deliveries/'', pt_method = None, pt_segments = map Lit [''api'', ''v1'', ''deliveries''], pt_subtree = True\<rparr>"
  "pattern_of None ''/api/v1/operations/'' =
     \<lparr>pt_text = ''/api/v1/operations/'', pt_method = None, pt_segments = map Lit [''api'', ''v1'', ''operations''], pt_subtree = True\<rparr>"
  "pattern_of None ''/api/v1/analytics/'' =
     \<lparr>pt_text = ''/api/v1/analytics/'', pt_method = None, pt_segments = map Lit [''api'', ''v1'', ''analytics''], pt_subtree = True\<rparr>"
  by code_simp+

text \<open>Where a clean path goes on below a path of proper segments.\<close>

lemma split_lits:
  "\<forall>s \<in> set lits. proper s \<Longrightarrow>
     split_on (CHR ''/'') (path_text (lits, False) @ CHR ''/'' # t) = [] # lits @ split_on (CHR ''/'') t"
proof (induction lits)
  case (Cons x xs)
  have "path_text (xs, False) @ CHR ''/'' # t = (case path_text (xs, False) @ CHR ''/'' # t of _ # u \<Rightarrow> CHR ''/'' # u)"
    by (cases xs) (simp_all add: path_text_def)
  then obtain u where u: "path_text (xs, False) @ CHR ''/'' # t = CHR ''/'' # u"
    by (cases xs) (simp_all add: path_text_def)
  then have "split_on (CHR ''/'') (CHR ''/'' # u) = [] # xs @ split_on (CHR ''/'') t"
    using Cons by (metis list.set_intros(2))
  then have "split_on (CHR ''/'') u = xs @ split_on (CHR ''/'') t" by simp
  moreover have "path_text (x # xs, False) @ CHR ''/'' # t = CHR ''/'' # x @ CHR ''/'' # u"
    using u by (simp add: path_text_def)
  ultimately show ?case
    using Cons.prems split_on_append[of "CHR ''/''" x u] by (simp add: proper_def)
qed (simp add: path_text_def)

lemma split_path_text:
  assumes "\<forall>s \<in> set segs. proper s" and "segs = [] \<longrightarrow> slash"
  shows "split_on (CHR ''/'') (path_text (segs, slash)) = [] # segs @ (if slash then [[]] else [])"
  using assms split_on_segments[of segs slash] by (auto simp: path_text_def proper_def)

lemma below_prefix:
  assumes "\<forall>s \<in> set segs. proper s" and "segs = [] \<longrightarrow> slash" and "\<forall>s \<in> set lits. proper s"
  shows "(\<exists>t. path_text (segs, slash) = path_text (lits, False) @ CHR ''/'' # t) \<longleftrightarrow>
    take (length lits) segs = lits \<and> (length lits < length segs \<or> slash)"
proof
  assume "\<exists>t. path_text (segs, slash) = path_text (lits, False) @ CHR ''/'' # t"
  then obtain t where "path_text (segs, slash) = path_text (lits, False) @ CHR ''/'' # t" ..
  then have e: "segs @ (if slash then [[]] else []) = lits @ split_on (CHR ''/'') t"
    using split_lits[OF assms(3), of t] split_path_text[OF assms(1,2)] by simp
  obtain y ys where "split_on (CHR ''/'') t = y # ys" using split_on_not_Nil by (metis neq_Nil_conv)
  then have "length lits < length segs + (if slash then 1 else 0)"
    using arg_cong[OF e, of length] by (simp split: if_splits)
  then show "take (length lits) segs = lits \<and> (length lits < length segs \<or> slash)"
    using arg_cong[OF e, of "take (length lits)"] by (auto split: if_splits)
next
  assume a: "take (length lits) segs = lits \<and> (length lits < length segs \<or> slash)"
  then obtain ys where s: "segs = lits @ ys" by (metis append_take_drop_id)
  then show "\<exists>t. path_text (segs, slash) = path_text (lits, False) @ CHR ''/'' # t"
    using a by (cases ys) (auto simp: path_text_def)
qed

text \<open>Which pattern of literals a clean path matches, in terms of its text.\<close>

lemma match_exact:
  assumes "\<forall>s \<in> set (fst q). proper s" and "fst q = [] \<longrightarrow> snd q" and "\<forall>s \<in> set lits. proper s" "lits \<noteq> []"
  shows "match_path \<lparr>pt_text = x, pt_method = m, pt_segments = map Lit lits, pt_subtree = False\<rparr> q \<longleftrightarrow>
    path_text q = path_text (lits, False)"
proof -
  have "path_text q = path_text (lits, False) \<longleftrightarrow> q = (lits, False)"
    using clean_path_text[of "fst q" "snd q"] clean_path_text[of lits False] assms
    by (metis prod.collapse)
  then show ?thesis by (cases q) (auto simp: match_path_def match_lits)
qed

lemma match_below:
  assumes "\<forall>s \<in> set (fst q). proper s" and "fst q = [] \<longrightarrow> snd q" and "\<forall>s \<in> set lits. proper s"
  shows "match_path \<lparr>pt_text = x, pt_method = m, pt_segments = map Lit lits, pt_subtree = True\<rparr> q \<longleftrightarrow>
    (\<exists>t. path_text q = path_text (lits, False) @ CHR ''/'' # t)"
proof (cases q)
  case (Pair segs slash)
  have "take (length lits) segs = lits \<Longrightarrow> length lits \<le> length segs" by (metis length_take min.cobounded1)
  then show ?thesis using assms below_prefix[of segs slash lits] Pair
    by (simp add: match_path_def match_lits Let_def) (metis less_or_eq_imp_le)
qed

lemma trim_prefix_append [simp]: "trim_prefix pre (pre @ t) = t"
  by (simp add: trim_prefix_def)

lemma join_bare [simp]: "join_slash [] (CHR ''/'' # t) = CHR ''/'' # t"
  by (simp add: join_slash_def)

text \<open>Which clean paths the routes of the gateway match.\<close>

definition text_matches :: "string \<Rightarrow> bool \<Rightarrow> string \<Rightarrow> bool" where
  "text_matches text subtree p \<longleftrightarrow> (if subtree then (\<exists>t. p = text @ CHR ''/'' # t) else p = text)"

lemma route_text:
  assumes "path_text (clean_path p) = p" and "\<forall>s \<in> set lits. proper s" and "lits \<noteq> []"
    and "text = path_text (lits, False)"
  shows "match_path \<lparr>pt_text = x, pt_method = m, pt_segments = map Lit lits, pt_subtree = subtree\<rparr> (clean_path p) =
    text_matches text subtree p"
proof -
  have q: "\<forall>s \<in> set (fst (clean_path p)). proper s" "fst (clean_path p) = [] \<longrightarrow> snd (clean_path p)"
    using clean_path_proper clean_path_slash by auto
  show ?thesis
    using match_exact[OF q assms(2,3), of x m] match_below[OF q assms(2), of x m] assms(1,4)
    by (cases subtree) (simp_all add: text_matches_def)
qed

lemma proper_names:
  "proper ''healthz''" "proper ''readyz''" "proper ''api''" "proper ''v1''" "proper ''catalog''" "proper ''carts''"
  "proper ''orders''" "proper ''deliveries''" "proper ''operations''" "proper ''analytics''"
  by (simp_all add: proper_def)

lemma gateway_matches:
  assumes "path_text (clean_path p) = p"
  shows "match_path (pattern_of (Some ''GET'') ''/healthz'') (clean_path p) = text_matches ''/healthz'' False p"
    "match_path (pattern_of (Some ''GET'') ''/readyz'') (clean_path p) = text_matches ''/readyz'' False p"
    "match_path (pattern_of (Some ''GET'') ''/api/v1'') (clean_path p) = text_matches ''/api/v1'' False p"
    "match_path (pattern_of None ''/api/v1/catalog/'') (clean_path p) = text_matches ''/api/v1/catalog'' True p"
    "match_path (pattern_of None ''/api/v1/carts/'') (clean_path p) = text_matches ''/api/v1/carts'' True p"
    "match_path (pattern_of None ''/api/v1/orders'') (clean_path p) = text_matches ''/api/v1/orders'' False p"
    "match_path (pattern_of None ''/api/v1/orders/'') (clean_path p) = text_matches ''/api/v1/orders'' True p"
    "match_path (pattern_of None ''/api/v1/deliveries/'') (clean_path p) = text_matches ''/api/v1/deliveries'' True p"
    "match_path (pattern_of None ''/api/v1/operations/'') (clean_path p) = text_matches ''/api/v1/operations'' True p"
    "match_path (pattern_of None ''/api/v1/analytics/'') (clean_path p) = text_matches ''/api/v1/analytics'' True p"
  by (simp only: pattern_simps, rule route_text[OF assms]; simp add: proper_names path_text_def)+

text \<open>The rest of a path below a public prefix; a path without a rest is one of orders only.\<close>

definition goes_below :: "string \<Rightarrow> string \<Rightarrow> bool" where
  "goes_below pub rest \<longleftrightarrow> (if rest = [] then pub = ''/api/v1/orders'' else hd rest = CHR ''/'')"

lemma find_clean:
  "match_request table m (clean_path p) = Some (t, h) \<Longrightarrow> path_text (clean_path p) = p \<Longrightarrow> m \<noteq> ''CONNECT'' \<Longrightarrow>
     find_handler table m p = Found h (bindings t (clean_path p))"
  by (simp add: find_handler_def mux_path_def Let_def)

lemma method_of_pattern [simp]: "match_method (pattern_of m p) x \<longleftrightarrow> (case m of None \<Rightarrow> True | Some y \<Rightarrow> y = x \<or> y = ''GET'' \<and> x = ''HEAD'')"
  by (simp add: match_method_def pattern_of_def)

lemma found_proxy:
  assumes c: "path_text (clean_path p) = p" and pub: "(pub, inner, target) \<in> set (public_prefixes opts)"
    and p: "p = pub @ rest" and rest: "goes_below pub rest" and m: "m \<noteq> ''CONNECT''"
  shows "\<exists>b. find_handler (gateway_routes opts) m p = Found (Proxy target pub inner) b"
proof -
  note f = match_request_def gateway_routes_def find.simps prod.case gateway_matches[OF c] text_matches_def
  have "\<exists>u. match_request (gateway_routes opts) m (clean_path p) = Some (u, Proxy target pub inner)"
  proof (cases rest)
    case Nil
    then have "pub = ''/api/v1/orders''" using rest by (simp add: goes_below_def)
    then show ?thesis unfolding f using pub p Nil by (simp add: public_prefixes_def)
  next
    case (Cons x t)
    then have "rest = CHR ''/'' # t" using rest by (simp add: goes_below_def)
    then show ?thesis unfolding f using pub p
      by (simp only: public_prefixes_def list.set insert_iff empty_iff prod.inject) (elim disjE conjE; simp)
  qed
  then obtain u where "match_request (gateway_routes opts) m (clean_path p) = Some (u, Proxy target pub inner)" ..
  from find_clean[OF this c m] show ?thesis by (rule exI)
qed

lemma proxy_route:
  "(t, Proxy target pub inner) \<in> set (gateway_routes opts) \<Longrightarrow>
     (pub, inner, target) \<in> set (public_prefixes opts) \<and>
     (t = pattern_of None (pub @ ''/'') \<or> pub = ''/api/v1/orders'' \<and> t = pattern_of None pub)"
  by (auto simp: gateway_routes_def public_prefixes_def)

lemma subtree_matches:
  "path_text (clean_path p) = p \<Longrightarrow> (pub, inner, target) \<in> set (public_prefixes opts) \<Longrightarrow>
     match_path (pattern_of None (pub @ ''/'')) (clean_path p) = text_matches pub True p"
  unfolding public_prefixes_def list.set insert_iff empty_iff prod.inject
  by (elim disjE conjE; simp add: gateway_matches)

lemma proxy_found:
  assumes "find_handler (gateway_routes opts) m p = Found (Proxy target pub inner) b" and "m \<noteq> ''CONNECT''"
  shows "path_text (clean_path p) = p \<and> (pub, inner, target) \<in> set (public_prefixes opts) \<and>
    (\<exists>rest. p = pub @ rest \<and> goes_below pub rest)"
proof -
  obtain t where t: "match_request (gateway_routes opts) m (clean_path p) = Some (t, Proxy target pub inner)"
    and c: "path_text (clean_path p) = p"
    using assms by (auto simp: find_handler_def mux_path_def Let_def split: option.splits if_splits prod.splits)
  from t have r: "(t, Proxy target pub inner) \<in> set (gateway_routes opts)" and m: "match_path t (clean_path p)"
    unfolding match_request_def by (auto simp: find_Some_iff dest: nth_mem)
  have pub: "(pub, inner, target) \<in> set (public_prefixes opts)" using proxy_route[OF r] by (rule conjunct1)
  have "text_matches pub True p \<or> pub = ''/api/v1/orders'' \<and> text_matches pub False p"
    using proxy_route[OF r] m subtree_matches[OF c pub] gateway_matches(6)[OF c] by blast
  then have "\<exists>rest. p = pub @ rest \<and> goes_below pub rest"
  proof
    assume "text_matches pub True p"
    then obtain t where "p = pub @ CHR ''/'' # t" by (auto simp only: text_matches_def if_True)
    then show ?thesis by (intro exI[of _ "CHR ''/'' # t"]) (simp add: goes_below_def)
  next
    assume "pub = ''/api/v1/orders'' \<and> text_matches pub False p"
    then show ?thesis by (intro exI[of _ "[]"]) (simp add: text_matches_def goes_below_def)
  qed
  then show ?thesis using c pub by (intro conjI)
qed

text \<open>A clean path below a public prefix, with its service and the rest of the path.\<close>

definition forwards :: "gateway_options \<Rightarrow> string \<Rightarrow> string \<Rightarrow> string \<Rightarrow> upstream \<Rightarrow> string \<Rightarrow> bool" where
  "forwards opts p pub inner u rest \<longleftrightarrow>
     (pub, inner, Some u) \<in> set (public_prefixes opts) \<and> p = pub @ rest \<and> goes_below pub rest \<and>
     path_text (clean_path p) = p"

lemma forwards_found:
  "forwards opts p pub inner u rest \<Longrightarrow> m \<noteq> ''CONNECT'' \<Longrightarrow> \<exists>b. find_handler (gateway_routes opts) m p = Found (Proxy (Some u) pub inner) b"
  using found_proxy unfolding forwards_def by blast

lemma found_forwards:
  "find_handler (gateway_routes opts) m p = Found (Proxy (Some u) pub inner) b \<Longrightarrow> m \<noteq> ''CONNECT'' \<Longrightarrow> \<exists>rest. forwards opts p pub inner u rest"
  using proxy_found unfolding forwards_def by blast

lemma forwards_unique:
  assumes "forwards opts p pub inner u rest" and "forwards opts p pub' inner' u' rest'"
  shows "u' = u \<and> inner' = inner \<and> pub' = pub \<and> rest' = rest"
proof -
  obtain x y where "find_handler (gateway_routes opts) [] p = Found (Proxy (Some u) pub inner) x"
      "find_handler (gateway_routes opts) [] p = Found (Proxy (Some u') pub' inner') y"
    using assms forwards_found[where m = "[]"] by (metis list.distinct(1))
  then have "u' = u \<and> inner' = inner \<and> pub' = pub" by simp
  moreover from this have "pub @ rest' = pub @ rest" using assms unfolding forwards_def by metis
  ultimately show ?thesis by simp
qed

text \<open>What a service is sent: \<open>recording\<close> is a transport that keeps the requests it is given.\<close>

definition recording ::
  "(upstream \<Rightarrow> http_request \<Rightarrow> upstream_answer) \<Rightarrow> upstream \<Rightarrow> http_request \<Rightarrow> (upstream \<times> http_request) list \<Rightarrow>
   upstream_answer \<times> (upstream \<times> http_request) list" where
  "recording ans u q seen = (ans u q, seen @ [(u, q)])"

text \<open>
  What a service is asked for below its own prefix: the rest of the path. A service URL with a path of
  its own goes in front before the public prefix is cut, which then no longer starts the path.
\<close>

definition asked_below :: "upstream \<Rightarrow> string \<Rightarrow> string \<Rightarrow> string" where
  "asked_below u pub rest =
     (if up_path u \<in> {[], ''/''} then rest else trim_prefix pub (join_slash (up_path u) (pub @ rest)))"

lemma trim_longer: "length t < length s \<Longrightarrow> trim_prefix pre s = t \<Longrightarrow> s = pre @ t"
  by (auto simp: trim_prefix_def split: if_splits) (metis append_take_drop_id)

lemma asked_below_rest:
  assumes "forwards opts p pub inner u rest"
  shows "asked_below u pub rest = rest \<longleftrightarrow> up_path u \<in> {[], ''/''}"
proof -
  have pub: "pub \<noteq> []" "hd pub = CHR ''/''" using assms by (auto simp: forwards_def public_prefixes_def)
  have "up_path u \<in> {[], ''/''}" if r: "trim_prefix pub (join_slash (up_path u) (pub @ rest)) = rest"
  proof -
    have "length (pub @ rest) \<le> length (join_slash (up_path u) (pub @ rest))"
      using pub by (auto simp: join_slash_def Let_def neq_Nil_conv)
    moreover have "length pub \<noteq> 0" using pub(1) by simp
    ultimately have "length rest < length (join_slash (up_path u) (pub @ rest))" unfolding length_append by linarith
    then have j: "join_slash (up_path u) (pub @ rest) = pub @ rest" using r by (rule trim_longer)
    show ?thesis
    proof (cases "up_path u \<noteq> [] \<and> last (up_path u) = CHR ''/''")
      case True
      then have "length (up_path u) = 1"
        using arg_cong[OF j, of length] pub by (auto simp: join_slash_def Let_def neq_Nil_conv)
      then show ?thesis using True by (auto simp: length_Suc_conv)
    next
      case False
      then show ?thesis using arg_cong[OF j, of length] pub by (auto simp: join_slash_def Let_def)
    qed
  qed
  then show ?thesis by (auto simp: asked_below_def)
qed

lemma forwarded_once:
  assumes "forwards opts (hr_path r) pub inner u rest" and "hr_method r \<noteq> ''CONNECT''"
  shows "snd (gateway opts (recording ans) results cid r []) =
    [(u, r\<lparr>hr_path := inner @ asked_below u pub rest, hr_correlation := cid\<rparr>)]"
proof -
  obtain b where "find_handler (gateway_routes opts) (hr_method r) (hr_path r) = Found (Proxy (Some u) pub inner) b"
    using forwards_found[OF assms] by blast
  then have sent: "snd (gateway opts (recording ans) results cid r []) = [(u, direct u pub inner cid r)]"
    by (simp add: gateway_def reverseProxy_def recording_def split: upstream_answer.split)
  have "hr_path r = pub @ rest" and "hd pub = CHR ''/''" "pub \<noteq> []"
    using assms by (auto simp: forwards_def public_prefixes_def)
  then have "join_slash (up_path u) (hr_path r) = pub @ rest" if "up_path u \<in> {[], ''/''}"
    using that by (auto simp: join_slash_def Let_def neq_Nil_conv)
  then have "trim_prefix pub (join_slash (up_path u) (hr_path r)) = asked_below u pub rest"
    using \<open>hr_path r = pub @ rest\<close> by (simp add: asked_below_def)
  then show ?thesis using sent by (simp add: direct_def)
qed

lemma not_forwarded:
  assumes "\<nexists>pub inner u rest. forwards opts (hr_path r) pub inner u rest" and "hr_method r \<noteq> ''CONNECT''"
  shows "snd (gateway opts (recording ans) results cid r []) = []"
proof -
  have "find_handler (gateway_routes opts) (hr_method r) (hr_path r) \<noteq> Found (Proxy (Some u) pub inner) b" for u pub inner b
    using assms found_forwards by blast
  then show ?thesis
    by (simp add: gateway_def reverseProxy_def split: routing.split gateway_endpoint.split option.split)
qed

text \<open>
  C16 A request other than CONNECT (the path of which is not cleaned) reaches a service only under one
  of the six public prefixes, by a clean path: a redirect, a refusal or the gateway's own answer comes
  for every other path. Then exactly one service is asked, with the method and the body as they came,
  under the correlation id of the gateway, and with the prefix replaced by the service's own and the
  rest of the path, if the URL of the service has no path, or only a slash. With any other path in the
  URL, and only then, something else is asked for: that path and the public prefix stay in the middle
  of the forwarded one (see the findings).
\<close>

theorem gateway_forwards:
  assumes "hr_method r \<noteq> ''CONNECT''"
  shows "(snd (gateway opts (recording ans) results cid r []) = sent \<longleftrightarrow>
      (\<exists>pub inner u rest. forwards opts (hr_path r) pub inner u rest \<and>
         sent = [(u, r\<lparr>hr_path := inner @ asked_below u pub rest, hr_correlation := cid\<rparr>)]) \<or>
      (\<nexists>pub inner u rest. forwards opts (hr_path r) pub inner u rest) \<and> sent = []) \<and>
    (\<forall>pub inner u rest. forwards opts (hr_path r) pub inner u rest \<longrightarrow>
      (asked_below u pub rest = rest \<longleftrightarrow> up_path u \<in> {[], ''/''}))"
proof (cases "\<exists>pub inner u rest. forwards opts (hr_path r) pub inner u rest")
  case True
  then obtain pub inner u rest where f: "forwards opts (hr_path r) pub inner u rest" by blast
  note once = forwarded_once[OF f assms, of ans results cid]
  have "(\<exists>pub inner u rest. forwards opts (hr_path r) pub inner u rest \<and>
       sent = [(u, r\<lparr>hr_path := inner @ asked_below u pub rest, hr_correlation := cid\<rparr>)]) \<longleftrightarrow>
      sent = [(u, r\<lparr>hr_path := inner @ asked_below u pub rest, hr_correlation := cid\<rparr>)]"
    using f by (auto dest: forwards_unique[OF f])
  then show ?thesis using once asked_below_rest True by auto
next
  case False
  then show ?thesis using not_forwarded[OF False assms, of ans results cid] by auto
qed

text \<open>An order read through the gateway, with every service at its own host.\<close>

definition sample_options :: gateway_options where
  "sample_options =
     (let up = \<lambda>h. Some \<lparr>up_host = h, up_path = []\<rparr> in
      \<lparr>op_catalog = up ''catalog:8080'', op_cart = up ''cart:8080'', op_order = up ''order:8080'',
       op_delivery = up ''delivery:8080'', op_analytics = up ''analytics:8080''\<rparr>)"

definition sample_request :: "string \<Rightarrow> string \<Rightarrow> http_request" where
  "sample_request m p =
     \<lparr>hr_method = m, hr_path = p, hr_correlation = ''c1'', hr_idempotency = [],
      hr_body = \<lparr>bd_size = 0, bd_values = []\<rparr>\<rparr>"

text \<open>The same with the order service below a path of a shared host.\<close>

definition shared_options :: gateway_options where
  "shared_options = sample_options\<lparr>op_order := Some \<lparr>up_host = ''shared:8080'', up_path = ''/shop''\<rparr>\<rparr>"

lemma sample_forwards:
  "forwards sample_options ''/api/v1/orders/7'' ''/api/v1/orders'' ''/internal/v1/orders''
     \<lparr>up_host = ''order:8080'', up_path = []\<rparr> ''/7''"
  "forwards shared_options ''/api/v1/orders/7'' ''/api/v1/orders'' ''/internal/v1/orders''
     \<lparr>up_host = ''shared:8080'', up_path = ''/shop''\<rparr> ''/7''"
  by (simp_all add: forwards_def shared_options_def sample_options_def public_prefixes_def goes_below_def Let_def
      clean_path_def clean_step_def path_text_def)

theorem gateway_forwards_witness:
  "snd (gateway sample_options (recording (\<lambda>u q. NoAnswer)) [] ''c1'' (sample_request ''GET'' ''/api/v1/orders/7'') []) =
    [(\<lparr>up_host = ''order:8080'', up_path = []\<rparr>, sample_request ''GET'' ''/internal/v1/orders/7'')] \<and>
   snd (gateway shared_options (recording (\<lambda>u q. NoAnswer)) [] ''c1'' (sample_request ''GET'' ''/api/v1/orders/7'') []) =
    [(\<lparr>up_host = ''shared:8080'', up_path = ''/shop''\<rparr>,
      sample_request ''GET'' ''/internal/v1/orders/shop/api/v1/orders/7'')]"
proof -
  let ?r = "sample_request ''GET'' ''/api/v1/orders/7''"
  have m: "hr_method ?r \<noteq> ''CONNECT''" and p: "hr_path ?r = ''/api/v1/orders/7''" by (simp_all add: sample_request_def)
  have "snd (gateway sample_options (recording (\<lambda>u q. NoAnswer)) [] ''c1'' ?r []) =
      [(\<lparr>up_host = ''order:8080'', up_path = []\<rparr>,
        ?r\<lparr>hr_path := ''/internal/v1/orders'' @ asked_below \<lparr>up_host = ''order:8080'', up_path = []\<rparr> ''/api/v1/orders'' ''/7'',
           hr_correlation := ''c1''\<rparr>)]"
    by (rule iffD2[OF conjunct1[OF gateway_forwards[OF m]] disjI1]) (use sample_forwards(1) p in \<open>auto intro!: exI\<close>)
  moreover have "snd (gateway shared_options (recording (\<lambda>u q. NoAnswer)) [] ''c1'' ?r []) =
      [(\<lparr>up_host = ''shared:8080'', up_path = ''/shop''\<rparr>,
        ?r\<lparr>hr_path := ''/internal/v1/orders'' @ asked_below \<lparr>up_host = ''shared:8080'', up_path = ''/shop''\<rparr> ''/api/v1/orders'' ''/7'',
           hr_correlation := ''c1''\<rparr>)]"
    by (rule iffD2[OF conjunct1[OF gateway_forwards[OF m]] disjI1]) (use sample_forwards(2) p in \<open>auto intro!: exI\<close>)
  ultimately show ?thesis
    by (simp add: sample_request_def asked_below_def trim_prefix_def join_slash_def)
qed

end
