(* ===== verification/Services.thy ===== *)
theory Services
  imports Gateway Saga DeliveryProps DashboardProps
begin

text \<open>
  The HTTP surface of the services: the routes each handler registers (the \<open>Register\<close> methods of the
  four handler.go files and of the analytics worker, with those of health.go) and how a request is
  dispatched to the handlers. The context of a handler is the correlation id of the request and the
  span of the tracer (\<open>sp\<close>); \<open>results\<close> are the readiness checks of a request to \<open>/readyz\<close>.
\<close>

section \<open>Routes\<close>

datatype 'h endpoint = Health health_endpoint | Own 'h

definition with_health :: "(pattern \<times> 'h) list \<Rightarrow> (pattern \<times> 'h endpoint) list" where
  "with_health own = map (\<lambda>(t, h). (t, Health h)) health_routes @ map (\<lambda>(t, h). (t, Own h)) own"

text \<open>A service's mux: its own handlers get the path values; health and the mux answer by themselves.\<close>

definition serve_mux ::
  "string \<Rightarrow> check_result list \<Rightarrow> (pattern \<times> 'h) list \<Rightarrow> ('h \<Rightarrow> string list \<Rightarrow> 's \<Rightarrow> reply \<times> 's) \<Rightarrow>
   http_request \<Rightarrow> 's \<Rightarrow> served \<times> 's" where
  "serve_mux service results own run r s =
     (case find_handler (with_health own) (hr_method r) (hr_path r) of
        Found (Health h) b \<Rightarrow> (Replied (health_reply service results h), s)
      | Found (Own h) b \<Rightarrow> (case run h b s of (y, s') \<Rightarrow> (Replied y, s'))
      | x \<Rightarrow> (Replied (mux_reply x), s))"

definition request_ctx :: "string \<Rightarrow> (string \<times> string) option \<Rightarrow> ctx" where
  "request_ctx cid sp = \<lparr>ctx_correlation = cid, ctx_span = sp\<rparr>"

subsection \<open>Catalog\<close>

datatype catalog_endpoint = ListProductsRoute | ReserveRoute | ReleaseRoute

definition catalog_routes :: "(pattern \<times> catalog_endpoint) list" where
  "catalog_routes =
     [(pattern_of (Some ''GET'') ''/internal/v1/products'', ListProductsRoute),
      (pattern_of (Some ''POST'') ''/internal/v1/reservations'', ReserveRoute),
      (pattern_of (Some ''POST'') ''/internal/v1/reservations/{reservationID}/release'', ReleaseRoute)]"

definition serve_catalog ::
  "(string \<Rightarrow> string) \<Rightarrow> env \<Rightarrow> (string \<times> string) option \<Rightarrow> check_result list \<Rightarrow> string \<Rightarrow> http_request \<Rightarrow> catalog \<Rightarrow>
   served \<times> catalog" where
  "serve_catalog collate e sp results cid r s =
     (let c = request_ctx cid sp in
      serve_mux ''catalog-service'' results catalog_routes
        (\<lambda>h b s. case h of
           ListProductsRoute \<Rightarrow> listProducts collate e c s
         | ReserveRoute \<Rightarrow> Catalog.reserve e c (hr_body r) s
         | ReleaseRoute \<Rightarrow> Catalog.release e c (path_value b 0) s) r s)"

subsection \<open>Carts\<close>

datatype cart_endpoint = GetCartRoute | SetItemRoute | DeleteItemRoute

definition cart_routes :: "(pattern \<times> cart_endpoint) list" where
  "cart_routes =
     [(pattern_of (Some ''GET'') ''/internal/v1/carts/{userID}'', GetCartRoute),
      (pattern_of (Some ''PUT'') ''/internal/v1/carts/{userID}/items/{productID}'', SetItemRoute),
      (pattern_of (Some ''DELETE'') ''/internal/v1/carts/{userID}/items/{productID}'', DeleteItemRoute)]"

definition serve_carts ::
  "env \<Rightarrow> (string \<times> string) option \<Rightarrow> check_result list \<Rightarrow> string \<Rightarrow> http_request \<Rightarrow> carts \<Rightarrow> served \<times> carts" where
  "serve_carts e sp results cid r s =
     (let c = request_ctx cid sp in
      serve_mux ''cart-service'' results cart_routes
        (\<lambda>h b s. case h of
           GetCartRoute \<Rightarrow> Cart.get e c (path_value b 0) s
         | SetItemRoute \<Rightarrow> setItem e c (path_value b 0) (path_value b 1) (hr_body r) s
         | DeleteItemRoute \<Rightarrow> deleteItem e c (path_value b 0) (path_value b 1) s) r s)"

subsection \<open>Orders\<close>

datatype order_endpoint = CreateOrderRoute | GetOrderRoute | CancelOrderRoute | StreamOrderRoute

definition order_routes :: "(pattern \<times> order_endpoint) list" where
  "order_routes =
     [(pattern_of (Some ''POST'') ''/internal/v1/orders'', CreateOrderRoute),
      (pattern_of (Some ''GET'') ''/internal/v1/orders/{orderID}'', GetOrderRoute),
      (pattern_of (Some ''DELETE'') ''/internal/v1/orders/{orderID}'', CancelOrderRoute),
      (pattern_of (Some ''GET'') ''/internal/v1/orders/{orderID}/stream'', StreamOrderRoute)]"

definition event_stream :: reply where
  "event_stream = plain_reply 200 [(''Content-Type'', ''text/event-stream''), (''Cache-Control'', ''no-cache''),
     (''Connection'', ''keep-alive'')]"

text \<open>
  A stream answers with its events, or with a refusal, whose headers are left out here; \<open>polls\<close> are the
  polls after the first.
\<close>

definition order_stream_reply :: "ctx \<Rightarrow> order list \<times> Orders.stream_end \<Rightarrow> reply" where
  "order_stream_reply c x =
     (case snd x of Orders.Refusal a \<Rightarrow> WriteError (ctx_correlation c) (Some a) | _ \<Rightarrow> event_stream)"

definition serve_orders ::
  "(json \<Rightarrow> byte list) \<Rightarrow> env \<Rightarrow> (string \<times> string) option \<Rightarrow> check_result list \<Rightarrow>
   (ctx \<Rightarrow> 'w cart_reader) \<Rightarrow> (ctx \<Rightarrow> 'w reserver) \<Rightarrow> (ctx \<Rightarrow> 'w releaser) \<Rightarrow> duration \<Rightarrow> (env \<times> orders) list \<Rightarrow>
   string \<Rightarrow> http_request \<Rightarrow> orders \<times> 'w \<Rightarrow> served \<times> orders \<times> 'w" where
  "serve_orders sha256 e sp results reader reserver releaser ttl polls cid r s =
     (let c = request_ctx cid sp in
      serve_mux ''order-service'' results order_routes
        (\<lambda>h b s. case h of
           CreateOrderRoute \<Rightarrow> create sha256 e c (reader c) (reserver c) (releaser c) ttl (hr_idempotency r) (hr_body r) s
         | GetOrderRoute \<Rightarrow> (Orders.get e c (path_value b 0) (fst s), s)
         | CancelOrderRoute \<Rightarrow> Orders.cancel e c (releaser c) (path_value b 0) s
         | StreamOrderRoute \<Rightarrow> (order_stream_reply c (Orders.stream (path_value b 0) ((e, fst s) # polls)), s)) r s)"

subsection \<open>Deliveries\<close>

datatype delivery_endpoint = ByOrderRoute | StreamDeliveryRoute | AssignmentsRoute | CouriersRoute | ActionRoute

definition delivery_routes :: "(pattern \<times> delivery_endpoint) list" where
  "delivery_routes =
     [(pattern_of (Some ''GET'') ''/internal/v1/deliveries/order/{orderID}'', ByOrderRoute),
      (pattern_of (Some ''GET'') ''/internal/v1/deliveries/order/{orderID}/stream'', StreamDeliveryRoute),
      (pattern_of (Some ''GET'') ''/internal/v1/simulator/assignments'', AssignmentsRoute),
      (pattern_of (Some ''GET'') ''/internal/v1/operations/couriers'', CouriersRoute),
      (pattern_of (Some ''POST'') ''/internal/v1/operations/deliveries/{deliveryID}/actions'', ActionRoute)]"

definition delivery_stream_reply :: "ctx \<Rightarrow> stream_item list \<times> DeliveryHttp.stream_end \<Rightarrow> reply" where
  "delivery_stream_reply c x =
     (case snd x of DeliveryHttp.Refusal a \<Rightarrow> WriteError (ctx_correlation c) (Some a) | _ \<Rightarrow> event_stream)"

definition serve_deliveries ::
  "(string \<Rightarrow> string) \<Rightarrow> env \<Rightarrow> (string \<times> string) option \<Rightarrow> check_result list \<Rightarrow> (env \<times> deliveries) list \<Rightarrow> string \<Rightarrow> http_request \<Rightarrow>
   deliveries \<Rightarrow> served \<times> deliveries" where
  "serve_deliveries collate e sp results polls cid r s =
     (let c = request_ctx cid sp in
      serve_mux ''delivery-service'' results delivery_routes
        (\<lambda>h b s. case h of
           ByOrderRoute \<Rightarrow> (getByOrder e c (path_value b 0) s, s)
         | StreamDeliveryRoute \<Rightarrow> (delivery_stream_reply c (streamByOrder (path_value b 0) ((e, s) # polls)), s)
         | AssignmentsRoute \<Rightarrow> (assignments e c s, s)
         | CouriersRoute \<Rightarrow> (DeliveryHttp.couriers collate e c s, s)
         | ActionRoute \<Rightarrow> action e c (path_value b 0) (hr_body r) s) r s)"

subsection \<open>Analytics\<close>

datatype analytics_endpoint =
    SummaryRoute | OrdersByHourRoute | EtaRoute | OnTimeRoute | CancellationsRoute | PopularRoute | DurationsRoute

definition analytics_routes :: "(pattern \<times> analytics_endpoint) list" where
  "analytics_routes =
     [(pattern_of (Some ''GET'') ''/internal/v1/analytics/summary'', SummaryRoute),
      (pattern_of (Some ''GET'') ''/internal/v1/analytics/orders-by-hour'', OrdersByHourRoute),
      (pattern_of (Some ''GET'') ''/internal/v1/analytics/eta'', EtaRoute),
      (pattern_of (Some ''GET'') ''/internal/v1/analytics/on-time'', OnTimeRoute),
      (pattern_of (Some ''GET'') ''/internal/v1/analytics/cancellations'', CancellationsRoute),
      (pattern_of (Some ''GET'') ''/internal/v1/analytics/popular-products'', PopularRoute),
      (pattern_of (Some ''GET'') ''/internal/v1/analytics/status-durations'', DurationsRoute)]"

definition serve_analytics ::
  "clickhouse \<Rightarrow> env \<Rightarrow> (string \<times> string) option \<Rightarrow> check_result list \<Rightarrow> string \<Rightarrow> http_request \<Rightarrow> warehouse \<Rightarrow> served \<times> warehouse" where
  "serve_analytics db e sp results cid r s =
     (let c = request_ctx cid sp in
      serve_mux ''analytics-worker'' results analytics_routes
        (\<lambda>h b s. (case h of
           SummaryRoute \<Rightarrow> summary db e c s
         | OrdersByHourRoute \<Rightarrow> ordersByHour db e c s
         | EtaRoute \<Rightarrow> eta_averages db e c s
         | OnTimeRoute \<Rightarrow> onTime db e c s
         | CancellationsRoute \<Rightarrow> cancellations db e c s
         | PopularRoute \<Rightarrow> popularProducts db e c s
         | DurationsRoute \<Rightarrow> statusDurations db e c s, s)) r s)"

section \<open>What every service keeps\<close>

text \<open>
  The interface between a service and the server around it: a relation between the states before
  and after a request that every handler respects. Whatever the middleware adds, a request through
  \<open>Wrap\<close> respects it too.
\<close>

locale http_service =
  fixes serve :: "string \<Rightarrow> http_request \<Rightarrow> 's \<Rightarrow> served \<times> 's" and keeps :: "'s \<Rightarrow> 's \<Rightarrow> bool"
  assumes serves: "keeps s (snd (serve cid r s))"
    and still: "keeps s s"
begin

lemma wrapped: "keeps (snd ms) (snd (snd (Wrap name e tm d route serve r ms)))"
proof (cases "hr_path r = ''/metrics''")
  case True
  then show ?thesis using still by (simp add: Wrap_def Let_def)
next
  case False
  then show ?thesis using serves by (simp add: Wrap_eq Let_def)
qed

end

lemma serve_mux_keeps:
  assumes "\<And>h b. P s (snd (run h b s))" and "P s s"
  shows "P s (snd (serve_mux name results own run r s))"
  using assms by (simp add: serve_mux_def split: routing.split endpoint.split prod.split) (metis snd_conv)

text \<open>Each service moves by the operations whose histories its own theory studies.\<close>

definition catalog_moves :: "(string \<Rightarrow> string) \<Rightarrow> catalog \<Rightarrow> catalog \<Rightarrow> bool" where
  "catalog_moves collate s s' \<longleftrightarrow> (\<exists>ops. s' = catalog_run collate ops s)"

definition cart_moves :: "carts \<Rightarrow> carts \<Rightarrow> bool" where
  "cart_moves s s' \<longleftrightarrow> (\<exists>ops. s' = cart_run ops s)"

definition delivery_moves :: "deliveries \<Rightarrow> deliveries \<Rightarrow> bool" where
  "delivery_moves s s' \<longleftrightarrow> (\<exists>ops. s' = delivery_run ops s)"

lemma catalog_moves_refl [simp]: "catalog_moves collate s s"
  unfolding catalog_moves_def by (rule exI[of _ "[]"]) (simp add: catalog_run_def)

lemma catalog_moves_step: "catalog_moves collate s (catalog_step collate op s)"
  unfolding catalog_moves_def by (rule exI[of _ "[op]"]) (simp add: catalog_run_def)

lemma catalog_moves_trans: "catalog_moves collate s t \<Longrightarrow> catalog_moves collate t u \<Longrightarrow> catalog_moves collate s u"
  unfolding catalog_moves_def catalog_run_def by (metis fold_append comp_apply)

lemma cart_moves_refl [simp]: "cart_moves s s"
  unfolding cart_moves_def by (rule exI[of _ "[]"]) (simp add: cart_run_def)

lemma cart_moves_step: "cart_moves s (cart_op_step op s)"
  unfolding cart_moves_def by (rule exI[of _ "[op]"]) (simp add: cart_run_def)

lemma cart_moves_trans: "cart_moves s t \<Longrightarrow> cart_moves t u \<Longrightarrow> cart_moves s u"
  unfolding cart_moves_def cart_run_def by (metis fold_append comp_apply)

lemma delivery_moves_refl [simp]: "delivery_moves s s"
  unfolding delivery_moves_def by (rule exI[of _ "[]"]) (simp add: delivery_run_def)

lemma delivery_moves_step: "delivery_moves s (delivery_op_step op s)"
  unfolding delivery_moves_def by (rule exI[of _ "[op]"]) (simp add: delivery_run_def)

lemma catalog_handlers:
  "catalog_moves collate s (snd (listProducts collate e c s))"
  "catalog_moves collate s (snd (Catalog.reserve e c body s))"
  "catalog_moves collate s (snd (Catalog.release e c i s))"
  using catalog_moves_step[of collate s "ListOp e c"] catalog_moves_step[of collate s "ReserveOp e c body"]
    catalog_moves_step[of collate s "ReleaseOp e c i"] by simp_all

lemma cart_handlers:
  "cart_moves s (snd (Cart.get e c u s))" "cart_moves s (snd (setItem e c u p body s))"
  "cart_moves s (snd (deleteItem e c u p s))"
  using cart_moves_step[of s "GetOp e c u"] cart_moves_step[of s "SetOp e c u p body"]
    cart_moves_step[of s "DeleteOp e c u p"] by simp_all

text \<open>A request neither dispatches a courier nor cancels a delivery.\<close>

definition delivery_requests :: "deliveries \<Rightarrow> deliveries \<Rightarrow> bool" where
  "delivery_requests s s' \<longleftrightarrow> delivery_moves s s' \<and> (fleet_ok s \<longrightarrow> dsteps_if (\<lambda>_. False) (\<lambda>_. False) s s')"

lemma delivery_requests_refl [simp]: "delivery_requests s s"
  by (simp add: delivery_requests_def)

lemma delivery_handlers: "delivery_requests s (snd (action e c i body s))"
  using delivery_moves_step[of s "ActionOp e c i body"] action_guarded by (simp add: delivery_requests_def)

interpretation catalog_service: http_service "serve_catalog collate e sp results" "catalog_moves collate"
  for collate e sp results
proof
  fix s cid r
  show "catalog_moves collate s (snd (serve_catalog collate e sp results cid r s))"
    unfolding serve_catalog_def Let_def
    by (rule serve_mux_keeps) (auto simp: catalog_handlers split: catalog_endpoint.split)
qed simp

interpretation cart_service: http_service "serve_carts e sp results" cart_moves for e sp results
proof
  fix s cid r
  show "cart_moves s (snd (serve_carts e sp results cid r s))"
    unfolding serve_carts_def Let_def
    by (rule serve_mux_keeps) (auto simp: cart_handlers split: cart_endpoint.split)
qed simp

interpretation delivery_service: http_service "serve_deliveries collate e sp results polls" delivery_requests
  for collate e sp results polls
proof
  fix s cid r
  show "delivery_requests s (snd (serve_deliveries collate e sp results polls cid r s))"
    unfolding serve_deliveries_def Let_def
    by (rule serve_mux_keeps) (auto simp: delivery_handlers split: delivery_endpoint.split)
qed simp

interpretation analytics_service: http_service "serve_analytics db e sp results" "\<lambda>s s'. s' = s" for db e sp results
proof
  fix s cid r
  show "snd (serve_analytics db e sp results cid r s) = s"
    unfolding serve_analytics_def Let_def by (rule serve_mux_keeps) simp_all
qed simp

subsection \<open>The order service and the services it calls\<close>

definition world_moves :: "(string \<Rightarrow> string) \<Rightarrow> world \<Rightarrow> world \<Rightarrow> bool" where
  "world_moves collate w w' \<longleftrightarrow> cart_moves (fst w) (fst w') \<and> catalog_moves collate (snd w) (snd w')"

lemma world_moves_refl [simp]: "world_moves collate w w"
  by (simp add: world_moves_def)

lemma world_moves_trans: "world_moves collate w v \<Longrightarrow> world_moves collate v u \<Longrightarrow> world_moves collate w u"
  unfolding world_moves_def using cart_moves_trans catalog_moves_trans by metis

lemma exchange_state: "snd (exchange ec h s) = s \<or> snd (exchange ec h s) = snd (h s)"
  by (simp add: exchange_def split: prod.split)

lemma clients_move:
  "world_moves collate w (snd (CartClient_Get ec es c u w))"
  "world_moves collate w (snd (CatalogClient_Reserve len ec es c q w))"
  "world_moves collate w (snd (CatalogClient_Release ec es c i w))"
  using exchange_state[of ec "Cart.get es c u" "fst w"]
    exchange_state[of ec "Catalog.release es c i" "snd w"]
    exchange_state[of ec "Catalog.reserve es c \<lparr>bd_size = len (json_stock_request q),
        bd_values = [(Some (json_stock_request q), len (json_stock_request q))]\<rparr>" "snd w"]
  by (auto simp: world_moves_def CartClient_Get_def CatalogClient_Reserve_def CatalogClient_Release_def Let_def
      cart_handlers catalog_handlers split: prod.split option.split)

text \<open>Every call of a checkout or a cancellation moves the world, if it moves it at all, by a client.\<close>

lemma checkout_world:
  assumes "\<And>u w. R w (snd (reader u w))" "\<And>q w. R w (snd (reserver q w))" "\<And>i w. R w (snd (releaser i w))"
    and tr: "\<And>x y z. R x y \<Longrightarrow> R y z \<Longrightarrow> R x z"
  shows "R w (snd (snd (checkout e c reader reserver releaser ttl key request attempt lat lon (s, w))))"
proof -
  obtain x w1 where 1: "reader (cq_user request) w = (x, w1)" by fastforce
  then have r1: "R w w1" using assms(1) by (metis snd_conv)
  show ?thesis
  proof (cases x)
    case (Inl err)
    then show ?thesis using 1 r1 by (simp add: checkout_def)
  next
    case (Inr cart)
    let ?q = "\<lparr>sq_attempt = attempt, sq_items = ca_items cart, sq_ttl = whole_seconds ttl\<rparr>"
    obtain y w2 where 2: "reserver ?q w1 = (y, w2)" by fastforce
    then have r2: "R w w2" using r1 assms(2) tr by (metis snd_conv)
    have r3: "R w (snd (releaser i w2))" for i using r2 assms(3) tr by blast
    show ?thesis using 1 2 r1 r2 r3 Inr
      by (simp add: checkout_def split: sum.split upstream_error.split prod.split)
  qed
qed

lemma create_world:
  assumes "\<And>u w. R w (snd (reader u w))" "\<And>q w. R w (snd (reserver q w))" "\<And>i w. R w (snd (releaser i w))"
    and "\<And>x y z. R x y \<Longrightarrow> R y z \<Longrightarrow> R x z" and "R w w"
  shows "R w (snd (snd (create sha e c reader reserver releaser ttl header body (s, w))))"
proof -
  note co = checkout_world[of R reader reserver releaser, OF assms(1-4)]
  have "R w (snd (snd (Create sha e c reader reserver releaser ttl key request (s, w))))" for key request
    using assms(5) co by (simp add: Create_def split: prod.split sum.split option.split)
  then show ?thesis
    using assms(5) by (simp add: create_def Let_def split: prod.split sum.split) (metis snd_conv)
qed

lemma cancel_world:
  assumes "\<And>i w. R w (snd (releaser i w))" and "R w w"
  shows "R w (snd (snd (Orders.cancel e c releaser orderID (s, w))))"
proof -
  have r: "releaser i w = (x, w') \<Longrightarrow> R w w'" for i x w' using assms(1) by (metis snd_conv)
  have "R w (snd (snd (Cancel e c releaser orderID (s, w))))"
    using assms(2) r by (simp add: Cancel_def split: prod.split sum.split)
  then show ?thesis
    using assms(2) by (simp add: Orders.cancel_def split: prod.split sum.split) (metis snd_conv)
qed

text \<open>A request places orders and cancels them; no other status comes from one.\<close>

abbreviation "order_requests \<equiv> osteps_if (\<lambda>_ st. st = ''cancelled'')"

lemma create_orders: "order_requests s (fst (snd (create sha e c reader reserver releaser ttl header body (s, w))))"
proof -
  have "order_requests s (fst (snd (Create sha e c reader reserver releaser ttl key request (s, w))))" for key request
    using Create_guarded[of sha e c reader reserver releaser ttl key request s w] by (metis prod.collapse)
  then show ?thesis by (simp add: create_def Let_def split: prod.split sum.split) (metis fst_conv snd_conv)
qed

lemma cancel_orders: "order_requests s (fst (snd (Orders.cancel e c releaser orderID (s, w))))"
proof -
  have "order_requests s (fst (snd (Cancel e c releaser orderID (s, w))))"
    using Cancel_guarded[of e c releaser orderID s w] by (metis prod.collapse)
  then show ?thesis by (simp add: Orders.cancel_def split: prod.split sum.split) (metis fst_conv snd_conv)
qed

definition order_moves :: "(string \<Rightarrow> string) \<Rightarrow> orders \<times> world \<Rightarrow> orders \<times> world \<Rightarrow> bool" where
  "order_moves collate sw sw' \<longleftrightarrow> order_requests (fst sw) (fst sw') \<and> world_moves collate (snd sw) (snd sw')"

lemma order_moves_refl [simp]: "order_moves collate sw sw"
  by (simp add: order_moves_def)

interpretation order_service: http_service
    "serve_orders sha e sp results (CartClient_Get ec es) (CatalogClient_Reserve len ec es) (CatalogClient_Release ec es) ttl polls"
    "order_moves collate"
  for sha e sp results ec es len ttl polls collate
proof
  fix sw :: "orders \<times> world" and cid r
  obtain s w where sw: "sw = (s, w)" by (cases sw)
  let ?serve = "serve_orders sha e sp results (CartClient_Get ec es) (CatalogClient_Reserve len ec es)
      (CatalogClient_Release ec es) ttl polls"
  have cr: "order_moves collate (s, w) (snd (create sha e c (CartClient_Get ec es c) (CatalogClient_Reserve len ec es c)
      (CatalogClient_Release ec es c) ttl header body (s, w)))" for c header body
    unfolding order_moves_def fst_conv snd_conv
    by (rule conjI[OF create_orders create_world[where R = "world_moves collate"]])
      (rule clients_move world_moves_refl | erule (1) world_moves_trans)+
  have ca: "order_moves collate (s, w) (snd (Orders.cancel e c (CatalogClient_Release ec es c) i (s, w)))" for c i
    unfolding order_moves_def fst_conv snd_conv
    by (rule conjI[OF cancel_orders cancel_world[where R = "world_moves collate"]])
      (rule clients_move world_moves_refl)+
  show "order_moves collate sw (snd (?serve cid r sw))"
    unfolding serve_orders_def Let_def sw
    by (rule serve_mux_keeps) (simp_all add: cr ca split: order_endpoint.split)
qed simp

end
