(* ===== verification/Platform.thy ===== *)
theory Platform
  imports Services Notification
begin

text \<open>
  The system as its clients see it: the gateway in front of the five services, each with its
  middleware (\<open>Wrap\<close>), its mux and its handlers, the order service with its clients of the cart and
  catalog services, and the consumers of the event topics beside them. What the services share is
  only what the model shows: the requests they send each other and the events they are given.
\<close>

section \<open>State and surroundings\<close>

datatype service_name = CatalogService | CartService | OrderService | DeliveryService | AnalyticsService

record platform =
  pf_catalog :: catalog
  pf_carts :: carts
  pf_orders :: orders
  pf_deliveries :: deliveries
  pf_warehouse :: warehouse
  pf_metrics :: "string \<Rightarrow> metrics"

text \<open>
  What surrounds a public request: the environments of the gateway, of the service that answers,
  and of both ends of the order service's own calls; the time as text and the time a handler takes;
  the tracer's span; the results of readiness checks; what a stream polls after its first read; and
  the order in which ClickHouse reads.
\<close>

record surroundings =
  su_gateway :: env
  su_service :: env
  su_client :: env
  su_peer :: env
  su_time :: string
  su_took :: duration
  su_tracer :: "(string \<times> string) option"
  su_checks :: "check_result list"
  su_order_polls :: "(env \<times> orders) list"
  su_delivery_polls :: "(env \<times> deliveries) list"
  su_clickhouse :: clickhouse

text \<open>
  What is the same for every request: the collation of the database, the hash of the order service,
  the length of an encoded body, the gateway's upstreams and which service runs at which host.
\<close>

record deployment =
  dp_collate :: "string \<Rightarrow> string"
  dp_sha :: "json \<Rightarrow> byte list"
  dp_length :: "json \<Rightarrow> int"
  dp_options :: gateway_options
  dp_host :: "string \<Rightarrow> service_name option"

section \<open>One service behind its middleware\<close>

text \<open>\<open>behind_wrap\<close> runs a service's handler under \<open>Wrap\<close>, with the metrics of its process.\<close>

definition behind_wrap ::
  "string \<Rightarrow> surroundings \<Rightarrow> (http_request \<Rightarrow> string) \<Rightarrow> (string \<Rightarrow> http_request \<Rightarrow> 's \<Rightarrow> served \<times> 's) \<Rightarrow>
   http_request \<Rightarrow> (string \<Rightarrow> metrics) \<Rightarrow> 's \<Rightarrow> reply \<times> (string \<Rightarrow> metrics) \<times> 's" where
  "behind_wrap name su route serve r ms s =
     (case Wrap name (su_service su) (su_time su) (su_took su) route serve r (ms name, s) of
        (y, m, s') \<Rightarrow> (y, ms(name := m), s'))"

definition checkout_ttl :: duration where "checkout_ttl = 10 * 60 * second"

definition call_service ::
  "deployment \<Rightarrow> surroundings \<Rightarrow> service_name \<Rightarrow> http_request \<Rightarrow> platform \<Rightarrow> reply \<times> platform" where
  "call_service d su name r p =
     (let e = su_service su; sp = su_tracer su; checks = su_checks su in
      case name of
        CatalogService \<Rightarrow>
          (case behind_wrap ''catalog-service'' su (route_of (with_health catalog_routes))
                  (serve_catalog (dp_collate d) e sp checks) r (pf_metrics p) (pf_catalog p) of
             (y, ms, s) \<Rightarrow> (y, p\<lparr>pf_metrics := ms, pf_catalog := s\<rparr>))
      | CartService \<Rightarrow>
          (case behind_wrap ''cart-service'' su (route_of (with_health cart_routes))
                  (serve_carts e sp checks) r (pf_metrics p) (pf_carts p) of
             (y, ms, s) \<Rightarrow> (y, p\<lparr>pf_metrics := ms, pf_carts := s\<rparr>))
      | OrderService \<Rightarrow>
          (case behind_wrap ''order-service'' su (route_of (with_health order_routes))
                  (serve_orders (dp_sha d) e sp checks (CartClient_Get (su_client su) (su_peer su))
                     (CatalogClient_Reserve (dp_length d) (su_client su) (su_peer su))
                     (CatalogClient_Release (su_client su) (su_peer su)) checkout_ttl (su_order_polls su))
                  r (pf_metrics p) (pf_orders p, pf_carts p, pf_catalog p) of
             (y, ms, s, crt, cat) \<Rightarrow>
               (y, p\<lparr>pf_metrics := ms, pf_orders := s, pf_carts := crt, pf_catalog := cat\<rparr>))
      | DeliveryService \<Rightarrow>
          (case behind_wrap ''delivery-service'' su (route_of (with_health delivery_routes))
                  (serve_deliveries (dp_collate d) e sp checks (su_delivery_polls su)) r (pf_metrics p) (pf_deliveries p) of
             (y, ms, s) \<Rightarrow> (y, p\<lparr>pf_metrics := ms, pf_deliveries := s\<rparr>))
      | AnalyticsService \<Rightarrow>
          (case behind_wrap ''analytics-worker'' su (route_of (with_health analytics_routes))
                  (serve_analytics (su_clickhouse su) e sp checks) r (pf_metrics p) (pf_warehouse p) of
             (y, ms, s) \<Rightarrow> (y, p\<lparr>pf_metrics := ms, pf_warehouse := s\<rparr>)))"

section \<open>The gateway in front\<close>

text \<open>The transport of the proxy: no connection, no answer, or an answer that may break off.\<close>

definition proxy_send ::
  "deployment \<Rightarrow> surroundings \<Rightarrow> upstream \<Rightarrow> http_request \<Rightarrow> platform \<Rightarrow> upstream_answer \<times> platform" where
  "proxy_send d su u r p =
     (if fails (su_gateway su) ''dial upstream'' then (NoAnswer, p)
      else case dp_host d (up_host u) of
        None \<Rightarrow> (NoAnswer, p)
      | Some name \<Rightarrow>
          (case call_service d su name r p of
             (y, p') \<Rightarrow>
               (if fails (su_gateway su) ''read upstream'' then NoAnswer
                else if fails (su_gateway su) ''copy body'' then BrokenAnswer y else Answer y, p')))"

definition public_request ::
  "deployment \<Rightarrow> surroundings \<Rightarrow> http_request \<Rightarrow> platform \<Rightarrow> reply \<times> platform" where
  "public_request d su r p =
     (case Wrap ''api-gateway'' (su_gateway su) (su_time su) (su_took su)
             (route_of (gateway_routes (dp_options d)))
             (gateway (dp_options d) (proxy_send d su) (su_checks su)) r (pf_metrics p ''api-gateway'', p) of
        (y, m, p') \<Rightarrow> (y, p'\<lparr>pf_metrics := (pf_metrics p')(''api-gateway'' := m)\<rparr>))"

section \<open>Histories\<close>

datatype platform_op =
    PublicRequest surroundings http_request
  | OrderConsumer "(string \<times> string) option" env "json option"
  | DeliveryConsumer dispatcher env "json option"
  | ForecastSave env prediction_job eta_features eta_prediction
  | AnalyticsConsumer uuid_parse env "json option"
  | CatalogCacheExpires
  | CartCacheExpires string

fun platform_step :: "deployment \<Rightarrow> platform_op \<Rightarrow> platform \<Rightarrow> platform" where
  "platform_step d (PublicRequest su r) p = snd (public_request d su r p)"
| "platform_step d (OrderConsumer tracer e v) p =
     p\<lparr>pf_orders := snd (Orders.handle_event tracer e v (pf_orders p))\<rparr>"
| "platform_step d (DeliveryConsumer con e v) p =
     p\<lparr>pf_deliveries := snd (Delivery.handle_event con e v (pf_deliveries p))\<rparr>"
| "platform_step d (ForecastSave e j f x) p = p\<lparr>pf_deliveries := snd (save e j f x (pf_deliveries p))\<rparr>"
| "platform_step d (AnalyticsConsumer up e v) p =
     p\<lparr>pf_warehouse := snd (handle_record up e v (pf_warehouse p))\<rparr>"
| "platform_step d CatalogCacheExpires p = p\<lparr>pf_catalog := (pf_catalog p)\<lparr>ct_cache := None\<rparr>\<rparr>"
| "platform_step d (CartCacheExpires key) p =
     p\<lparr>pf_carts := (pf_carts p)\<lparr>cs_cache := (cs_cache (pf_carts p))(key := None)\<rparr>\<rparr>"

definition platform_run :: "deployment \<Rightarrow> platform_op list \<Rightarrow> platform \<Rightarrow> platform" where
  "platform_run d = fold (platform_step d)"

section \<open>Lemmas\<close>

text \<open>What every step of the platform is, seen from each service.\<close>

definition platform_moves :: "(string \<Rightarrow> string) \<Rightarrow> platform \<Rightarrow> platform \<Rightarrow> bool" where
  "platform_moves collate p p' \<longleftrightarrow>
     catalog_moves collate (pf_catalog p) (pf_catalog p') \<and> cart_moves (pf_carts p) (pf_carts p') \<and>
     osteps (pf_orders p) (pf_orders p') \<and> delivery_moves (pf_deliveries p) (pf_deliveries p')"

text \<open>What clients can bring about through the services.\<close>

definition client_moves :: "(string \<Rightarrow> string) \<Rightarrow> platform \<Rightarrow> platform \<Rightarrow> bool" where
  "client_moves collate p p' \<longleftrightarrow>
     catalog_moves collate (pf_catalog p) (pf_catalog p') \<and> cart_moves (pf_carts p) (pf_carts p') \<and>
     order_requests (pf_orders p) (pf_orders p') \<and> delivery_requests (pf_deliveries p) (pf_deliveries p')"

lemma client_moves_refl [simp]: "client_moves collate p p"
  by (simp add: client_moves_def)

lemma client_moves_platform: "client_moves collate p p' \<Longrightarrow> platform_moves collate p p'"
  using osteps_if_mono[of "\<lambda>_ st. st = ''cancelled''" "pf_orders p" "pf_orders p'" "\<lambda>_ _. True"]
  by (simp add: client_moves_def platform_moves_def delivery_requests_def)

lemma platform_moves_refl [simp]: "platform_moves collate p p"
  by (simp add: platform_moves_def)

lemma delivery_moves_trans: "delivery_moves s t \<Longrightarrow> delivery_moves t u \<Longrightarrow> delivery_moves s u"
  unfolding delivery_moves_def delivery_run_def by (metis fold_append comp_apply)

lemma platform_moves_trans:
  "platform_moves collate p q \<Longrightarrow> platform_moves collate q r \<Longrightarrow> platform_moves collate p r"
  unfolding platform_moves_def
  by (blast intro: catalog_moves_trans cart_moves_trans delivery_moves_trans rtranclp_trans)

context http_service begin

lemma wrapped_moves:
  assumes "behind_wrap name su route serve r ms s = (y, ms', s')"
  shows "keeps s s'"
  using wrapped[of "(ms name, s)"] assms by (auto simp: behind_wrap_def split: prod.splits) (metis snd_conv)

end

lemma call_service_moves:
  assumes "call_service d su name r p = (y, p')"
  shows "client_moves (dp_collate d) p p'"
proof (cases name)
  case CatalogService
  then show ?thesis using assms catalog_service.wrapped_moves
    by (fastforce simp: call_service_def client_moves_def Let_def split: prod.splits)
next
  case CartService
  then show ?thesis using assms cart_service.wrapped_moves
    by (fastforce simp: call_service_def client_moves_def Let_def split: prod.splits)
next
  case OrderService
  then show ?thesis using assms order_service.wrapped_moves[where collate = "dp_collate d"]
    by (fastforce simp: call_service_def client_moves_def order_moves_def world_moves_def Let_def split: prod.splits)
next
  case DeliveryService
  then show ?thesis using assms delivery_service.wrapped_moves
    by (fastforce simp: call_service_def client_moves_def Let_def split: prod.splits)
next
  case AnalyticsService
  then show ?thesis using assms by (auto simp: call_service_def client_moves_def Let_def split: prod.splits)
qed

lemma proxy_send_moves: "client_moves (dp_collate d) p (snd (proxy_send d su u r p))"
  using call_service_moves by (auto simp: proxy_send_def split: option.split prod.split)

text \<open>The gateway is itself a service in the sense of the interface, over the whole platform.\<close>

lemma reverseProxy_state:
  "snd (reverseProxy send target pub inner cid r s) = s \<or>
   (\<exists>u q. snd (reverseProxy send target pub inner cid r s) = snd (send u q s))"
  by (auto simp: reverseProxy_def split: option.split prod.split upstream_answer.split) (metis snd_conv)+

interpretation api_gateway: http_service "gateway opts (proxy_send d su) results" "client_moves (dp_collate d)"
  for opts d su results
proof
  fix p cid r
  have "client_moves (dp_collate d) p (snd (reverseProxy (proxy_send d su) target pub inner cid r p))" for target pub inner
    using reverseProxy_state[of "proxy_send d su" target pub inner cid r p] proxy_send_moves[of d p su]
    by (metis client_moves_refl)
  then show "client_moves (dp_collate d) p (snd (gateway opts (proxy_send d su) results cid r p))"
    by (simp add: gateway_def split: routing.split gateway_endpoint.split)
qed simp

lemma public_request_moves: "client_moves (dp_collate d) p (snd (public_request d su r p))"
  using api_gateway.wrapped[of d "(pf_metrics p ''api-gateway'', p)"]
  by (auto simp: public_request_def client_moves_def split: prod.split) (metis snd_conv)+

lemma platform_step_moves: "platform_moves (dp_collate d) p (platform_step d op p)"
proof (cases op)
  case (PublicRequest su r)
  then show ?thesis by (simp add: client_moves_platform public_request_moves)
next
  case (OrderConsumer tracer e v)
  have "osteps (pf_orders p) (snd (Orders.handle_event tracer e v (pf_orders p)))"
    by (rule OrderRefine.handle_event_steps[of tracer e v "pf_orders p" "fst (Orders.handle_event tracer e v (pf_orders p))"]) simp
  then show ?thesis by (simp add: OrderConsumer platform_moves_def)
next
  case (DeliveryConsumer con e v)
  then show ?thesis using delivery_moves_step[of "pf_deliveries p" "ConsumeOp con e v"] by (simp add: platform_moves_def)
next
  case (ForecastSave e j f x)
  then show ?thesis using delivery_moves_step[of "pf_deliveries p" "SaveOp e j f x"] by (simp add: platform_moves_def)
next
  case (AnalyticsConsumer up e v)
  then show ?thesis by (simp add: platform_moves_def)
next
  case CatalogCacheExpires
  then show ?thesis
    using catalog_moves_step[of "dp_collate d" "pf_catalog p" CacheExpires] by (simp add: platform_moves_def)
next
  case (CartCacheExpires key)
  then show ?thesis using cart_moves_step[of "pf_carts p" "ExpireOp key"] by (simp add: platform_moves_def)
qed

lemma platform_run_moves: "platform_moves (dp_collate d) p (platform_run d ops p)"
  unfolding platform_run_def
proof (induction ops arbitrary: p)
  case (Cons op ops)
  then show ?case using platform_step_moves platform_moves_trans by fastforce
qed simp

section \<open>Properties\<close>

definition platform_ok :: "platform \<Rightarrow> bool" where
  "platform_ok p \<longleftrightarrow> catalog_ok (pf_catalog p) \<and> carts_ok (pf_carts p) \<and> orders_ok (pf_orders p) \<and> fleet_ok (pf_deliveries p)"

text \<open>
  C2 Whatever clients send through the gateway and whatever events, forecasts, cache expiries,
  failures and lost answers come between, every service keeps its invariant: each order's record
  agrees with its history and its events, each courier works for at most one delivery, each cart
  line belongs to a cart, no stock goes below zero, and what a product has in stock and in active
  reservations stays the same in sum; the version of a cart never falls.
\<close>

theorem platform_keeps_invariants:
  assumes "platform_ok p"
  shows "platform_ok (platform_run d ops p) \<and>
    stock (ct_products (pf_catalog (platform_run d ops p))) k + held (pf_catalog (platform_run d ops p)) k =
      stock (ct_products (pf_catalog p)) k + held (pf_catalog p) k \<and>
    version_of u (pf_carts p) \<le> version_of u (pf_carts (platform_run d ops p))"
proof -
  have m: "platform_moves (dp_collate d) p (platform_run d ops p)" by (rule platform_run_moves)
  obtain cops kops dops where
    c: "pf_catalog (platform_run d ops p) = catalog_run (dp_collate d) cops (pf_catalog p)" and
    k: "pf_carts (platform_run d ops p) = cart_run kops (pf_carts p)" and
    r: "pf_deliveries (platform_run d ops p) = delivery_run dops (pf_deliveries p)" and
    o: "osteps (pf_orders p) (pf_orders (platform_run d ops p))"
    using m by (auto simp: platform_moves_def catalog_moves_def cart_moves_def delivery_moves_def)
  show ?thesis
    using assms catalog_run_ok[of "pf_catalog p" "dp_collate d" cops]
      catalog_run_conserves[of "pf_catalog p" "dp_collate d" cops k]
      cart_run_versions[of "pf_carts p" kops u] osteps_ok[OF o]
      dsteps_ok[OF delivery_run_steps[of "pf_deliveries p" dops]]
    by (simp add: platform_ok_def c k r)
qed

text \<open>A shop open to the public, and a client who fills a cart.\<close>

definition open_shop :: platform where
  "open_shop = \<lparr>pf_catalog = shop, pf_carts = no_carts, pf_orders = order_db, pf_deliveries = fleet_db,
     pf_warehouse = no_facts, pf_metrics = (\<lambda>_. no_metrics)\<rparr>"

definition demo_hosts :: "string \<Rightarrow> service_name option" where
  "demo_hosts h =
     (if h = ''catalog:8080'' then Some CatalogService else if h = ''cart:8080'' then Some CartService
      else if h = ''order:8080'' then Some OrderService else if h = ''delivery:8080'' then Some DeliveryService
      else if h = ''analytics:8080'' then Some AnalyticsService else None)"

definition demo_deployment :: deployment where
  "demo_deployment = \<lparr>dp_collate = id, dp_sha = demo_sha, dp_length = (\<lambda>_. 100), dp_options = sample_options,
     dp_host = demo_hosts\<rparr>"

definition calm :: surroundings where
  "calm = \<lparr>su_gateway = quiet_env, su_service = label_env, su_client = label_env, su_peer = label_env,
     su_time = ''2026-01-02T03:04:05Z'', su_took = 5, su_tracer = None, su_checks = [], su_order_polls = [],
     su_delivery_polls = [], su_clickhouse = by_id\<rparr>"

definition fill_cart :: http_request where
  "fill_cart = (Gateway.sample_request ''PUT'' (''/api/v1/carts/'' @ demo_user @ ''/items/'' @ apples))
     \<lparr>hr_body := \<lparr>bd_size = 14, bd_values = [(Some (JObj [(''quantity'', JInt 2)]), 14)]\<rparr>\<rparr>"

lemma open_shop_ok: "platform_ok open_shop"
  by (simp add: platform_ok_def open_shop_def shop_ok no_carts_ok order_db_ok fleet_db_ok)

theorem platform_keeps_invariants_witness:
  "map cw_version (cs_carts (pf_carts (platform_run demo_deployment [PublicRequest calm fill_cart] open_shop))) = [1] \<and>
   platform_ok (platform_run demo_deployment [PublicRequest calm fill_cart] open_shop)"
proof
  show "map cw_version (cs_carts (pf_carts (platform_run demo_deployment [PublicRequest calm fill_cart] open_shop))) = [1]"
    by code_simp
qed (use platform_keeps_invariants[OF open_shop_ok] in blast)

text \<open>
  C33 Every consumer applies an event at most once: along any history of records given to the order,
  the delivery or the notification consumer, with redeliveries, failed calls and commits whose answer
  is lost, all the deliveries of one event together change the state of the service at most once.
\<close>

theorem consumers_apply_events_once:
  "effects_of (Orders.handle_event tracer) k ds s \<le> 1 \<and> effects_of (Delivery.handle_event con) k ds t \<le> 1 \<and>
   effects_of Notification.handle_event k ds u \<le> 1"
  using ob.effect_at_most_once db.effect_at_most_once nb.effect_at_most_once by blast

end
