(* ===== verification/Workers.thy ===== *)
theory Workers
  imports Platform SimulatorProps "HOL-Library.Sublist"
begin

text \<open>
  The loops that run beside the HTTP servers: the \<open>Run\<close> methods of the four Kafka consumers, of the
  outbox relay, the prediction worker, the SLO reporter and the courier simulator. A consumer polls,
  processes every record with the retries of kafkax and commits its offset afterwards; the others do
  one round at once and one at every tick. A loop ends when its context does: the polls or ticks it
  has seen until then are a list.
\<close>

section \<open>Consumers\<close>

text \<open>
  What surrounds one record: the environment of each attempt, which sleeps the context cuts short,
  what the broker answers to each try to publish the dead letter, the time, and whether the commit
  of its offset fails.
\<close>

record around =
  ar_env :: "nat \<Rightarrow> env"
  ar_cancelled :: "nat \<Rightarrow> bool"
  ar_answer :: "nat \<Rightarrow> produce_outcome"
  ar_publish_cancelled :: "nat \<Rightarrow> bool"
  ar_now :: time
  ar_commit_fails :: bool

text \<open>
  A fetched partition with its records. A poll whose fetches hold an error may have fetched records
  of other partitions all the same: \<open>PollError\<close> carries them. \<open>Run\<close> goes on to the next poll without a
  look at them, and the client does not fetch them again.
\<close>

record fetch =
  ft_topic :: string
  ft_partition :: int
  ft_high :: int
  ft_records :: "(message \<times> around) list"

datatype poll = PollError "fetch list" | Fetches "fetch list"

record 's worker =
  wk_state :: 's
  wk_dlq :: "dlq_record list"
  wk_committed :: "message list"
  wk_metrics :: metrics

text \<open>
  \<open>kafkax.Process\<close> with the handler of a service; \<open>parse\<close> is the JSON text of a record's value.
\<close>

definition process_record ::
  "string \<Rightarrow> (go_error \<Rightarrow> string) \<Rightarrow> (byte list \<Rightarrow> json option) \<Rightarrow> ('s, 'r) handler \<Rightarrow> message \<times> around \<Rightarrow>
   's worker \<Rightarrow> ((go_error + outcome) \<times> 's worker) option" where
  "process_record service text parse handle ma w =
     (case ma of (m, a) \<Rightarrow>
      map_option (\<lambda>(r, s, dlq). (r, w\<lparr>wk_state := s, wk_dlq := dlq\<rparr>))
        (Process service text (attempt_of handle (ar_env a) (parse (msg_value m))) (ar_cancelled a) (ar_answer a)
           (ar_publish_cancelled a) (ar_now a) m (wk_state w) (wk_dlq w)))"

text \<open>The records of one poll; the flag says whether \<open>Run\<close> goes on.\<close>

fun consume_records ::
  "string \<Rightarrow> (go_error \<Rightarrow> string) \<Rightarrow> (byte list \<Rightarrow> json option) \<Rightarrow> ('s, 'r) handler \<Rightarrow> (message \<times> around) list \<Rightarrow>
   's worker \<Rightarrow> ('s worker \<times> bool) option" where
  "consume_records service text parse handle [] w = Some (w, True)"
| "consume_records service text parse handle (ma # mas) w =
     (case process_record service text parse handle ma w of
        None \<Rightarrow> None
      | Some (Inl err, w') \<Rightarrow> Some (w', False)
      | Some (Inr out, w') \<Rightarrow>
          consume_records service text parse handle mas
            (if ar_commit_fails (snd ma) then w' else w'\<lparr>wk_committed := wk_committed w' @ [fst ma]\<rparr>))"

definition records_of :: "fetch list \<Rightarrow> (message \<times> around) list" where
  "records_of fs = concat (map ft_records fs)"

definition observed :: "fetch \<Rightarrow> fetched_partition" where
  "observed f = \<lparr>fp_topic = ft_topic f, fp_partition = ft_partition f, fp_high = ft_high f,
     fp_offsets = map (msg_offset \<circ> fst) (ft_records f)\<rparr>"

fun consumer_Run ::
  "string \<Rightarrow> (go_error \<Rightarrow> string) \<Rightarrow> (byte list \<Rightarrow> json option) \<Rightarrow> ('s, 'r) handler \<Rightarrow> poll list \<Rightarrow>
   's worker \<Rightarrow> ('s worker \<times> bool) option" where
  "consumer_Run service text parse handle [] w = Some (w, True)"
| "consumer_Run service text parse handle (PollError fs # ps) w = consumer_Run service text parse handle ps w"
| "consumer_Run service text parse handle (Fetches fs # ps) w =
     (case consume_records service text parse handle (records_of fs) w of
        None \<Rightarrow> None
      | Some (w', False) \<Rightarrow> Some (w', False)
      | Some (w', True) \<Rightarrow>
          consumer_Run service text parse handle ps
            (w'\<lparr>wk_metrics := ObserveKafkaFetches service (map observed fs) (wk_metrics w')\<rparr>))"

definition order_consumer ::
  "(string \<times> string) option \<Rightarrow> (go_error \<Rightarrow> string) \<Rightarrow> (byte list \<Rightarrow> json option) \<Rightarrow> poll list \<Rightarrow> orders worker \<Rightarrow>
   (orders worker \<times> bool) option" where
  "order_consumer tracer text parse = consumer_Run ''order-service'' text parse (Orders.handle_event tracer)"

definition delivery_consumer ::
  "dispatcher \<Rightarrow> (go_error \<Rightarrow> string) \<Rightarrow> (byte list \<Rightarrow> json option) \<Rightarrow> poll list \<Rightarrow> deliveries worker \<Rightarrow>
   (deliveries worker \<times> bool) option" where
  "delivery_consumer con text parse = consumer_Run ''delivery-service'' text parse (Delivery.handle_event con)"

definition notification_consumer ::
  "(go_error \<Rightarrow> string) \<Rightarrow> (byte list \<Rightarrow> json option) \<Rightarrow> poll list \<Rightarrow> notifications worker \<Rightarrow>
   (notifications worker \<times> bool) option" where
  "notification_consumer text parse = consumer_Run ''notification-worker'' text parse Notification.handle_event"

definition analytics_consumer ::
  "uuid_parse \<Rightarrow> (go_error \<Rightarrow> string) \<Rightarrow> (byte list \<Rightarrow> json option) \<Rightarrow> poll list \<Rightarrow> warehouse worker \<Rightarrow>
   (warehouse worker \<times> bool) option" where
  "analytics_consumer up text parse = consumer_Run ''analytics-worker'' text parse (handle_record up)"

section \<open>Tickers\<close>

text \<open>One round at once, then one per tick.\<close>

definition run_ticker :: "('a \<Rightarrow> 's \<Rightarrow> 's) \<Rightarrow> 'a \<Rightarrow> 'a list \<Rightarrow> 's \<Rightarrow> 's" where
  "run_ticker step first ticks s = fold step (first # ticks) s"

record relay_round =
  ry_env :: env
  ry_broker :: "outbox_row \<Rightarrow> produce_outcome"
  ry_error :: "outbox_row \<Rightarrow> string"
  ry_locked :: "string \<Rightarrow> bool"

definition relay_Run ::
  "relay_round \<Rightarrow> relay_round list \<Rightarrow> outbox_row list \<times> kafka_record list \<Rightarrow> outbox_row list \<times> kafka_record list" where
  "relay_Run = run_ticker (\<lambda>q (rows, sent).
     snd (publishBatch (ry_env q) (ry_broker q) (ry_error q) (ry_locked q) rows sent))"

record prediction_round =
  pq_env :: env
  pq_envs :: "prediction_job \<Rightarrow> env"
  pq_post :: "prediction_job \<Rightarrow> eta_service"

definition prediction_Run :: "prediction_round \<Rightarrow> prediction_round list \<Rightarrow> deliveries \<Rightarrow> deliveries" where
  "prediction_Run = run_ticker (\<lambda>q s. snd (predictMissing (pq_env q) (pq_envs q) (pq_post q) s))"

definition slo_Run ::
  "clickhouse \<Rightarrow> env \<times> warehouse \<Rightarrow> (env \<times> warehouse) list \<Rightarrow> metrics \<Rightarrow> metrics" where
  "slo_Run db = run_ticker (\<lambda>(e, w). collect db e w)"

record simulator_round =
  sr_env :: env
  sr_envs :: "nat \<Rightarrow> env"
  sr_broker :: "string \<Rightarrow> produce_outcome"
  sr_answer :: "(int \<times> json option) option"

definition simulator_Run :: "simulator_round \<Rightarrow> simulator_round list \<Rightarrow> runner \<Rightarrow> runner" where
  "simulator_Run = run_ticker (\<lambda>q. tick (sr_env q) (sr_envs q) (sr_broker q) (sr_answer q))"

section \<open>Lemmas\<close>

text \<open>A record that \<open>Process\<close> is done with was handled, or its dead letter is in the queue.\<close>

lemma publish_loop_result:
  assumes "publish_loop ans cancelled key d n dlq = Some y"
  shows "set dlq \<subseteq> set (snd y) \<and> fst y \<noteq> Inr Processed \<and>
    (fst y = Inr DeadLettered \<longrightarrow> dlq_record_of key d \<in> set (snd y))"
proof (rule publish_loop.raw_induct[where P = "\<lambda>ans cancelled key d n dlq y.
    set dlq \<subseteq> set (snd y) \<and> fst y \<noteq> Inr Processed \<and>
    (fst y = Inr DeadLettered \<longrightarrow> dlq_record_of key d \<in> set (snd y))", OF _ assms])
  fix loop ans cancelled key d n dlq y
  assume IH: "\<And>ans cancelled key d n dlq y. loop ans cancelled key d n dlq = Some y \<Longrightarrow>
      set dlq \<subseteq> set (snd y) \<and> fst y \<noteq> Inr Processed \<and>
      (fst y = Inr DeadLettered \<longrightarrow> dlq_record_of key d \<in> set (snd y))"
    and body: "(case Publish (ans n) key d dlq of (b, dlq') \<Rightarrow>
        if b then Some (Inr DeadLettered, dlq')
        else if cancelled n then Some (Inl (Failed ''context canceled''), dlq')
        else loop ans cancelled key d (n + 1) dlq') = Some y"
  obtain sent dlq1 where p: "Publish (ans n) key d dlq = (sent, dlq1)" by fastforce
  then have g: "set dlq \<subseteq> set dlq1" "sent \<Longrightarrow> dlq_record_of key d \<in> set dlq1"
    by (auto simp: Publish_def split: produce_outcome.splits)
  show "set dlq \<subseteq> set (snd y) \<and> fst y \<noteq> Inr Processed \<and>
      (fst y = Inr DeadLettered \<longrightarrow> dlq_record_of key d \<in> set (snd y))"
  proof (cases "sent \<or> cancelled n")
    case True
    then have "y = (if sent then Inr DeadLettered else Inl (Failed ''context canceled''), dlq1)"
      using body p by (auto split: if_splits)
    then show ?thesis using g by simp
  next
    case False
    then have "loop ans cancelled key d (n + 1) dlq1 = Some y" using body p by simp
    then show ?thesis using IH g(1) by blast
  qed
qed

lemma try_handle_result:
  "try_handle handle cancelled l n s = (Handled, s') \<Longrightarrow>
     \<exists>k t. n \<le> k \<and> k \<le> maxAttempts \<and> fst (handle k t) = None"
proof (induction handle cancelled l n s rule: try_handle.induct)
  case (1 handle cancelled l n s)
  obtain r t where h: "handle n s = (r, t)" by fastforce
  have n: "n \<le> maxAttempts" using "1.prems" by (subst (asm) try_handle.simps) (simp split: if_splits)
  show ?case
  proof (cases r)
    case None
    then show ?thesis using h n by (intro exI[of _ n] exI[of _ s]) simp
  next
    case (Some err)
    then have "n \<noteq> maxAttempts" "\<not> cancelled n" "try_handle handle cancelled (Some err) (n + 1) t = (Handled, s')"
      using "1.prems" h n by (subst (asm) try_handle.simps, simp split: if_splits)+
    then show ?thesis using "1.IH"[OF n h[symmetric] Some] by (metis Suc_eq_plus1 Suc_leD)
  qed
qed

definition settled :: "(byte list \<Rightarrow> json option) \<Rightarrow> ('s, 'r) handler \<Rightarrow> dlq_record list \<Rightarrow> message \<times> around \<Rightarrow> bool" where
  "settled parse handle dlq ma \<longleftrightarrow>
     (\<exists>n s. 1 \<le> n \<and> n \<le> maxAttempts \<and> fst (attempt_of handle (ar_env (snd ma)) (parse (msg_value (fst ma))) n s) = None) \<or>
     (\<exists>d. dlq_record_of (msg_key (fst ma)) d \<in> set dlq \<and> SourceTopic d = msg_topic (fst ma) \<and>
        SourcePartition d = msg_partition (fst ma) \<and> SourceOffset d = msg_offset (fst ma) \<and>
        OriginalValueBase64 d = b64_encode (msg_value (fst ma)))"

lemma settled_mono: "settled parse handle dlq ma \<Longrightarrow> set dlq \<subseteq> set dlq' \<Longrightarrow> settled parse handle dlq' ma"
  unfolding settled_def by blast

lemma process_record_result:
  assumes "process_record service text parse handle ma w = Some (r, w')"
  shows "set (wk_dlq w) \<subseteq> set (wk_dlq w') \<and> wk_committed w' = wk_committed w \<and>
    (\<forall>out. r = Inr out \<longrightarrow> settled parse handle (wk_dlq w') ma)"
proof -
  obtain m a where ma: "ma = (m, a)" by (cases ma)
  let ?h = "attempt_of handle (ar_env a) (parse (msg_value m))"
  obtain x s' where t: "try_handle ?h (ar_cancelled a) None 1 (wk_state w) = (x, s')" by fastforce
  show ?thesis
  proof (cases x)
    case Handled
    then have "settled parse handle (wk_dlq w) ma"
      using try_handle_result[of ?h "ar_cancelled a" None 1 "wk_state w" s'] t by (auto simp: settled_def ma)
    then show ?thesis using assms t Handled by (auto simp: process_record_def Process_def ma)
  next
    case (Exhausted l)
    let ?d = "dead_letter_of service m (sanitizeError text l) (ar_now a)"
    obtain dlq' where l: "publish_loop (ar_answer a) (ar_publish_cancelled a) (msg_key m) ?d 1 (wk_dlq w) = Some (r, dlq')"
        "w' = w\<lparr>wk_state := s', wk_dlq := dlq'\<rparr>"
      using assms t Exhausted by (auto simp: process_record_def Process_def ma)
    have d: "SourceTopic ?d = msg_topic m" "SourcePartition ?d = msg_partition m" "SourceOffset ?d = msg_offset m"
        "OriginalValueBase64 ?d = b64_encode (msg_value m)" by (simp_all add: dead_letter_of_def)
    have "settled parse handle dlq' ma" if "r = Inr out" for out
      unfolding settled_def using publish_loop_result[OF l(1)] that d by (cases out) (auto simp: ma)
    then show ?thesis using publish_loop_result[OF l(1)] l(2) by simp
  next
    case Cancelled
    then show ?thesis using assms t by (auto simp: process_record_def Process_def ma)
  qed
qed

text \<open>
  How far a consumer has come: a prefix of the fetched records is settled, and what it has committed
  is a subsequence of that prefix.
\<close>

definition progress ::
  "(byte list \<Rightarrow> json option) \<Rightarrow> ('s, 'r) handler \<Rightarrow> (message \<times> around) list \<Rightarrow> 's worker \<Rightarrow> 's worker \<Rightarrow> bool \<Rightarrow> bool" where
  "progress parse handle mas w w' go \<longleftrightarrow>
     set (wk_dlq w) \<subseteq> set (wk_dlq w') \<and>
     (\<exists>handled rest committed. mas = handled @ rest \<and> (go \<longrightarrow> rest = []) \<and>
        wk_committed w' = wk_committed w @ committed \<and> subseq committed (map fst handled) \<and>
        (\<forall>ma \<in> set handled. settled parse handle (wk_dlq w') ma))"

lemma progress_append:
  assumes "progress parse handle xs w w1 True" and "progress parse handle ys w1 w2 go"
  shows "progress parse handle (xs @ ys) w w2 go"
proof -
  obtain c where c: "wk_committed w1 = wk_committed w @ c" "subseq c (map fst xs)"
      "\<forall>ma \<in> set xs. settled parse handle (wk_dlq w1) ma" "set (wk_dlq w) \<subseteq> set (wk_dlq w1)"
    using assms(1) by (auto simp: progress_def)
  obtain h r k where k: "ys = h @ r" "go \<longrightarrow> r = []" "wk_committed w2 = wk_committed w1 @ k" "subseq k (map fst h)"
      "\<forall>ma \<in> set h. settled parse handle (wk_dlq w2) ma" "set (wk_dlq w1) \<subseteq> set (wk_dlq w2)"
    using assms(2) by (auto simp: progress_def)
  have "subseq (c @ k) (map fst (xs @ h))" using c(2) k(4) by (simp add: list_emb_append_mono)
  moreover have "\<forall>ma \<in> set (xs @ h). settled parse handle (wk_dlq w2) ma"
    using c(3) k(5,6) settled_mono by fastforce
  ultimately show ?thesis
    unfolding progress_def using c k by (intro conjI exI[of _ "xs @ h"] exI[of _ r] exI[of _ "c @ k"]) auto
qed

lemma consume_records_progress:
  "consume_records service text parse handle mas w = Some (w', go) \<Longrightarrow> progress parse handle mas w w' go"
proof (induction mas arbitrary: w)
  case Nil
  then show ?case by (simp add: progress_def)
next
  case (Cons ma mas)
  obtain r w1 where p: "process_record service text parse handle ma w = Some (r, w1)"
    using Cons.prems by (auto split: option.splits)
  note s = process_record_result[OF p]
  show ?case
  proof (cases r)
    case (Inl err)
    then show ?thesis using Cons.prems p s
      by (simp add: progress_def) (rule exI[of _ "[]"], simp)
  next
    case (Inr out)
    let ?w2 = "if ar_commit_fails (snd ma) then w1 else w1\<lparr>wk_committed := wk_committed w1 @ [fst ma]\<rparr>"
    have "progress parse handle [ma] w ?w2 True"
      unfolding progress_def using s Inr
      by (intro conjI exI[of _ "[ma]"] exI[of _ "[]"]
          exI[of _ "if ar_commit_fails (snd ma) then [] else [fst ma]"]) auto
    moreover have "progress parse handle mas ?w2 w' go" using Cons.prems p Inr Cons.IH by simp
    ultimately show ?thesis using progress_append by fastforce
  qed
qed

lemma progress_metrics: "progress parse handle mas (w\<lparr>wk_metrics := x\<rparr>) w' go = progress parse handle mas w w' go"
  by (simp add: progress_def)

text \<open>The records of the polls without an error, and those that a poll with an error drops.\<close>

definition polled :: "poll list \<Rightarrow> (message \<times> around) list" where
  "polled ps = concat (map (\<lambda>p. case p of PollError fs \<Rightarrow> [] | Fetches fs \<Rightarrow> records_of fs) ps)"

definition dropped :: "poll list \<Rightarrow> (message \<times> around) list" where
  "dropped ps = concat (map (\<lambda>p. case p of PollError fs \<Rightarrow> records_of fs | Fetches fs \<Rightarrow> []) ps)"

lemma polled_simps [simp]:
  "polled [] = []" "polled (PollError fs # ps) = polled ps" "polled (Fetches fs # ps) = records_of fs @ polled ps"
  by (simp_all add: polled_def)

lemma consumer_progress:
  "consumer_Run service text parse handle ps w = Some (w', go) \<Longrightarrow> progress parse handle (polled ps) w w' go"
proof (induction service "text" parse handle ps w rule: consumer_Run.induct)
  case (1 service tx parse handle w)
  then show ?case by (simp add: progress_def)
next
  case (3 service tx parse handle fs ps w)
  obtain w1 go1 where c: "consume_records service tx parse handle (records_of fs) w = Some (w1, go1)"
    using "3.prems" by (auto split: option.splits)
  note p = consume_records_progress[OF c]
  show ?case
  proof (cases go1)
    case True
    then have "progress parse handle (polled ps) w1 w' go" using "3.prems" c "3.IH" progress_metrics by fastforce
    then show ?thesis using progress_append p True by simp
  next
    case False
    then have "w' = w1 \<and> go = False" using "3.prems" c by simp
    then show ?thesis using p False by (auto simp: progress_def) (metis append.assoc)
  qed
qed simp

section \<open>Properties\<close>

text \<open>
  C12 What becomes of the records: however a consumer's loop ends, the records of the polls without
  an error are a settled part, each handled with success in one of its attempts or kept with its
  place and its bytes in the dead-letter queue, and a part after the record that stopped it, of
  which nothing is committed; it commits only settled records, in their order, each at most once. A
  poll with an error is dropped together with the records it fetched from other partitions: they
  are neither handled nor dead-lettered, and commits of later records pass over them, as the
  witness shows (see the findings).
\<close>

theorem committed_records_are_settled:
  assumes "consumer_Run service text parse handle ps w = Some (w', go)"
  shows "\<exists>done_part rest committed. polled ps = done_part @ rest \<and> (go \<longrightarrow> rest = []) \<and>
    wk_committed w' = wk_committed w @ committed \<and> subseq committed (map fst done_part) \<and>
    (\<forall>ma \<in> set done_part. settled parse handle (wk_dlq w') ma)"
  using consumer_progress[OF assms] by (auto simp: progress_def)

text \<open>
  A malformed record that a failing poll drops, one that ends in the queue, and an order event, whose
  commit fails.
\<close>

definition calm_record :: around where
  "calm_record = \<lparr>ar_env = (\<lambda>_. quiet_env), ar_cancelled = (\<lambda>_. False), ar_answer = (\<lambda>_. Produced),
     ar_publish_cancelled = (\<lambda>_. False), ar_now = 0, ar_commit_fails = False\<rparr>"

definition demo_message :: "byte list \<Rightarrow> int \<Rightarrow> message" where
  "demo_message v n = \<lparr>msg_topic = ''freshflow.order.events.v1'', msg_partition = 0, msg_offset = n, msg_key = [],
     msg_value = v\<rparr>"

definition demo_polls :: "poll list" where
  "demo_polls =
     [PollError [\<lparr>ft_topic = ''freshflow.order.events.v1'', ft_partition = 0, ft_high = 3,
        ft_records = [(demo_message [0] 0, calm_record)]\<rparr>],
      Fetches [\<lparr>ft_topic = ''freshflow.order.events.v1'', ft_partition = 0, ft_high = 3,
        ft_records = [(demo_message [0] 1, calm_record), (demo_message [1] 2, calm_record\<lparr>ar_commit_fails := True\<rparr>)]\<rparr>]]"

definition demo_parse :: "byte list \<Rightarrow> json option" where
  "demo_parse v = (if v = [1] then order_created_event else None)"

definition idle_worker :: "notifications worker" where
  "idle_worker = \<lparr>wk_state = no_notifications, wk_dlq = [], wk_committed = [], wk_metrics = no_metrics\<rparr>"

lemma demo_poisoned:
  "\<exists>d. process_record service tx demo_parse Notification.handle_event (demo_message [0] n, calm_record) w =
     Some (Inr DeadLettered, w\<lparr>wk_dlq := wk_dlq w @ [dlq_record_of [] d]\<rparr>) \<and> SourceOffset d = n"
proof -
  let ?h = "attempt_of Notification.handle_event (\<lambda>_. quiet_env) (demo_parse [0])"
  have f: "attempt_fails ?h k s \<and> snd (?h k s) = s" for k s
    by (simp add: attempt_fails_def attempt_of_def demo_parse_def Notification.handle_event_def Unmarshal_def)
  then have "after_attempts ?h k s = s" for k s by (induction k) simp_all
  then obtain err where "try_handle ?h (\<lambda>_. False) None 1 (wk_state w) = (Exhausted (Some err), wk_state w)"
    using try_handle_exhausted[of 1 ?h "wk_state w" "\<lambda>_. False" None] f by (auto simp: maxAttempts_def)
  moreover have "publish_loop (\<lambda>_. Produced) (\<lambda>_. False) key d 1 dlq = Some (Inr DeadLettered, dlq @ [dlq_record_of key d])"
    for key d dlq by (rule publish_loop_log[where k = 0]) auto
  ultimately show ?thesis
    by (cases w) (auto simp: process_record_def Process_def demo_message_def calm_record_def dead_letter_of_def)
qed

lemma demo_dropped:
  assumes "SourceOffset d = 1"
  shows "\<not> settled demo_parse Notification.handle_event [dlq_record_of [] d] (demo_message [0] 0, calm_record)"
  using assms by (auto simp: settled_def attempt_of_def demo_parse_def demo_message_def calm_record_def
      Notification.handle_event_def Unmarshal_def dlq_record_of_def dead_letter_json_def)

lemma demo_noticed:
  assumes "ar_env a = (\<lambda>_. quiet_env)" and "wk_state w = no_notifications"
  shows "\<exists>s. process_record service tx demo_parse Notification.handle_event (demo_message [1] n, a) w =
     Some (Inr Processed, w\<lparr>wk_state := s\<rparr>) \<and> length (nf_log s) = 1"
proof -
  let ?h = "attempt_of Notification.handle_event (\<lambda>_. quiet_env) (demo_parse [1])"
  have "(case Notification.handle_event quiet_env order_created_event no_notifications of
      (Inl _, _) \<Rightarrow> False | (Inr _, s) \<Rightarrow> length (nf_log s) = 1)" by code_simp
  then obtain b s where "Notification.handle_event quiet_env order_created_event no_notifications = (Inr b, s)"
      and l: "length (nf_log s) = 1"
    by (auto split: prod.splits sum.splits)
  then have h: "?h k no_notifications = (None, s)" for k by (simp add: attempt_of_def demo_parse_def)
  then have "try_handle ?h cancelled None 1 no_notifications = (Handled, s)" for cancelled
    by (subst try_handle.simps) (simp add: maxAttempts_def)
  then show ?thesis using assms l
    by (intro exI[of _ s]) (simp add: process_record_def Process_def demo_message_def)
qed

theorem committed_records_are_settled_witness:
  "\<exists>w'. notification_consumer (\<lambda>_. []) demo_parse demo_polls idle_worker = Some (w', True) \<and>
     map msg_offset (wk_committed w') = [1] \<and> length (wk_dlq w') = 1 \<and> length (nf_log (wk_state w')) = 1 \<and>
     (\<forall>ma \<in> set (polled demo_polls). settled demo_parse Notification.handle_event (wk_dlq w') ma) \<and>
     map (msg_offset \<circ> fst) (dropped demo_polls) = [0] \<and>
     (\<forall>ma \<in> set (dropped demo_polls). \<not> settled demo_parse Notification.handle_event (wk_dlq w') ma)"
proof -
  let ?p = "process_record ''notification-worker'' (\<lambda>_. []) demo_parse Notification.handle_event"
  obtain d where d: "?p (demo_message [0] 1, calm_record) idle_worker =
      Some (Inr DeadLettered, idle_worker\<lparr>wk_dlq := [dlq_record_of [] d]\<rparr>)" "SourceOffset d = 1"
    using demo_poisoned[of "''notification-worker''" "\<lambda>_. []" 1 idle_worker] by (auto simp: idle_worker_def)
  let ?w1 = "idle_worker\<lparr>wk_dlq := [dlq_record_of [] d], wk_committed := [demo_message [0] 1]\<rparr>"
  obtain s where s: "?p (demo_message [1] 2, calm_record\<lparr>ar_commit_fails := True\<rparr>) ?w1 =
      Some (Inr Processed, ?w1\<lparr>wk_state := s\<rparr>)" "length (nf_log s) = 1"
    using demo_noticed[of "calm_record\<lparr>ar_commit_fails := True\<rparr>" ?w1 "''notification-worker''" "\<lambda>_. []" 2] by (auto simp: calm_record_def idle_worker_def)
  obtain w' where w: "notification_consumer (\<lambda>_. []) demo_parse demo_polls idle_worker = Some (w', True)"
      "wk_committed w' = [demo_message [0] 1]" "wk_dlq w' = [dlq_record_of [] d]" "wk_state w' = s"
    using d s(1) by (simp add: notification_consumer_def demo_polls_def records_of_def calm_record_def idle_worker_def)
  have "dropped demo_polls = [(demo_message [0] 0, calm_record)]"
    by (simp add: dropped_def demo_polls_def records_of_def)
  then show ?thesis
    using committed_records_are_settled[OF w(1)[unfolded notification_consumer_def]] s(2) w demo_dropped[OF d(2)]
    by (auto simp: demo_message_def)
qed

end
