(* ===== verification/Network.thy ===== *)
theory Network
  imports Workers
begin

text \<open>
  The services joined by Kafka: the relays of the order and delivery services and the courier
  simulator append to the topics, and each consumer receives, any number of times and in any order,
  records of the topics it subscribes to. What a record says is true of the service that sent it;
  from this the state of the order service and that of the delivery service are shown to agree.
\<close>

section \<open>State and steps\<close>

record network =
  nw_platform :: platform
  nw_runner :: runner
  nw_notifications :: notifications
  nw_log :: "kafka_record list"

text \<open>
  \<open>received topics i log\<close> is the \<open>i\<close>th record of the log when it is on a subscribed topic. The
  relays and the simulator append to the one log; the topics of a record keep them apart. A
  replayed dead letter is a copy of a record with its key and value.
\<close>

definition received :: "string list \<Rightarrow> nat \<Rightarrow> kafka_record list \<Rightarrow> kafka_record option" where
  "received topics i l = (if i < length l \<and> kr_topic (l ! i) \<in> set topics then Some (l ! i) else None)"

definition order_topic :: string where "order_topic = ''freshflow.order.events.v1''"
definition delivery_topic :: string where "delivery_topic = ''freshflow.delivery.events.v1''"
definition location_topic :: string where "location_topic = ''freshflow.courier.location.v1''"
definition inventory_topic :: string where "inventory_topic = ''freshflow.inventory.events.v1''"

datatype network_op =
    Client surroundings http_request
  | RelayOrders relay_round
  | RelayCatalog relay_round
  | RelayDeliveries relay_round
  | Tick simulator_round
  | OrderReceives nat "(string \<times> string) option" env
  | DeliveryReceives nat dispatcher env
  | NotificationReceives nat env
  | AnalyticsReceives nat uuid_parse env
  | Forecast env prediction_job eta_features eta_prediction
  | Expires "string option"
  | Replayed nat

abbreviation "nw_orders n \<equiv> pf_orders (nw_platform n)"
abbreviation "nw_catalog n \<equiv> pf_catalog (nw_platform n)"
abbreviation "nw_deliveries n \<equiv> pf_deliveries (nw_platform n)"

definition set_orders :: "orders \<Rightarrow> network \<Rightarrow> network" where
  "set_orders s n = n\<lparr>nw_platform := (nw_platform n)\<lparr>pf_orders := s\<rparr>\<rparr>"

definition set_deliveries :: "deliveries \<Rightarrow> network \<Rightarrow> network" where
  "set_deliveries s n = n\<lparr>nw_platform := (nw_platform n)\<lparr>pf_deliveries := s\<rparr>\<rparr>"

definition set_catalog :: "catalog \<Rightarrow> network \<Rightarrow> network" where
  "set_catalog s n = n\<lparr>nw_platform := (nw_platform n)\<lparr>pf_catalog := s\<rparr>\<rparr>"

definition relayed :: "relay_round \<Rightarrow> outbox_row list \<Rightarrow> kafka_record list \<Rightarrow> outbox_row list \<times> kafka_record list" where
  "relayed q rows l = snd (publishBatch (ry_env q) (ry_broker q) (ry_error q) (ry_locked q) rows l)"

definition ticked :: "simulator_round \<Rightarrow> network \<Rightarrow> runner" where
  "ticked q n = tick (sr_env q) (sr_envs q) (sr_broker q) (sr_answer q)
     ((nw_runner n)\<lparr>rn_sent := nw_log n, rn_geo := ds_geo (nw_deliveries n)\<rparr>)"

fun network_step :: "deployment \<Rightarrow> network_op \<Rightarrow> network \<Rightarrow> network" where
  "network_step d (Client su r) n = n\<lparr>nw_platform := snd (public_request d su r (nw_platform n))\<rparr>"
| "network_step d (RelayOrders q) n =
     (case relayed q (os_outbox (nw_orders n)) (nw_log n) of (rows, l) \<Rightarrow>
        (set_orders ((nw_orders n)\<lparr>os_outbox := rows\<rparr>) n)\<lparr>nw_log := l\<rparr>)"
| "network_step d (RelayCatalog q) n =
     (case relayed q (ct_outbox (nw_catalog n)) (nw_log n) of (rows, l) \<Rightarrow>
        (set_catalog ((nw_catalog n)\<lparr>ct_outbox := rows\<rparr>) n)\<lparr>nw_log := l\<rparr>)"
| "network_step d (RelayDeliveries q) n =
     (case relayed q (ds_outbox (nw_deliveries n)) (nw_log n) of (rows, l) \<Rightarrow>
        (set_deliveries ((nw_deliveries n)\<lparr>ds_outbox := rows\<rparr>) n)\<lparr>nw_log := l\<rparr>)"
| "network_step d (Tick q) n =
     (set_deliveries ((nw_deliveries n)\<lparr>ds_geo := rn_geo (ticked q n)\<rparr>) n)
       \<lparr>nw_runner := ticked q n, nw_log := rn_sent (ticked q n)\<rparr>"
| "network_step d (OrderReceives i tracer e) n =
     (case received [delivery_topic] i (nw_log n) of
        None \<Rightarrow> n
      | Some m \<Rightarrow> set_orders (snd (Orders.handle_event tracer e (kr_value m) (nw_orders n))) n)"
| "network_step d (DeliveryReceives i con e) n =
     (case received [order_topic, location_topic] i (nw_log n) of
        None \<Rightarrow> n
      | Some m \<Rightarrow> set_deliveries (snd (Delivery.handle_event con e (kr_value m) (nw_deliveries n))) n)"
| "network_step d (NotificationReceives i e) n =
     (case received [order_topic] i (nw_log n) of
        None \<Rightarrow> n
      | Some m \<Rightarrow> n\<lparr>nw_notifications := snd (Notification.handle_event e (kr_value m) (nw_notifications n))\<rparr>)"
| "network_step d (AnalyticsReceives i up e) n =
     (case received [order_topic, inventory_topic, delivery_topic, location_topic] i (nw_log n) of
        None \<Rightarrow> n
      | Some m \<Rightarrow> n\<lparr>nw_platform := platform_step d (AnalyticsConsumer up e (kr_value m)) (nw_platform n)\<rparr>)"
| "network_step d (Forecast e j f x) n = n\<lparr>nw_platform := platform_step d (ForecastSave e j f x) (nw_platform n)\<rparr>"
| "network_step d (Expires key) n =
     n\<lparr>nw_platform := platform_step d (case key of None \<Rightarrow> CatalogCacheExpires | Some k \<Rightarrow> CartCacheExpires k) (nw_platform n)\<rparr>"
| "network_step d (Replayed i) n =
     (if i < length (nw_log n) then n\<lparr>nw_log := nw_log n @ [(nw_log n ! i)\<lparr>kr_headers := []\<rparr>]\<rparr> else n)"

definition network_run :: "deployment \<Rightarrow> network_op list \<Rightarrow> network \<Rightarrow> network" where
  "network_run d = fold (network_step d)"

section \<open>Services that announce what they did\<close>

text \<open>
  The interface of a service with an outbox: its steps append rows to the outbox, on the topic of
  the service, and what a row says (\<open>told\<close>) is true when it is written and stays true.
\<close>

definition truthful :: "string \<Rightarrow> ('s \<Rightarrow> json \<Rightarrow> bool) \<Rightarrow> 's \<Rightarrow> outbox_row list \<Rightarrow> bool" where
  "truthful topic told s rows \<longleftrightarrow> (\<forall>r \<in> set rows. ob_topic r = topic \<and> told s (ob_envelope r))"

locale announcer =
  fixes step :: "'s \<Rightarrow> 's \<Rightarrow> bool" and ok :: "'s \<Rightarrow> bool" and outbox :: "'s \<Rightarrow> outbox_row list"
    and topic :: string and told :: "'s \<Rightarrow> json \<Rightarrow> bool"
  assumes stays_ok: "step s s' \<Longrightarrow> ok s \<Longrightarrow> ok s'"
    and appends: "step s s' \<Longrightarrow> ok s \<Longrightarrow> \<exists>new. outbox s' = outbox s @ new \<and> truthful topic told s' new"
    and stays_told: "step s s' \<Longrightarrow> ok s \<Longrightarrow> told s x \<Longrightarrow> told s' x"
begin

lemma steps_ok: "step\<^sup>*\<^sup>* s s' \<Longrightarrow> ok s \<Longrightarrow> ok s'"
  by (induction rule: rtranclp_induct) (auto intro: stays_ok)

lemma steps_told: "step\<^sup>*\<^sup>* s s' \<Longrightarrow> ok s \<Longrightarrow> told s x \<Longrightarrow> told s' x"
  by (induction rule: rtranclp_induct) (auto intro: stays_told steps_ok)

lemma step_truthful:
  assumes "step s s'" and "ok s" and "truthful topic told s (outbox s)"
  shows "truthful topic told s' (outbox s')"
proof -
  obtain new where "outbox s' = outbox s @ new" "truthful topic told s' new" using appends assms(1,2) by blast
  then show ?thesis using assms stays_told by (auto simp: truthful_def)
qed

lemma steps_truthful:
  "step\<^sup>*\<^sup>* s s' \<Longrightarrow> ok s \<Longrightarrow> truthful topic told s (outbox s) \<Longrightarrow> truthful topic told s' (outbox s')"
  by (induction rule: rtranclp_induct) (auto intro: step_truthful steps_ok)

end

section \<open>What orders and deliveries tell\<close>

definition order_told :: "orders \<Rightarrow> json \<Rightarrow> bool" where
  "order_told s x \<longleftrightarrow>
     (\<exists>v k w. Unmarshal (Some x) = Inr v \<and> uuid_key (AggregateID v) = Some k \<and> row_find ow_id k (os_orders s) = Some w \<and>
       (\<forall>p. EventType v = ''order.created'' \<longrightarrow> decode_order_created (Payload v) = Inr p \<longrightarrow>
         uuid_key (oc_order p) = Some k \<and> oc_lat p = ow_lat w \<and> oc_lon p = ow_lon w) \<and>
       (EventType v = ''order.cancelled'' \<longrightarrow> ow_status w = ''cancelled''))"

text \<open>A delivery backs a status of its order when it has come at least as far.\<close>

definition backs :: "string \<Rightarrow> string \<Rightarrow> bool" where
  "backs status st \<longleftrightarrow> reached status (if st = ''delivered'' then ''completed'' else st)"

definition delivery_told :: "deliveries \<Rightarrow> json \<Rightarrow> bool" where
  "delivery_told s x \<longleftrightarrow>
     (\<exists>v k d. Unmarshal (Some x) = Inr v \<and> uuid_key (AggregateID v) = Some k \<and>
       row_find dr_order k (ds_deliveries s) = Some d \<and>
       (\<forall>st. target_status v = Inr (Some st) \<longrightarrow> backs (dr_status d) st))"

lemma order_row_kept:
  assumes "order_data w' = order_data w"
  shows "ow_id w' = ow_id w" "ow_lat w' = ow_lat w" "ow_lon w' = ow_lon w"
  using assms by (cases w; cases w'; simp add: order_data_def)+

lemma cancelled_for_good: "may_move ''cancelled'' b \<Longrightarrow> False"
  by (auto simp: may_move_def validTransition_def canCancel_def)

lemma order_told_stays:
  assumes "ostep_if T s s'" and "order_told s x"
  shows "order_told s' x"
proof -
  obtain v k w where v: "Unmarshal (Some x) = Inr v" "uuid_key (AggregateID v) = Some k" "row_find ow_id k (os_orders s) = Some w"
    "\<forall>p. EventType v = ''order.created'' \<longrightarrow> decode_order_created (Payload v) = Inr p \<longrightarrow>
         uuid_key (oc_order p) = Some k \<and> oc_lat p = ow_lat w \<and> oc_lon p = ow_lon w"
    "EventType v = ''order.cancelled'' \<longrightarrow> ow_status w = ''cancelled''"
    using assms(2) unfolding order_told_def by blast
  obtain w' where w': "row_find ow_id k (os_orders s') = Some w'" "order_data w' = order_data w"
      "ow_status w' = ow_status w \<or> may_move (ow_status w) (ow_status w')"
    using ostep_order_kept[OF assms(1) v(3)] by blast
  note same = order_row_kept[OF w'(2)]
  have "EventType v = ''order.cancelled'' \<longrightarrow> ow_status w' = ''cancelled''"
    using v(5) w'(3) cancelled_for_good by metis
  then show ?thesis unfolding order_told_def using v(1,2,4) w'(1) same by fastforce
qed

lemma created_payload_decoded:
  assumes "decode_order_created (Some (created_payload v)) = Inr p"
  shows "oc_order p = od_id v \<and> oc_lat p = od_lat v \<and> oc_lon p = od_lon v"
  using assms
  by (auto simp: decode_order_created_def created_payload_def same_key_def ascii_lower_def andthen_Inr split: option.splits)

lemma order_told_created:
  assumes "order_says ev ''order.created'' (ow_id w) (created_payload v)"
    and "od_id v = ow_id w" "od_lat v = ow_lat w" "od_lon v = ow_lon w" "uuid_key (ow_id w) = Some (ow_id w)"
    and "row_find ow_id (ow_id w) (os_orders s) = Some w"
  shows "order_told s (ob_envelope ev)"
proof -
  obtain m where "Unmarshal (Some (ob_envelope ev)) = Inr m" "EventType m = ''order.created''"
      "uuid_key (AggregateID m) = Some (ow_id w)" "Payload m = Some (created_payload v)"
    using assms(1) unfolding announces_def by blast
  then show ?thesis unfolding order_told_def using assms(2-6) created_payload_decoded by fastforce
qed

lemma order_told_moved:
  assumes "order_says ev ty k p" and "row_find ow_id k (os_orders s) = Some w" and "ty \<noteq> ''order.created''"
    and "ty = ''order.cancelled'' \<Longrightarrow> ow_status w = ''cancelled''"
  shows "order_told s (ob_envelope ev)"
  using assms unfolding order_told_def announces_def by fastforce

lemma order_step_tells:
  assumes "ostep_if T s s'"
  shows "\<exists>new. os_outbox s' = os_outbox s @ new \<and> truthful order_topic order_told s' new"
  using assms
proof (cases rule: ostep_if.cases)
  case (place w items key k ev v response)
  have "row_find ow_id (ow_id w) (os_orders s') = Some w" using place(1,2) by (simp add: placed_def)
  then have "order_told s' (ob_envelope ev)" using place by (intro order_told_created) 
  moreover have "ob_topic ev = order_topic" using place(9) by (simp add: announces_def order_topic_def)
  ultimately show ?thesis using place(1) by (auto simp: placed_def truthful_def)
next
  case (move k w target ev p extra t)
  have f: "row_find ow_id k (os_orders s') = Some (w\<lparr>ow_status := target\<rparr>)"
    using move(1,2) by (simp add: moved_def row_find_update)
  have "order_told s' (ob_envelope r) \<and> ob_topic r = order_topic" if r: "r \<in> set (extra @ [ev])" for r
  proof -
    consider "r = ev" | "r \<in> set extra" using r by auto
    then obtain ty q where "order_says r ty k q" "ty \<noteq> ''order.created''" "ty = ''order.cancelled'' \<longrightarrow> target = ''cancelled''"
    proof cases
      case 1
      show ?thesis by (rule that[of "''order.status_changed''" p]) (use 1 move(5) in simp_all)
    next
      case 2
      then obtain q where "order_says r ''order.confirmed'' k q \<or> order_says r ''order.cancelled'' k q \<and> target = ''cancelled''"
        using move(6) by blast
      then show ?thesis by (elim disjE conjE) (rule that, assumption, simp, simp)+
    qed
    then show ?thesis using order_told_moved[OF _ f] by (auto simp: announces_def order_topic_def)
  qed
  then show ?thesis using move(1) by (auto simp: moved_def truthful_def)
qed (simp_all add: truthful_def)

interpretation order_news: announcer "ostep_if T" orders_ok os_outbox order_topic order_told for T
  by unfold_locales (auto intro: ostep_ok order_told_stays dest: order_step_tells)

text \<open>The delivery of an order stays its delivery, and only gets on.\<close>

lemma update_trips:
  assumes "\<And>x. trip_data (f x) = trip_data x \<and> dr_status (f x) = st" and "distinct (map dr_id rows)"
    and "row_find dr_id k rows = Some d" and "row_find dr_order o_id rows = Some x"
  shows "\<exists>x'. row_find dr_order o_id (row_update dr_id k f rows) = Some x' \<and> (x' = x \<or> x = d \<and> dr_status x' = st)"
proof -
  have "dr_order (f y) = dr_order y" for y using assms(1) trip_dataD(2) by blast
  from order_after_update[OF assms(4), of f k, OF this]
  have u: "row_find dr_order o_id (row_update dr_id k f rows) = Some (if dr_id x = k then f x else x)" .
  have "x = d" if "dr_id x = k"
    using that key_unique[OF assms(2)] row_find_SomeD[OF assms(3)] row_find_SomeD[OF assms(4)] by metis
  then show ?thesis using u assms(1) by auto
qed

lemma order_found_same:
  assumes "map (\<lambda>d. (trip_data d, dr_status d)) xs = map (\<lambda>d. (trip_data d, dr_status d)) ys"
    and "row_find dr_order k ys = Some d"
  shows "\<exists>d'. row_find dr_order k xs = Some d' \<and> dr_status d' = dr_status d"
  using assms
proof (induction ys arbitrary: xs)
  case (Cons y ys)
  then obtain x zs where "xs = x # zs" "trip_data x = trip_data y" "dr_status x = dr_status y"
      "map (\<lambda>d. (trip_data d, dr_status d)) zs = map (\<lambda>d. (trip_data d, dr_status d)) ys" by auto
  then show ?case using Cons trip_dataD(2)[of x y] by (auto split: if_splits)
qed simp

lemma dstep_onward:
  assumes "dstep_if D C s s'" and "fleet_ok s" and "row_find dr_order k (ds_deliveries s) = Some d"
  shows "\<exists>d'. row_find dr_order k (ds_deliveries s') = Some d' \<and> (\<forall>g. reached (dr_status d) g \<longrightarrow> reached (dr_status d') g)"
  using assms(1)
proof (cases rule: dstep_if.cases)
  case rest
  then show ?thesis using order_found_same[OF rest(2) assms(3)] by auto
next
  case (advance i x st f)
  have "distinct (map dr_id (ds_deliveries s))" using assms(2) by (simp add: fleet_ok_def)
  from update_trips[OF advance(3) this advance(1) assms(3)] obtain d' where
    "row_find dr_order k (ds_deliveries s') = Some d'" "d' = d \<or> d = x \<and> dr_status d' = st"
    unfolding advance(5) by blast
  then show ?thesis using reached_onward advance(2) by metis
next
  case (close i x st f)
  have "distinct (map dr_id (ds_deliveries s))" using assms(2) by (simp add: fleet_ok_def)
  from update_trips[OF close(4) this close(1) assms(3)] obtain d' where
    "row_find dr_order k (ds_deliveries s') = Some d'" "d' = d \<or> d = x \<and> dr_status d' = st"
    unfolding close(6) by blast
  then show ?thesis using reached_end close(2,3) by metis
qed (use assms(3) in auto)

lemma delivery_told_stays:
  assumes "dstep_if D C s s'" and "fleet_ok s" and "delivery_told s x"
  shows "delivery_told s' x"
proof -
  obtain v k d where v: "Unmarshal (Some x) = Inr v" "uuid_key (AggregateID v) = Some k"
      "row_find dr_order k (ds_deliveries s) = Some d" "\<forall>st. target_status v = Inr (Some st) \<longrightarrow> backs (dr_status d) st"
    using assms(3) unfolding delivery_told_def by blast
  obtain d' where "row_find dr_order k (ds_deliveries s') = Some d'"
      "\<forall>g. reached (dr_status d) g \<longrightarrow> reached (dr_status d') g"
    using dstep_onward[OF assms(1,2) v(3)] by blast
  then show ?thesis unfolding delivery_told_def using v by (auto simp: backs_def)
qed

lemma reports_told:
  assumes "reports s r"
  shows "ob_topic r = delivery_topic \<and> delivery_told s (ob_envelope r)"
proof -
  obtain ty k p d v where r: "ob_topic r = delivery_topic" "row_find dr_order k (ds_deliveries s) = Some d"
    "Unmarshal (Some (ob_envelope r)) = Inr v" "EventType v = ty" "uuid_key (AggregateID v) = Some k" "Payload v = Some p"
    "\<forall>st. ty = ''delivery.status_changed'' \<longrightarrow> event_status p = Inr st \<longrightarrow> reached (dr_status d) st"
    "ty = ''delivery.completed'' \<longrightarrow> dr_status d = ''completed''"
    using assms unfolding reports_def announces_def delivery_topic_def by blast
  have "backs (dr_status d) st" if st: "target_status v = Inr (Some st)" for st
  proof -
    consider "ty = ''delivery.assigned''" "st = ''confirmed''"
      | "ty = ''delivery.status_changed''" "event_status p = Inr st" "st = ''assembling'' \<or> st = ''delivering''"
      | "ty = ''delivery.completed''" "st = ''delivered''"
      using st r(4,6) by (auto simp: target_status_def payload_status_def event_status_def andthen_Inr split: if_splits)
    then show ?thesis
    proof cases
      case 1
      then show ?thesis by (simp add: backs_def reached_def)
    next
      case 2
      then show ?thesis using r(7) by (auto simp: backs_def)
    next
      case 3
      then show ?thesis using r(8) by (simp add: backs_def reached_def)
    qed
  qed
  then show ?thesis unfolding delivery_told_def using r by blast
qed

lemma delivery_step_tells:
  assumes "dstep_if D C s s'"
  shows "\<exists>new. ds_outbox s' = ds_outbox s @ new \<and> truthful delivery_topic delivery_told s' new"
proof -
  have "tells s s'" using assms by (cases rule: dstep_if.cases) simp_all
  then show ?thesis using reports_told by (auto simp: tells_def truthful_def)
qed

interpretation delivery_news: announcer "dstep_if D C" fleet_ok ds_outbox delivery_topic delivery_told for D C
  by unfold_locales (auto intro: dstep_ok delivery_told_stays dest: delivery_step_tells)

text \<open>A reservation that was announced was recorded.\<close>

definition inventory_told :: "catalog \<Rightarrow> json \<Rightarrow> bool" where
  "inventory_told s x \<longleftrightarrow>
     (\<exists>v k. Unmarshal (Some x) = Inr v \<and> uuid_key (AggregateID v) = Some k \<and> k \<in> rs_id ` set (ct_reservations s))"

definition catalog_moved :: "(string \<Rightarrow> string) \<Rightarrow> catalog \<Rightarrow> catalog \<Rightarrow> bool" where
  "catalog_moved collate s s' \<longleftrightarrow> (\<exists>op. s' = catalog_step collate op s)"

lemma catalog_moved_reservations:
  assumes "catalog_moved collate s s'" and "catalog_ok s"
  shows "rs_id ` set (ct_reservations s) \<subseteq> rs_id ` set (ct_reservations s')"
proof -
  obtain op where op: "s' = catalog_step collate op s" using assms(1) unfolding catalog_moved_def by blast
  show ?thesis
    using assms(2)
  proof (cases rule: catalog_step_cases[of s collate op])
    case (released r)
    then have "ct_reservations s' =
        row_update rs_id (rs_id r) (\<lambda>x. x\<lparr>rs_status := ''released''\<rparr>) (ct_reservations s)"
      by (simp add: op released_def)
    then show ?thesis by (simp add: image_row_update)
  qed (auto simp: op same_tables_def recorded_def)
qed

lemma catalog_step_tells:
  assumes "catalog_moved collate s s'" and "catalog_ok s"
  shows "\<exists>new. ct_outbox s' = ct_outbox s @ new \<and> truthful inventory_topic inventory_told s' new"
proof -
  obtain op where op: "s' = catalog_step collate op s" using assms(1) unfolding catalog_moved_def by blast
  show ?thesis
    using assms(2)
  proof (cases rule: catalog_step_cases[of s collate op])
    case (recorded req r)
    then obtain ev p ty where ev: "ct_outbox s' = ct_outbox s @ [ev]"
        "announces ''freshflow.inventory.events.v1'' ev ty (rr_id r) p"
      unfolding op recorded_def by blast
    have "rr_id r \<in> rs_id ` set (ct_reservations s')" using recorded by (auto simp: op recorded_def)
    then have "inventory_told s' (ob_envelope ev)" "ob_topic ev = inventory_topic"
      using ev(2) unfolding announces_def inventory_told_def inventory_topic_def by blast+
    then show ?thesis using ev(1) by (simp add: truthful_def)
  qed (simp_all add: op same_tables_def released_def truthful_def)
qed

lemma inventory_told_stays:
  assumes "catalog_moved collate s s'" and "catalog_ok s" and "inventory_told s x"
  shows "inventory_told s' x"
  using assms(3) subsetD[OF catalog_moved_reservations[OF assms(1,2)]] unfolding inventory_told_def by metis

lemma catalog_moved_ok: "catalog_moved collate s s' \<Longrightarrow> catalog_ok s \<Longrightarrow> catalog_ok s'"
  unfolding catalog_moved_def by (elim exE) (simp add: catalog_step_ok)

interpretation inventory_news: announcer "catalog_moved collate" catalog_ok ct_outbox inventory_topic inventory_told for collate
  by unfold_locales (fact catalog_moved_ok, fact catalog_step_tells, fact inventory_told_stays)

lemma catalog_moves_moved: "catalog_moves collate s s' \<Longrightarrow> (catalog_moved collate)\<^sup>*\<^sup>* s s'"
proof -
  have "(catalog_moved collate)\<^sup>*\<^sup>* s (catalog_run collate ops s)" for ops
    unfolding catalog_run_def
  proof (induction ops arbitrary: s)
    case (Cons op ops)
    have "catalog_moved collate s (catalog_step collate op s)" unfolding catalog_moved_def by blast
    then show ?case using Cons by (simp add: converse_rtranclp_into_rtranclp)
  qed simp
  then show "catalog_moves collate s s' \<Longrightarrow> (catalog_moved collate)\<^sup>*\<^sup>* s s'" by (auto simp: catalog_moves_def)
qed

section \<open>Agreement\<close>

text \<open>
  A delivery is for an order that was placed, goes to the order's address, and is cancelled only if
  the order is; an order that is confirmed or further has a delivery that has come at least as far.
\<close>

definition sited :: "orders \<Rightarrow> delivery_row \<Rightarrow> bool" where
  "sited s d \<longleftrightarrow> (\<exists>w. row_find ow_id (dr_order d) (os_orders s) = Some w \<and> dr_dest_lat d = ow_lat w \<and>
     dr_dest_lon d = ow_lon w \<and> (dr_status d = ''cancelled'' \<longrightarrow> ow_status w = ''cancelled''))"

definition backed :: "deliveries \<Rightarrow> string \<Rightarrow> string \<Rightarrow> bool" where
  "backed t k st \<longleftrightarrow> (\<exists>d. row_find dr_order k (ds_deliveries t) = Some d \<and> backs (dr_status d) st)"

definition agree :: "orders \<Rightarrow> deliveries \<Rightarrow> bool" where
  "agree s t \<longleftrightarrow> (\<forall>d \<in> set (ds_deliveries t). sited s d) \<and>
     (\<forall>w \<in> set (os_orders s). ow_status w \<in> {''created'', ''cancelled''} \<or> backed t (ow_id w) (ow_status w))"

lemma ostep_statuses:
  assumes "ostep_if T s s'" and "w' \<in> set (os_orders s')"
  shows "ow_status w' = ''created'' \<or> T (ow_id w') (ow_status w') \<or>
    (\<exists>w \<in> set (os_orders s). ow_id w = ow_id w' \<and> ow_status w = ow_status w')"
  using assms by (cases rule: ostep_if.cases) (auto simp: placed_def moved_def set_row_update)

lemma sited_orders:
  assumes "ostep_if T s s'" and "sited s d"
  shows "sited s' d"
proof -
  obtain w where w: "row_find ow_id (dr_order d) (os_orders s) = Some w" "dr_dest_lat d = ow_lat w"
      "dr_dest_lon d = ow_lon w" "dr_status d = ''cancelled'' \<longrightarrow> ow_status w = ''cancelled''"
    using assms(2) unfolding sited_def by blast
  obtain w' where w': "row_find ow_id (dr_order d) (os_orders s') = Some w'" "order_data w' = order_data w"
      "ow_status w' = ow_status w \<or> may_move (ow_status w) (ow_status w')"
    using ostep_order_kept[OF assms(1) w(1)] by blast
  have "dr_status d = ''cancelled'' \<longrightarrow> ow_status w' = ''cancelled''"
    using w(4) w'(3) cancelled_for_good by metis
  then show ?thesis unfolding sited_def using w w' order_row_kept[OF w'(2)] by auto
qed

lemma agree_orders:
  assumes "osteps_if T s s'" and "agree s t" and "\<And>k st. T k st \<Longrightarrow> st = ''cancelled'' \<or> backed t k st"
  shows "agree s' t"
  using assms(1,2)
proof (induction rule: rtranclp_induct)
  case (step u v)
  have "\<forall>d \<in> set (ds_deliveries t). sited v d"
    using step.IH[OF step.prems] sited_orders[OF step.hyps(2)] by (simp add: agree_def)
  moreover have "ow_status w \<in> {''created'', ''cancelled''} \<or> backed t (ow_id w) (ow_status w)"
    if "w \<in> set (os_orders v)" for w
    using ostep_statuses[OF step.hyps(2) that] assms(3) step.IH[OF step.prems] unfolding agree_def
    by (metis insertCI)
  ultimately show ?case by (simp add: agree_def)
qed

lemma sited_trip:
  assumes "sited s d0" and "trip_data d = trip_data d0" and "dr_status d = ''cancelled'' \<Longrightarrow> dr_status d0 = ''cancelled''"
  shows "sited s d"
proof -
  have "dr_dest_lat d = dr_dest_lat d0 \<and> dr_dest_lon d = dr_dest_lon d0"
    using assms(2) by (cases d; cases d0) (simp add: trip_data_def)
  then show ?thesis using assms(1,3) trip_dataD(2)[OF assms(2)] by (auto simp: sited_def)
qed

lemma sited_updated:
  assumes "\<And>x. trip_data (f x) = trip_data x \<and> dr_status (f x) = st" and "\<forall>x \<in> set rows. sited s x"
    and "distinct (map dr_id rows)" and "row_find dr_id k rows = Some d"
    and "st = ''cancelled'' \<Longrightarrow> \<exists>w. row_find ow_id (dr_order d) (os_orders s) = Some w \<and> ow_status w = ''cancelled''"
  shows "\<forall>x \<in> set (row_update dr_id k f rows). sited s x"
proof
  fix y assume "y \<in> set (row_update dr_id k f rows)"
  then consider "y \<in> set rows" | x where "x \<in> set rows" "dr_id x = k" "y = f x" by (auto simp: set_row_update)
  then show "sited s y"
  proof cases
    case 2
    then have x: "x = d" using key_unique[OF assms(3)] row_find_SomeD[OF assms(4)] by metis
    have d: "sited s d" using 2 x assms(2) by simp
    show ?thesis
    proof (cases "st = ''cancelled''")
      case True
      then have "sited s (d\<lparr>dr_status := ''cancelled''\<rparr>)" using d assms(5) by (auto simp: sited_def)
      then show ?thesis by (rule sited_trip) (use 2 x assms(1)[of d] in \<open>simp_all add: trip_data_def\<close>)
    next
      case False
      show ?thesis by (rule sited_trip[OF d]) (use 2 x assms(1)[of d] False in simp_all)
    qed
  qed (use assms(2) in simp)
qed

lemma agree_delivery_step:
  assumes "dstep_if D C t t'" and "fleet_ok t" and "agree s t"
    and D: "\<And>d. D d \<Longrightarrow> dr_status d = ''assigned'' \<Longrightarrow> sited s d"
    and C: "\<And>d. C d \<Longrightarrow> \<exists>w. row_find ow_id (dr_order d) (os_orders s) = Some w \<and> ow_status w = ''cancelled''"
  shows "agree s t'"
proof -
  have old: "\<forall>d \<in> set (ds_deliveries t). sited s d" using assms(3) by (simp add: agree_def)
  have di: "distinct (map dr_id (ds_deliveries t))" using assms(2) by (simp add: fleet_ok_def)
  have "\<forall>d \<in> set (ds_deliveries t'). sited s d"
    using assms(1)
  proof (cases rule: dstep_if.cases)
    case rest
    show ?thesis
    proof
      fix d assume "d \<in> set (ds_deliveries t')"
      then have "(trip_data d, dr_status d) \<in> set (map (\<lambda>d. (trip_data d, dr_status d)) (ds_deliveries t'))" by auto
      then obtain e where "e \<in> set (ds_deliveries t)" "trip_data d = trip_data e" "dr_status d = dr_status e"
        unfolding rest(2) by auto
      then show "sited s d" using old sited_trip by metis
    qed
  next
    case (advance k d st f)
    have "st \<noteq> ''cancelled''" using phase_next_open[OF advance(2)] by (auto simp: terminal_def)
    then show ?thesis unfolding advance(5) by (intro sited_updated[OF advance(3) old di advance(1)]) simp
  next
    case (close k d st f)
    show ?thesis unfolding close(6) by (rule sited_updated[OF close(4) old di close(1)]) (use close(8) C in blast)
  qed (use old D in simp_all)
  moreover have "backed t' k st" if "backed t k st" for k st
    using that dstep_onward[OF assms(1,2)] unfolding backed_def backs_def by blast
  ultimately show ?thesis using assms(3) unfolding agree_def by blast
qed

lemma agree_deliveries:
  assumes "dsteps_if D C t t'" and "fleet_ok t" and "agree s t"
    and "\<And>d. D d \<Longrightarrow> dr_status d = ''assigned'' \<Longrightarrow> sited s d"
    and "\<And>d. C d \<Longrightarrow> \<exists>w. row_find ow_id (dr_order d) (os_orders s) = Some w \<and> ow_status w = ''cancelled''"
  shows "agree s t'"
  using assms(1)
proof (induction rule: rtranclp_induct)
  case (step u v)
  have "fleet_ok u" using step.hyps(1) assms(2) by (rule dsteps_ok)
  from step.hyps(2) this step.IH assms(4,5) show ?case by (rule agree_delivery_step)
qed (rule assms(3))

section \<open>The log\<close>

definition location_told :: "json \<Rightarrow> bool" where
  "location_told x \<longleftrightarrow> (\<exists>v. Unmarshal (Some x) = Inr v \<and> EventType v = ''courier.location_updated'')"

definition log_true :: "catalog \<Rightarrow> orders \<Rightarrow> deliveries \<Rightarrow> kafka_record \<Rightarrow> bool" where
  "log_true c s t m \<longleftrightarrow> (\<exists>x. kr_value m = Some x \<and> (kr_topic m = order_topic \<longrightarrow> order_told s x) \<and>
     (kr_topic m = delivery_topic \<longrightarrow> delivery_told t x) \<and> (kr_topic m = location_topic \<longrightarrow> location_told x) \<and>
     (kr_topic m = inventory_topic \<longrightarrow> inventory_told c x))"

lemma topics_differ [simp]:
  "order_topic \<noteq> delivery_topic" "delivery_topic \<noteq> order_topic" "order_topic \<noteq> location_topic"
  "location_topic \<noteq> order_topic" "delivery_topic \<noteq> location_topic" "location_topic \<noteq> delivery_topic"
  "inventory_topic \<noteq> order_topic" "inventory_topic \<noteq> delivery_topic" "inventory_topic \<noteq> location_topic"
  "order_topic \<noteq> inventory_topic" "delivery_topic \<noteq> inventory_topic" "location_topic \<noteq> inventory_topic"
  by (code_simp)+

text \<open>A relay leaves the rows as they are but for the columns of publication.\<close>

definition essence :: "outbox_row \<Rightarrow> outbox_row" where
  "essence r = r\<lparr>ob_published_at := None, ob_attempts := 0, ob_last_error := None\<rparr>"

lemma essence_update [simp]:
  "essence (ob_published_at_update f r) = essence r" "essence (ob_attempts_update g r) = essence r"
  "essence (ob_last_error_update h r) = essence r"
  by (simp_all add: essence_def)

lemma publish_records_essence:
  "publish_records e broker err items rows l = (x, rows', l') \<Longrightarrow> map essence rows' = map essence rows"
proof (induction e broker err items rows l rule: publish_records.induct)
  case (2 e broker err item items rows l)
  have u: "map essence (row_update ob_event_id k f rows) = map essence rows" if "\<And>r. essence (f r) = essence r" for k f
    using that by (rule map_row_update)
  show ?case
    using "2.prems" "2.IH" by (auto simp: u Let_def split: if_splits)
qed simp

lemma publishBatch_essence:
  assumes "publishBatch e broker err locked rows l = (res, rows', l')"
  shows "map essence rows' = map essence rows \<and> (\<exists>n. l' = l @ map record_of (take n (pending locked rows)))"
proof -
  obtain x rows1 l1 where p: "publish_records e broker err (pending locked rows) rows l = (x, rows1, l1)"
    by (cases "publish_records e broker err (pending locked rows) rows l") auto
  show ?thesis
    using assms publish_records_essence[OF p] publish_records_prefix[OF p] p
    by (auto simp: publishBatch_def intro: exI[of _ 0] split: if_splits relay_end.splits commit_outcome.splits)
qed

lemma relayed_result:
  assumes "relayed q rows l = (rows', l')"
  shows "map essence rows' = map essence rows \<and> (\<exists>new. l' = l @ new \<and> set new \<subseteq> record_of ` set rows)"
proof -
  obtain res where "publishBatch (ry_env q) (ry_broker q) (ry_error q) (ry_locked q) rows l = (res, rows', l')"
    using assms by (cases "publishBatch (ry_env q) (ry_broker q) (ry_error q) (ry_locked q) rows l") (auto simp: relayed_def)
  from publishBatch_essence[OF this] obtain n where
    e: "map essence rows' = map essence rows" and "l' = l @ map record_of (take n (pending (ry_locked q) rows))" by blast
  moreover have "set (map record_of (take n (pending (ry_locked q) rows))) \<subseteq> record_of ` set rows"
    using pending_subset set_take_subset by fastforce
  ultimately show ?thesis by blast
qed

lemma essence_fields [simp]:
  "ob_topic (essence r) = ob_topic r" "ob_envelope (essence r) = ob_envelope r"
  "ob_event_type (essence r) = ob_event_type r" "ob_aggregate_id (essence r) = ob_aggregate_id r"
  by (simp_all add: essence_def)

lemma essence_image:
  assumes "map essence rows' = map essence rows" and "\<And>r. P (essence r) = P r"
  shows "(\<forall>r \<in> set rows'. P r) = (\<forall>r \<in> set rows. P r)"
proof -
  have "(\<forall>r \<in> set rs. P r) = (\<forall>x \<in> set (map essence rs). P x)" for rs using assms(2) by simp
  then show ?thesis by (metis assms(1))
qed

lemma truthful_essence: "map essence rows' = map essence rows \<Longrightarrow> truthful topic told s rows' = truthful topic told s rows"
  unfolding truthful_def by (rule essence_image) simp_all

lemma events_of_essence:
  assumes "map essence rows' = map essence rows"
  shows "length (events_of ty k rows') = length (events_of ty k rows)"
proof -
  have "length (events_of ty k rs) = length (events_of ty k (map essence rs))" for rs
    by (simp add: events_of_def filter_map comp_def)
  then show ?thesis by (metis assms)
qed

lemma orders_ok_essence:
  assumes "map essence rows' = map essence (os_outbox s)"
  shows "orders_ok (s\<lparr>os_outbox := rows'\<rparr>) = orders_ok s"
  using essence_image[OF assms, of "\<lambda>r. ob_aggregate_id r \<in> ow_id ` set (os_orders s)"]
  by (simp add: orders_ok_def order_consistent_def events_of_essence[OF assms])

lemma record_true:
  assumes "truthful order_topic order_told s rows \<or> truthful delivery_topic delivery_told t rows \<or>
      truthful inventory_topic inventory_told c rows" and "m \<in> record_of ` set rows"
  shows "log_true c s t m"
  using assms by (auto simp: truthful_def log_true_def record_of_def Let_def)

text \<open>What the simulator sends are locations.\<close>

lemma publish_locations:
  assumes "publish e broker p sent = (res, sent')"
  shows "\<exists>new. sent' = sent @ new \<and> (\<forall>m \<in> set new. log_true c s t m)"
proof -
  have "log_true c s t \<lparr>kr_topic = ''freshflow.courier.location.v1'', kr_key = k, kr_value = Some (Marshal v), kr_headers = h\<rparr>"
    if "New e y ''courier.location_updated'' prd agg q = Inr v" for y prd agg q v k h
  proof -
    have "Unmarshal (Some (Marshal v)) = Inr v"
      by (rule envelope_roundtrip) (use that in \<open>auto simp: New_Inr\<close>)
    then show ?thesis using that topics_differ
      by (auto simp: log_true_def location_told_def location_topic_def New_Inr order_topic_def delivery_topic_def inventory_topic_def)
  qed
  then show ?thesis using assms
    by (auto simp: publish_def Let_def split: sum.splits if_splits produce_outcome.splits)
qed

lemma report_locations:
  "\<exists>new. rn_sent (report es broker items now ic r) = rn_sent r @ new \<and> (\<forall>m \<in> set new. log_true c s t m)"
proof -
  obtain index base where ic: "ic = (index, base)" by (cases ic)
  let ?p = "(simulatedLocation base (assignment_of items (bc_id base)) now index)\<lparr>lp_sequence := wrap64 (rn_sequence r + 1)\<rparr>"
  obtain res sent' where p: "publish (es index) broker ?p (rn_sent r) = (res, sent')" by fastforce
  then have "rn_sent (report es broker items now ic r) = sent'"
    by (auto simp: report_def ic Let_def split: sum.splits)
  then show ?thesis using publish_locations[OF p] by simp
qed

lemma tick_locations:
  "\<exists>new. rn_sent (tick e es broker ans r) = rn_sent r @ new \<and> (\<forall>m \<in> set new. log_true c s t m)"
proof -
  have "\<exists>new. rn_sent (fold (report es broker items now) ics r) = rn_sent r @ new \<and> (\<forall>m \<in> set new. log_true c s t m)"
    for items now ics
  proof (induction ics arbitrary: r)
    case (Cons ic ics)
    obtain n1 n2 where "rn_sent (report es broker items now ic r) = rn_sent r @ n1" "\<forall>m \<in> set n1. log_true c s t m"
      "rn_sent (fold (report es broker items now) ics (report es broker items now ic r)) =
        rn_sent (report es broker items now ic r) @ n2" "\<forall>m \<in> set n2. log_true c s t m"
      using report_locations Cons.IH by metis
    then show ?case by (intro exI[of _ "n1 @ n2"]) auto
  qed simp
  then show ?thesis by (simp add: tick_def Let_def)
qed

section \<open>The invariant of the network\<close>

definition notices_ok :: "orders \<Rightarrow> notifications \<Rightarrow> bool" where
  "notices_ok s u \<longleftrightarrow> (\<forall>x \<in> set (nf_log u). row_find ow_id (nt_order x) (os_orders s) \<noteq> None)"

definition network_ok :: "network \<Rightarrow> bool" where
  "network_ok n \<longleftrightarrow> catalog_ok (nw_catalog n) \<and> orders_ok (nw_orders n) \<and> fleet_ok (nw_deliveries n) \<and>
     truthful inventory_topic inventory_told (nw_catalog n) (ct_outbox (nw_catalog n)) \<and>
     truthful order_topic order_told (nw_orders n) (os_outbox (nw_orders n)) \<and>
     truthful delivery_topic delivery_told (nw_deliveries n) (ds_outbox (nw_deliveries n)) \<and>
     (\<forall>m \<in> set (nw_log n). log_true (nw_catalog n) (nw_orders n) (nw_deliveries n) m) \<and>
     agree (nw_orders n) (nw_deliveries n) \<and> notices_ok (nw_orders n) (nw_notifications n)"

lemma order_kept: "osteps_if T s s' \<Longrightarrow> row_find ow_id k (os_orders s) \<noteq> None \<Longrightarrow> row_find ow_id k (os_orders s') \<noteq> None"
  using osteps_order_kept by fastforce

lemma network_orders_step:
  assumes "network_ok n" and "osteps_if T (nw_orders n) s'" and "nw_orders n' = s'"
    and "nw_catalog n' = nw_catalog n" "nw_deliveries n' = nw_deliveries n" "nw_log n' = nw_log n" "nw_notifications n' = nw_notifications n"
    and "\<And>k st. T k st \<Longrightarrow> st = ''cancelled'' \<or> backed (nw_deliveries n) k st"
  shows "network_ok n'"
  unfolding network_ok_def assms(3-7)
proof (intro conjI)
  have ok: "orders_ok (nw_orders n)" using assms(1) by (simp add: network_ok_def)
  show "orders_ok s'" by (rule osteps_ok[OF assms(2) ok])
  show "truthful order_topic order_told s' (os_outbox s')"
    using order_news.steps_truthful[OF assms(2) ok] assms(1) by (simp add: network_ok_def)
  have "log_true (nw_catalog n) (nw_orders n) (nw_deliveries n) m \<Longrightarrow> log_true (nw_catalog n) s' (nw_deliveries n) m" for m
    using order_news.steps_told[OF assms(2) ok] unfolding log_true_def by blast
  then show "\<forall>m \<in> set (nw_log n). log_true (nw_catalog n) s' (nw_deliveries n) m" using assms(1) by (simp add: network_ok_def)
  show "agree s' (nw_deliveries n)"
    by (rule agree_orders[OF assms(2) _ assms(8)]) (use assms(1) in \<open>simp_all add: network_ok_def\<close>)
  show "notices_ok s' (nw_notifications n)"
    using order_kept[OF assms(2)] assms(1) by (simp add: network_ok_def notices_ok_def)
qed (use assms(1) in \<open>simp_all add: network_ok_def\<close>)

lemma network_deliveries_step:
  assumes "network_ok n" and "dsteps_if D C (nw_deliveries n) t'" and "nw_deliveries n' = t'"
    and "nw_catalog n' = nw_catalog n" "nw_orders n' = nw_orders n" "nw_log n' = nw_log n" "nw_notifications n' = nw_notifications n"
    and "\<And>d. D d \<Longrightarrow> dr_status d = ''assigned'' \<Longrightarrow> sited (nw_orders n) d"
    and "\<And>d. C d \<Longrightarrow> \<exists>w. row_find ow_id (dr_order d) (os_orders (nw_orders n)) = Some w \<and> ow_status w = ''cancelled''"
  shows "network_ok n'"
  unfolding network_ok_def assms(3-7)
proof (intro conjI)
  have ok: "fleet_ok (nw_deliveries n)" using assms(1) by (simp add: network_ok_def)
  show "fleet_ok t'" by (rule dsteps_ok[OF assms(2) ok])
  show "truthful delivery_topic delivery_told t' (ds_outbox t')"
    using delivery_news.steps_truthful[OF assms(2) ok] assms(1) by (simp add: network_ok_def)
  have "log_true (nw_catalog n) (nw_orders n) (nw_deliveries n) m \<Longrightarrow> log_true (nw_catalog n) (nw_orders n) t' m" for m
    using delivery_news.steps_told[OF assms(2) ok] unfolding log_true_def by blast
  then show "\<forall>m \<in> set (nw_log n). log_true (nw_catalog n) (nw_orders n) t' m" using assms(1) by (simp add: network_ok_def)
  show "agree (nw_orders n) t'"
    by (rule agree_deliveries[OF assms(2) ok _ assms(8,9)]) (use assms(1) in \<open>simp_all add: network_ok_def\<close>)
qed (use assms(1) in \<open>simp_all add: network_ok_def\<close>)

lemma network_catalog_step:
  assumes "network_ok n" and "catalog_moves collate (nw_catalog n) c"
  shows "network_ok (set_catalog c n)"
proof -
  note m = catalog_moves_moved[OF assms(2)]
  have ok: "catalog_ok (nw_catalog n)" using assms(1) by (simp add: network_ok_def)
  have "log_true (nw_catalog n) s t r \<Longrightarrow> log_true c s t r" for s t r
    using inventory_news.steps_told[OF m ok] unfolding log_true_def by blast
  then show ?thesis
    using assms(1) inventory_news.steps_ok[OF m ok] inventory_news.steps_truthful[OF m ok]
    by (auto simp: network_ok_def set_catalog_def)
qed

text \<open>What a record asks for is backed by what its sender did.\<close>

lemma asked_is_backed:
  assumes "delivery_told t x" and "asks (Some x) k st"
  shows "backed t k st"
  using assms unfolding delivery_told_def asks_def backed_def by force

lemma called_for_is_sited:
  assumes "order_told s x" and "called_for (Some x) d" and "dr_status d = ''assigned''"
  shows "sited s d"
proof -
  obtain v p where v: "Unmarshal (Some x) = Inr v" "EventType v = ''order.created''"
      "decode_order_created (Payload v) = Inr p" "for_order p d"
    using assms(2) unfolding called_for_def by blast
  obtain k w where "row_find ow_id k (os_orders s) = Some w" "uuid_key (oc_order p) = Some k" "oc_lat p = ow_lat w" "oc_lon p = ow_lon w"
    using assms(1) v unfolding order_told_def by force
  then show ?thesis using v(4) assms(3) by (auto simp: sited_def for_order_def)
qed

lemma called_off_is_cancelled:
  assumes "order_told s x" and "called_off (Some x) d"
  shows "\<exists>w. row_find ow_id (dr_order d) (os_orders s) = Some w \<and> ow_status w = ''cancelled''"
  using assms unfolding order_told_def called_off_def by force

lemma received_in: "received topics i l = Some m \<Longrightarrow> m \<in> set l \<and> kr_topic m \<in> set topics"
  by (auto simp: received_def split: if_splits)

lemma received_true:
  assumes "network_ok n" and "received topics i (nw_log n) = Some m"
  obtains x where "kr_value m = Some x" "kr_topic m \<in> set topics"
    "kr_topic m = order_topic \<Longrightarrow> order_told (nw_orders n) x"
    "kr_topic m = delivery_topic \<Longrightarrow> delivery_told (nw_deliveries n) x"
    "kr_topic m = location_topic \<Longrightarrow> location_told x"
  using assms received_in unfolding network_ok_def log_true_def by metis

lemma client_step:
  assumes "network_ok n"
  shows "network_ok (n\<lparr>nw_platform := snd (public_request d su r (nw_platform n))\<rparr>)"
proof -
  let ?p = "snd (public_request d su r (nw_platform n))"
  have m: "catalog_moves (dp_collate d) (nw_catalog n) (pf_catalog ?p)" "order_requests (nw_orders n) (pf_orders ?p)"
      "dsteps_if (\<lambda>_. False) (\<lambda>_. False) (nw_deliveries n) (pf_deliveries ?p)"
    using public_request_moves[of d "nw_platform n" su r] assms
    by (auto simp: client_moves_def delivery_requests_def network_ok_def)
  have n1: "network_ok (set_catalog (pf_catalog ?p) n)" using assms m(1) by (rule network_catalog_step)
  have "network_ok (set_orders (pf_orders ?p) (set_catalog (pf_catalog ?p) n))"
    by (rule network_orders_step[where T = "\<lambda>_ st. st = ''cancelled''", OF n1])
      (use m(2) in \<open>simp_all add: set_orders_def set_catalog_def\<close>)
  then have "network_ok (set_deliveries (pf_deliveries ?p) (set_orders (pf_orders ?p) (set_catalog (pf_catalog ?p) n)))"
    by (rule network_deliveries_step[where D = "\<lambda>_. False" and C = "\<lambda>_. False"])
      (use m(3) in \<open>simp_all add: set_orders_def set_deliveries_def set_catalog_def\<close>)
  then show ?thesis by (simp add: network_ok_def set_orders_def set_deliveries_def set_catalog_def)
qed

lemma told_fields [simp]:
  "order_told (s\<lparr>os_outbox := rows\<rparr>) = order_told s"
  "delivery_told (t\<lparr>ds_outbox := rows\<rparr>) = delivery_told t" "delivery_told (t\<lparr>ds_geo := g\<rparr>) = delivery_told t"
  "log_true c (s\<lparr>os_outbox := rows\<rparr>) = log_true c s" "log_true c s (t\<lparr>ds_outbox := rows\<rparr>) = log_true c s t"
  "log_true c s (t\<lparr>ds_geo := g\<rparr>) = log_true c s t" "inventory_told (c\<lparr>ct_outbox := rows\<rparr>) = inventory_told c"
  "log_true (c\<lparr>ct_outbox := rows\<rparr>) = log_true c" "catalog_ok (c\<lparr>ct_outbox := rows\<rparr>) = catalog_ok c"
  "inventory_told (c\<lparr>ct_cache := x\<rparr>) = inventory_told c" "log_true (c\<lparr>ct_cache := x\<rparr>) = log_true c"
  "catalog_ok (c\<lparr>ct_cache := x\<rparr>) = catalog_ok c"
  "agree (s\<lparr>os_outbox := rows\<rparr>) t = agree s t" "agree s (t\<lparr>ds_outbox := rows\<rparr>) = agree s t"
  "agree s (t\<lparr>ds_geo := g\<rparr>) = agree s t" "notices_ok (s\<lparr>os_outbox := rows\<rparr>) u = notices_ok s u"
  "fleet_ok (t\<lparr>ds_outbox := rows\<rparr>) = fleet_ok t" "fleet_ok (t\<lparr>ds_geo := g\<rparr>) = fleet_ok t"
  by (simp_all add: fun_eq_iff order_told_def delivery_told_def log_true_def agree_def sited_def backed_def notices_ok_def
      fleet_ok_def working_def inventory_told_def catalog_ok_def)

lemma truthful_fields [simp]:
  "truthful topic inventory_told (c\<lparr>ct_outbox := rows\<rparr>) = truthful topic inventory_told c"
  "truthful topic inventory_told (c\<lparr>ct_cache := x\<rparr>) = truthful topic inventory_told c"
  "truthful topic order_told (s\<lparr>os_outbox := rows\<rparr>) = truthful topic order_told s"
  "truthful topic delivery_told (t\<lparr>ds_outbox := rows\<rparr>) = truthful topic delivery_told t"
  "truthful topic delivery_told (t\<lparr>ds_geo := g\<rparr>) = truthful topic delivery_told t"
  by (simp_all add: fun_eq_iff truthful_def)

lemma relay_step:
  assumes "network_ok n"
  shows "network_ok (network_step d (RelayOrders q) n)" "network_ok (network_step d (RelayDeliveries q) n)"
    "network_ok (network_step d (RelayCatalog q) n)"
proof -
  obtain rows'' l'' where c: "relayed q (ct_outbox (nw_catalog n)) (nw_log n) = (rows'', l'')" by fastforce
  from relayed_result[OF c] obtain new'' where g: "map essence rows'' = map essence (ct_outbox (nw_catalog n))"
      "l'' = nw_log n @ new''" "set new'' \<subseteq> record_of ` set (ct_outbox (nw_catalog n))" by blast
  have "log_true (nw_catalog n) (nw_orders n) (nw_deliveries n) m" if "m \<in> set new''" for m
    using that g(3) assms by (intro record_true[where rows = "ct_outbox (nw_catalog n)"]) (auto simp: network_ok_def)
  then show "network_ok (network_step d (RelayCatalog q) n)"
    using assms c g truthful_essence[OF g(1), of inventory_topic inventory_told "nw_catalog n"]
    by (auto simp: network_ok_def set_catalog_def)
  obtain rows l where o: "relayed q (os_outbox (nw_orders n)) (nw_log n) = (rows, l)" by fastforce
  from relayed_result[OF o] obtain new where e: "map essence rows = map essence (os_outbox (nw_orders n))"
      "l = nw_log n @ new" "set new \<subseteq> record_of ` set (os_outbox (nw_orders n))" by blast
  have "log_true (nw_catalog n) (nw_orders n) (nw_deliveries n) m" if "m \<in> set new" for m
    using that e(3) assms by (intro record_true[where rows = "os_outbox (nw_orders n)"]) (auto simp: network_ok_def)
  then show "network_ok (network_step d (RelayOrders q) n)"
    using assms o e truthful_essence[OF e(1), of order_topic order_told "nw_orders n"] orders_ok_essence[OF e(1)]
    by (auto simp: network_ok_def set_orders_def)
  obtain rows' l' where t: "relayed q (ds_outbox (nw_deliveries n)) (nw_log n) = (rows', l')" by fastforce
  from relayed_result[OF t] obtain new' where f: "map essence rows' = map essence (ds_outbox (nw_deliveries n))"
      "l' = nw_log n @ new'" "set new' \<subseteq> record_of ` set (ds_outbox (nw_deliveries n))" by blast
  have "log_true (nw_catalog n) (nw_orders n) (nw_deliveries n) m" if "m \<in> set new'" for m
    using that f(3) assms by (intro record_true[where rows = "ds_outbox (nw_deliveries n)"]) (auto simp: network_ok_def)
  then show "network_ok (network_step d (RelayDeliveries q) n)"
    using assms t f truthful_essence[OF f(1), of delivery_topic delivery_told "nw_deliveries n"] by (auto simp: network_ok_def set_deliveries_def)
qed

lemma consumer_step:
  assumes "network_ok n"
  shows "network_ok (network_step d (OrderReceives i tracer e) n)"
    "network_ok (network_step d (DeliveryReceives i con e) n)"
    "network_ok (network_step d (NotificationReceives i e) n)"
proof -
  show "network_ok (network_step d (OrderReceives i tracer e) n)"
  proof (cases "received [delivery_topic] i (nw_log n)")
    case (Some m)
    from received_true[OF assms Some] obtain x where x: "kr_value m = Some x" "delivery_told (nw_deliveries n) x"
      by (metis empty_iff list.set(1,2) insert_iff)
    have "osteps_if (asks (Some x)) (nw_orders n) (snd (Orders.handle_event tracer e (Some x) (nw_orders n)))"
      by (rule handle_event_guarded[of tracer e "Some x" "nw_orders n"
          "fst (Orders.handle_event tracer e (Some x) (nw_orders n))"]) simp
    then have "network_ok (set_orders (snd (Orders.handle_event tracer e (Some x) (nw_orders n))) n)"
      by (rule network_orders_step[OF assms]) (use asked_is_backed[OF x(2)] in \<open>simp_all add: set_orders_def\<close>)
    then show ?thesis using Some x(1) by simp
  qed (use assms in simp)
  show "network_ok (network_step d (DeliveryReceives i con e) n)"
  proof (cases "received [order_topic, location_topic] i (nw_log n)")
    case (Some m)
    let ?t = "snd (Delivery.handle_event con e (kr_value m) (nw_deliveries n))"
    from received_true[OF assms Some] obtain x where x: "kr_value m = Some x"
      "order_told (nw_orders n) x \<or> location_told x"
      by (metis empty_iff list.set(1,2) insert_iff)
    have no: "\<not> called_for (Some x) d \<and> \<not> called_off (Some x) d" if "location_told x" for d
      using that unfolding location_told_def called_for_def called_off_def by force
    have "fleet_ok (nw_deliveries n)" using assms by (simp add: network_ok_def)
    then have "dsteps_if (called_for (Some x)) (called_off (Some x)) (nw_deliveries n) ?t"
      unfolding x(1) by (rule consumer_guarded)
    then have "network_ok (set_deliveries ?t n)"
      by (rule network_deliveries_step[OF assms])
        (use x(2) no called_for_is_sited called_off_is_cancelled in \<open>auto simp: set_deliveries_def\<close>)
    then show ?thesis using Some by simp
  qed (use assms in simp)
  show "network_ok (network_step d (NotificationReceives i e) n)"
  proof (cases "received [order_topic] i (nw_log n)")
    case (Some m)
    from received_true[OF assms Some] obtain x where x: "kr_value m = Some x" "order_told (nw_orders n) x"
      by (metis empty_iff list.set(1,2) insert_iff)
    obtain r u where h: "Notification.handle_event e (Some x) (nw_notifications n) = (r, u)" by fastforce
    have "notices_ok (nw_orders n) u"
      using h
    proof (cases rule: Notification.handle_event_cases)
      case (recorded v message)
      then show ?thesis using x(2) assms
        by (auto simp: notified_def order_told_def notices_ok_def network_ok_def)
    qed (use assms in \<open>simp add: network_ok_def\<close>)
    then show ?thesis using Some x(1) h assms by (simp add: network_ok_def)
  qed (use assms in simp)
qed

lemma forecast_step:
  assumes "network_ok n"
  shows "network_ok (network_step d (Forecast e j f x) n)"
proof -
  have "dsteps_if (\<lambda>_. False) (\<lambda>_. False) (nw_deliveries n) (snd (save e j f x (nw_deliveries n)))"
    by (rule save_guarded)
  then show ?thesis by (rule network_deliveries_step[OF assms]) simp_all
qed

lemma network_step_ok:
  assumes "network_ok n"
  shows "network_ok (network_step d op n)"
proof (cases op)
  case (Client su r)
  then show ?thesis using client_step[OF assms] by simp
next
  case (Tick q)
  obtain new where "rn_sent (ticked q n) = nw_log n @ new" "\<forall>m \<in> set new. log_true (nw_catalog n) (nw_orders n) (nw_deliveries n) m"
    using tick_locations[of "sr_env q" "sr_envs q" "sr_broker q" "sr_answer q"
        "(nw_runner n)\<lparr>rn_sent := nw_log n, rn_geo := ds_geo (nw_deliveries n)\<rparr>"
        "nw_catalog n" "nw_orders n" "nw_deliveries n"]
    by (auto simp: ticked_def)
  then show ?thesis using assms Tick by (auto simp: network_ok_def set_deliveries_def)
next
  case (Replayed i)
  have "log_true (nw_catalog n) (nw_orders n) (nw_deliveries n) ((nw_log n ! i)\<lparr>kr_headers := []\<rparr>)" if "i < length (nw_log n)"
    using that assms nth_mem[OF that] by (auto simp: network_ok_def log_true_def)
  then show ?thesis using assms Replayed by (auto simp: network_ok_def)
next
  case (AnalyticsReceives i up e)
  then show ?thesis using assms by (simp add: network_ok_def split: option.split)
next
  case (Expires key)
  then show ?thesis using assms by (simp add: network_ok_def split: option.split)
qed (simp_all only: relay_step[OF assms] consumer_step[OF assms] forecast_step[OF assms])

lemma network_run_ok: "network_ok n \<Longrightarrow> network_ok (network_run d ops n)"
  unfolding network_run_def by (induction ops arbitrary: n) (simp_all add: network_step_ok)

section \<open>Properties\<close>

text \<open>Before the first order: no orders, no deliveries, nothing to send or sent and nobody notified.\<close>

definition at_start :: "network \<Rightarrow> bool" where
  "at_start n \<longleftrightarrow> catalog_ok (nw_catalog n) \<and> ct_outbox (nw_catalog n) = [] \<and> orders_ok (nw_orders n) \<and> fleet_ok (nw_deliveries n) \<and> os_orders (nw_orders n) = [] \<and>
     os_outbox (nw_orders n) = [] \<and> ds_deliveries (nw_deliveries n) = [] \<and> ds_outbox (nw_deliveries n) = [] \<and>
     nw_log n = [] \<and> nf_log (nw_notifications n) = []"

lemma at_start_ok: "at_start n \<Longrightarrow> network_ok n"
  by (simp add: at_start_def network_ok_def truthful_def agree_def notices_ok_def)

text \<open>How far an order or a delivery has come, as a number; 0 for one not yet confirmed or cancelled.\<close>

definition phase_of :: "string \<Rightarrow> nat" where
  "phase_of st =
     (if st = ''confirmed'' \<or> st = ''assigned'' then 1 else if st = ''assembling'' then 2
      else if st = ''delivering'' then 3 else if st = ''delivered'' \<or> st = ''completed'' then 4 else 0)"

lemma backs_phase:
  assumes "backs status st" and "status \<in> set delivery_statuses" and "status \<noteq> ''cancelled''"
  shows "phase_of st \<le> phase_of status"
proof -
  have "status = ''assigned'' \<or> status = ''assembling'' \<or> status = ''delivering'' \<or> status = ''completed''"
    using assms(2,3) by (simp add: delivery_statuses_def)
  then show ?thesis using assms(1)
    by (elim disjE) (simp_all add: backs_def reached_def phase_of_def split: if_splits)
qed

text \<open>What agreement says of one delivery, and of one order.\<close>

lemma agree_delivery:
  assumes "agree s t" and "d \<in> set (ds_deliveries t)"
  shows "\<exists>w \<in> set (os_orders s). ow_id w = dr_order d \<and> dr_dest_lat d = ow_lat w \<and> dr_dest_lon d = ow_lon w \<and>
    (dr_status d = ''cancelled'' \<longrightarrow> ow_status w = ''cancelled'')"
proof -
  obtain w where w: "row_find ow_id (dr_order d) (os_orders s) = Some w" "dr_dest_lat d = ow_lat w"
      "dr_dest_lon d = ow_lon w" "dr_status d = ''cancelled'' \<longrightarrow> ow_status w = ''cancelled''"
    using assms unfolding agree_def sited_def by blast
  show ?thesis using w(2-4) row_find_SomeD[OF w(1)] by blast
qed

lemma agree_order:
  assumes "agree s t" and "fleet_ok t" and "distinct (map ow_id (os_orders s))"
    and w: "w \<in> set (os_orders s)" and p: "0 < phase_of (ow_status w)"
  shows "\<exists>d \<in> set (ds_deliveries t). dr_order d = ow_id w \<and> phase_of (ow_status w) \<le> phase_of (dr_status d)"
proof -
  have open_w: "ow_status w \<notin> {''created'', ''cancelled''}" using p by (auto simp: phase_of_def)
  then obtain d where d: "row_find dr_order (ow_id w) (ds_deliveries t) = Some d" "backs (dr_status d) (ow_status w)"
    using assms(1) w unfolding agree_def backed_def by blast
  note f = row_find_SomeD[OF d(1)]
  obtain w' where w': "w' \<in> set (os_orders s)" "ow_id w' = dr_order d" "dr_status d = ''cancelled'' \<longrightarrow> ow_status w' = ''cancelled''"
    using agree_delivery[OF assms(1)] f by blast
  then have "w' = w" using f w key_unique[OF assms(3)] by metis
  then have "dr_status d \<noteq> ''cancelled''" using w'(3) open_w by blast
  moreover have "dr_status d \<in> set delivery_statuses" using f assms(2) by (auto simp: fleet_ok_def regular_def)
  ultimately show ?thesis using f backs_phase[OF d(2)] by blast
qed

text \<open>
  C3 The order service and the delivery service agree, whatever clients, the relays, the simulator
  and the consumers do, in whatever order and however often records are received, and whatever
  fails: every delivery is for an order that was placed, goes to the address of that order and is
  cancelled only if the order is; an order that is confirmed or further has a delivery, which is at
  least as far, so an order reads delivered only when its delivery is completed, by the courier's
  report or by an operator; and whoever was notified was notified of an order that exists.
\<close>

theorem services_agree:
  assumes "at_start n"
  shows "(\<forall>t \<in> set (ds_deliveries (nw_deliveries (network_run d ops n))).
      \<exists>w \<in> set (os_orders (nw_orders (network_run d ops n))). ow_id w = dr_order t \<and>
        dr_dest_lat t = ow_lat w \<and> dr_dest_lon t = ow_lon w \<and>
        (dr_status t = ''cancelled'' \<longrightarrow> ow_status w = ''cancelled'')) \<and>
    (\<forall>w \<in> set (os_orders (nw_orders (network_run d ops n))). 0 < phase_of (ow_status w) \<longrightarrow>
      (\<exists>t \<in> set (ds_deliveries (nw_deliveries (network_run d ops n))). dr_order t = ow_id w \<and>
        phase_of (ow_status w) \<le> phase_of (dr_status t))) \<and>
    (\<forall>x \<in> set (nf_log (nw_notifications (network_run d ops n))).
      nt_order x \<in> ow_id ` set (os_orders (nw_orders (network_run d ops n))))"
proof -
  have ok: "network_ok (network_run d ops n)" by (rule network_run_ok[OF at_start_ok[OF assms]])
  then have "agree (nw_orders (network_run d ops n)) (nw_deliveries (network_run d ops n))"
      "fleet_ok (nw_deliveries (network_run d ops n))"
      "distinct (map ow_id (os_orders (nw_orders (network_run d ops n))))"
    by (simp_all add: network_ok_def orders_ok_def)
  note both = agree_delivery[OF this(1)] agree_order[OF this]
  have "\<forall>x \<in> set (nf_log (nw_notifications (network_run d ops n))).
      nt_order x \<in> ow_id ` set (os_orders (nw_orders (network_run d ops n)))"
    using ok unfolding network_ok_def notices_ok_def row_find_None_iff by blast
  then show ?thesis using both by blast
qed

section \<open>The first sale\<close>

text \<open>
  A shop with a filled cart, a free courier and no orders: the client checks out, the order is
  relayed, the delivery service assigns the courier and relays that, and the order is confirmed.
\<close>

definition first_day :: network where
  "first_day = \<lparr>nw_platform = open_shop
       \<lparr>pf_carts := cart_db,
        pf_orders := order_db\<lparr>os_orders := [], os_items := [], os_history := [], os_outbox := []\<rparr>,
        pf_deliveries := \<lparr>ds_couriers = [courier_of courier_2 ''available''], ds_deliveries = [], ds_predictions = [],
          ds_processed = [], ds_outbox = [], ds_geo = [(courier_2, 0, 1)]\<rparr>\<rparr>,
     nw_runner = \<lparr>rn_sequence = 0, rn_sent = [], rn_geo = [], rn_state = Map.empty\<rparr>,
     nw_notifications = \<lparr>nf_processed = [], nf_log = []\<rparr>, nw_log = []\<rparr>"

definition place_order :: http_request where
  "place_order = (Gateway.sample_request ''POST'' ''/api/v1/orders'')
     \<lparr>hr_idempotency := ''key-7'',
      hr_body := \<lparr>bd_size = 60, bd_values = [(Some (JObj [(''user_id'', JStr demo_user), (''cart_version'', JInt 3)]), 60)]\<rparr>\<rparr>"

definition sound_relay :: relay_round where
  "sound_relay = \<lparr>ry_env = label_env, ry_broker = (\<lambda>_. Produced), ry_error = (\<lambda>_. []), ry_locked = (\<lambda>_. False)\<rparr>"


definition first_ops :: "network_op list" where
  "first_ops = [Client calm place_order, RelayOrders sound_relay, DeliveryReceives 0 sample_dispatcher label_env,
     RelayDeliveries sound_relay, OrderReceives 1 None label_env]"

definition first_sale :: "orders \<times> deliveries \<times> kafka_record list \<times> kafka_record list" where
  "first_sale =
     (case public_request demo_deployment calm place_order (nw_platform first_day) of (_, p) \<Rightarrow>
      case relayed sound_relay (os_outbox (pf_orders p)) [] of (rows, l) \<Rightarrow>
      case Delivery.handle_event sample_dispatcher label_env (kr_value (l ! 0)) (pf_deliveries p) of (_, t) \<Rightarrow>
      case relayed sound_relay (ds_outbox t) l of (rows', l') \<Rightarrow>
      case Orders.handle_event None label_env (kr_value (l' ! 1)) ((pf_orders p)\<lparr>os_outbox := rows\<rparr>) of (_, s) \<Rightarrow>
        (s, t\<lparr>ds_outbox := rows'\<rparr>, l, l'))"

lemma first_sale_run:
  assumes "first_sale = (s, t, l, l')" and "map kr_topic l = [order_topic]" and "map kr_topic l' = [order_topic, delivery_topic]"
  shows "nw_orders (network_run demo_deployment first_ops first_day) = s \<and>
    nw_deliveries (network_run demo_deployment first_ops first_day) = t"
proof -
  have l: "received [order_topic, location_topic] 0 l = Some (l ! 0)" "received [delivery_topic] 1 l' = Some (l' ! 1)"
    using assms(2,3) by (auto simp: received_def map_eq_Cons_conv)
  have "nw_log first_day = []" by (simp add: first_day_def)
  then show ?thesis
    using assms(1) l by (simp add: first_sale_def first_ops_def network_run_def set_orders_def set_deliveries_def split: prod.splits)
qed

lemma first_sale_confirmed:
  "(case first_sale of (s, t, l, l') \<Rightarrow>
     map ow_status (os_orders s) = [''confirmed''] \<and> map dr_status (ds_deliveries t) = [''assigned''] \<and>
     map kr_topic l = [order_topic] \<and> map kr_topic l' = [order_topic, delivery_topic])"
  by code_simp

lemma shop_outbox: "ct_outbox shop = []"
  by (simp add: shop_def)

lemma first_day_starts: "at_start first_day"
  by (simp add: at_start_def first_day_def open_shop_def shop_ok shop_outbox order_db_def orders_ok_def fleet_ok_def order_consistent_def
      courier_of_def working_def active_def)

theorem services_agree_witness:
  "map ow_status (os_orders (nw_orders (network_run demo_deployment first_ops first_day))) = [''confirmed''] \<and>
   map dr_status (ds_deliveries (nw_deliveries (network_run demo_deployment first_ops first_day))) = [''assigned''] \<and>
   map (\<lambda>d. (dr_order d, dr_dest_lat d, dr_dest_lon d))
       (ds_deliveries (nw_deliveries (network_run demo_deployment first_ops first_day))) =
     map (\<lambda>w. (ow_id w, ow_lat w, ow_lon w)) (os_orders (nw_orders (network_run demo_deployment first_ops first_day)))"
proof -
  obtain s t l l' where f: "first_sale = (s, t, l, l')" by (cases first_sale) auto
  note c = first_sale_confirmed[unfolded f prod.case]
  note r = first_sale_run[OF f c[THEN conjunct2, THEN conjunct2, THEN conjunct1] c[THEN conjunct2, THEN conjunct2, THEN conjunct2]]
  obtain w d where "os_orders s = [w]" "ds_deliveries t = [d]" using c by (auto simp: map_eq_Cons_conv)
  then show ?thesis using c r services_agree[OF first_day_starts, of demo_deployment first_ops] by simp
qed

end
