(* ===== verification/Spec2Isabelle.thy ===== *)
theory Spec2Isabelle
  imports StockProps OrderProps CartProps Saga DeliveryProps SimulatorProps Notification DashboardProps DlqReplay
    ReplayFlags Config Tracing Platform Workers Network Startup
begin

text \<open>
  Verification of FreshFlow, a grocery delivery platform written in Go: a set of services over
  PostgreSQL, Redis, Kafka and ClickHouse behind an HTTP gateway. A shopper fills a cart
  (cart-service), places an order (order-service, which reads the cart and reserves stock in
  catalog-service over HTTP), a courier is assigned and followed to the door (delivery-service, fed
  by courier-simulator), and the notification-worker and analytics-worker consume the events. Every
  service writes its events to an outbox table in the transaction that changes its state; a relay
  publishes the rows to Kafka; every consumer retries a record a bounded number of times and then
  writes it to a dead-letter topic, and records the events it has applied in an inbox table.

  How the code is read. A service's state is a record of its tables (lists of rows in the order
  of insertion), its Redis keys and its outbox. An operation takes the surroundings of the call
  (\<open>env\<close>, theory Sql): which calls to the database or the network fail, named by labels, what a
  commit does (it succeeds, is refused, or is carried out while its answer is lost), the clock and
  the random bytes. It returns a result, with every error of the code as a value, and the state it
  leaves. A transaction is atomic: the body runs on a copy and its state is kept when the commit
  goes through (\<open>with_tx\<close>). The theorems hold for all surroundings, so for every pattern of failing
  calls and lost commits, and over all histories (lists of operations, each with its own
  surroundings). Requests that the code serialises with row locks or advisory locks are steps that
  do not overlap; concurrent operations are the interleavings of whole transactions.

  Theories and sources.
  \<^item> Prelude, Ids (pkg/platform/id/id.go), Sql (statements, constraints, transactions), Events
    (JSON values, decoding into structs, pkg/platform/events/envelope.go).
  \<^item> Config (pkg/platform/envconfig/envconfig.go and the gateway's internal/config/config.go): what
    is read from the environment, with the parsers of integers and durations; C39.
  \<^item> Telemetry, Tracing (pkg/platform/telemetry/telemetry.go): what every observation does to the
    metrics; the sampling ratio with \<open>strconv.ParseFloat\<close>, and the span a consumer opens for an event.
  \<^item> Outbox (pkg/platform/outbox/outbox.go): \<open>Insert\<close>, the batch a relay reads (at most 50 rows)
    and \<open>publishBatch\<close>. C13 to C15: what is marked was sent, rows leave in order, and rounds without
    failures (\<open>relay_rounds\<close>) send every waiting event once.
  \<^item> Kafkax (pkg/platform/kafkax/retry.go): the retry loop, dead letters and the loop that
    publishes them. That loop ends only when a publication succeeds or the context is cancelled,
    so it is an option-valued function; C11 shows that it returns once either happens. C9 to C11.
  \<^item> Inbox: the contract of the consumers as the locale \<open>inbox\<close>, interpreted on the handlers of
    the order, delivery and notification consumers.
  \<^item> Httpx, Server (pkg/platform/httpx/httpx.go and health/health.go): API errors, strict decoding
    of bodies, correlation ids, Go's \<open>ServeMux\<close>, readiness, and the middleware \<open>Wrap\<close> with its access
    log and its recovery from panics; C17.
  \<^item> Gateway (services/api-gateway): its routes and reverse proxies; C16: what is forwarded, where
    to and as what, also for service URLs with a path, which the gateway does not handle.
  \<^item> Catalog, Stock, StockProps (services/catalog-service): products, reservations and releases;
    C1 and C4 to C8: stock is conserved, a reservation is decided by what is on the shelf, happens
    at most once per checkout attempt, is remembered, and a release restores the shelf.
  \<^item> Orders, OrderSteps, OrderRefine, OrderHistory, OrderProps (services/order-service): OrderSteps
    holds the abstract state machine of an order, OrderRefine shows that every operation is a
    sequence of its steps, OrderHistory that history and events record them; C18 to C23.
    \<open>as_stored\<close> is what the database makes of an order, and so what is read of it.
  \<^item> Cart, CartProps (services/cart-service): C24 to C26.
  \<^item> Delivery, DeliveryHttp, Eta, DeliverySteps, DeliveryRefine, DeliveryInbox, DeliveryChecks,
    DeliveryProps (services/delivery-service): DeliverySteps holds the abstract steps of the fleet
    and its invariant, DeliveryRefine shows that every operation refines them; C27 to C31.
  \<^item> Clients, Saga (services/order-service/internal/order/client.go): the checkout over the
    handlers of the three services. The locale \<open>inventory\<close> is the contract the checkout needs of a
    stock service, interpreted on the catalog; C32. The theorem
    \<open>retry_after_compensation\<close> shows a checkout whose retry sells stock that is not reserved.
  \<^item> Simulator, SimulatorProps (services/courier-simulator): C34; Notification
    (services/notification-worker): C35.
  \<^item> Analytics, Dashboard, DashboardProps (services/analytics-worker): the projection of events to
    facts, the queries over them as ClickHouse answers them once duplicates are merged (\<open>final\<close>),
    and the endpoints and gauges; C36: the dashboard depends on the set of events only, up to ties
    that the queries leave open; C37.
  \<^item> DlqReplay, ReplayFlags (cmd/dlq-replay/main.go): the tool that sends dead letters back, and its
    command line; C38, and a lemma that only a run with the word REPLAY publishes.
  \<^item> Services (the \<open>Register\<close> methods of the handlers): the routes of every service and the dispatch
    to its handlers; the locale \<open>http_service\<close> is what the middleware needs of a service, interpreted
    on all five and on the gateway.
  \<^item> Platform: all services behind the gateway, with the consumers beside them, as one state and its
    histories; C2 lifts the invariants of the services to it, C33 is the inbox contract of all
    consumers.
  \<^item> Workers: the \<open>Run\<close> loops of the consumers, with their commits of offsets, and of the relay, the
    prediction worker, the SLO reporter and the simulator; C12: what becomes of the records. A poll
    with an error drops the records it fetched beside it (\<open>PollError\<close>, \<open>dropped\<close>).
  \<^item> Network: the services joined by the topics their relays, the simulator and the consumers share;
    any record of a subscribed topic is received at any time and any number of times. C3: the order
    service and the delivery service agree. The steps of both carry which orders and deliveries
    they may concern (\<open>ostep_if\<close>, \<open>dstep_if\<close>), and what a record says stays true of its sender.
  \<^item> Startup (the \<open>main\<close> functions, pkg/platform/runhttp/run.go, the gateway's
    internal/dependencies): which connections and background work a process starts and how it ends;
    C40.

  Interfaces. \<open>inbox\<close> (a handler and its set of applied events: an applied event changes nothing,
  a change is marked, a failure without a lost commit changes nothing), \<open>inventory\<close> (reserve
  and release as a checkout uses them), \<open>event_log\<close> (a projection whose facts are a function of the
  events it was given), \<open>http_service\<close> (a relation that every request respects) and \<open>announcer\<close> (a
  service whose outbox tells the truth, interpreted on orders, deliveries and the catalog). Their
  lemmas carry the properties of the consumers, the checkout, the dashboard, the platform and the
  network.

  Parameters, for code outside the repository: SHA-256 (\<open>sha\<close>), the collation PostgreSQL sorts
  names by (\<open>collate\<close>), the order in which ClickHouse delivers rows and groups (\<open>clickhouse\<close>, of
  which \<open>any_order\<close> says that it is a permutation), the broker's answers, the order in which Redis returns couriers around a
  point (\<open>geo_search\<close>), the answers of the ETA service, the tracer's ids and its parsing of them, the length of an encoded
  body (\<open>len\<close>), the UUID parser of the analytics worker, the text of JSON in a Kafka record
  (\<open>parse\<close>), and which service runs at which host (\<open>dp_host\<close>). Hypotheses on them are named in the
  theorems: for example that the hashes of two given requests differ in C20.

  Bounds. Integers of Go are integers with their ranges written out (\<open>wrap64\<close>, \<open>int4\<close>) where the
  code can leave them. \<open>maxAttempts\<close> is the code's 3, the batch of the relay its 50.

  Not modelled, and why: the trace and metrics exporters and the log (output only); timeouts of
  servers, connections and pools, and the other options of servers and clients; the timers of tickers
  and sleeps, of which only the order of events is kept; the rounding of \<open>float64\<close>, read
  as real arithmetic; expiry of Redis keys, which only removes cache entries; the text of JSON and
  percent escapes in paths, of which the values are kept; the web client, the ETA model and the infrastructure files, which are
  not Go.
\<close>

text \<open>The topics the consumers of Network receive are those the processes subscribe to.\<close>

lemma network_subscriptions:
  "subscriptions (order_main getenv) = [delivery_topic]"
  "subscriptions (delivery_main getenv) = [order_topic, location_topic]"
  "subscriptions (notification_main getenv) = [order_topic]"
  "subscriptions (analytics_main getenv) = [order_topic, inventory_topic, delivery_topic, location_topic]"
  by (simp_all add: subscriptions_def order_main_def delivery_main_def notification_main_def analytics_main_def
      order_topic_def delivery_topic_def location_topic_def inventory_topic_def)

end
